(* ===== verification/Prelude.thy ===== *)
theory Prelude
  imports Main "HOL-Library.Word" "HOL-Library.AList" "HOL-Library.Multiset" "HOL-Library.Sublist"
begin

text \<open>
  Shared vocabulary of the AppChat development: the machine types of the C++ code, the run-time
  failures it can meet, \<open>std::to_string\<close>, and the view of \<open>std::unordered_map\<close> as an association
  list with distinct keys. The collections below are filled by the component theories and drive
  their proofs.
\<close>

named_theorems wire_simps \<open>evaluation of generated parsers and serializers\<close>
named_theorems shrinks_intros \<open>field parsers never hand back more bytes than they got\<close>
named_theorems um_simps \<open>unordered maps as association lists\<close>
named_theorems chan_simps \<open>channels and their subscribers\<close>

section \<open>Machine types and failures\<close>

type_synonym byte = "8 word"
type_synonym bytes = "8 word list"
type_synonym uint16 = "16 word"
type_synonym int32 = "32 word"
type_synonym uint32 = "32 word"
type_synonym uint64 = "64 word"

text \<open>What the code can run into outside its own control flow: an exception of the standard
  library or undefined behaviour. A branch that reaches one ends in \<open>Inl\<close>.\<close>

datatype cpp_error =
    NullString       \<comment> \<open>\<open>std::string\<close> built from a null pointer\<close>
  | DoubleFree       \<comment> \<open>the same block handed to the allocator twice\<close>
  | LengthError      \<comment> \<open>\<open>std::vector::resize\<close> beyond what can be allocated\<close>
  | NotConnected     \<comment> \<open>\<open>remote_endpoint\<close> of a socket whose peer has gone\<close>
  | InvalidArgument  \<comment> \<open>an exception of \<open>std::stoi\<close> or of a date constructor\<close>
  | NullDeref        \<comment> \<open>a member call through an empty smart pointer\<close>
  | UseAfterErase    \<comment> \<open>an iterator of a container advanced after its element was erased\<close>

type_synonym 'a result = "cpp_error + 'a"

fun and_then :: "'a result \<Rightarrow> ('a \<Rightarrow> 'b result) \<Rightarrow> 'b result" where
  "and_then (Inl e) f = Inl e"
| "and_then (Inr x) f = f x"

lemma and_then_eq_Inr [simp]: "and_then r f = Inr y \<longleftrightarrow> (\<exists>x. r = Inr x \<and> f x = Inr y)"
  by (cases r) auto

lemma and_then_assoc: "and_then (and_then r f) g = and_then r (\<lambda>x. and_then (f x) g)"
  by (cases r) auto

section \<open>Strings and bytes\<close>

text \<open>A \<open>std::string\<close> is a list of 8-bit characters; a network buffer is a list of bytes.\<close>

definition bytes_of :: "string \<Rightarrow> bytes" where
  "bytes_of s = map (\<lambda>c. word_of_nat (of_char c)) s"

definition string_of :: "bytes \<Rightarrow> string" where
  "string_of bs = map (\<lambda>b. char_of (unat b)) bs"

lemma string_of_bytes_of [simp]: "string_of (bytes_of s) = s"
proof -
  have "char_of (unat (word_of_nat (of_char c) :: byte)) = c" for c :: char
    by (simp add: unat_of_nat)
  then show ?thesis
    by (simp add: string_of_def bytes_of_def comp_def)
qed

lemma length_bytes_of [simp]: "length (bytes_of s) = length s"
  by (simp add: bytes_of_def)

lemma length_string_of [simp]: "length (string_of bs) = length bs"
  by (simp add: string_of_def)

text \<open>\<open>c_str()\<close> or \<open>data()\<close> read as a C string.\<close>

definition cstr :: "string \<Rightarrow> string" where
  "cstr s = takeWhile (\<lambda>c. c \<noteq> CHR 0x00) s"

text \<open>\<open>std::vector<uint8_t>::resize\<close>: cut at the end, or filled up with zeros.\<close>

definition resize :: "nat \<Rightarrow> bytes \<Rightarrow> bytes" where
  "resize n buf = take n buf @ replicate (n - length buf) 0"

lemma length_resize [simp]: "length (resize n buf) = n"
  by (simp add: resize_def)

section \<open>\<open>std::to_string\<close>\<close>

text \<open>Decimal rendering, most significant digit first; a negative \<open>int\<close> gets a minus sign.\<close>

definition digit :: "nat \<Rightarrow> char" where
  "digit n = char_of (48 + n)"

fun to_string_nat :: "nat \<Rightarrow> string" where
  "to_string_nat n = (if n < 10 then [digit n] else to_string_nat (n div 10) @ [digit (n mod 10)])"

declare to_string_nat.simps [simp del]

definition to_string_int :: "int \<Rightarrow> string" where
  "to_string_int i = (if i < 0 then ''-'' @ to_string_nat (nat (- i)) else to_string_nat (nat i))"

text \<open>The value of a digit string, the inverse used to state that the rendering loses nothing.\<close>

definition digit_value :: "char \<Rightarrow> nat" where
  "digit_value c = of_char c - 48"

definition is_digit :: "char \<Rightarrow> bool" where
  "is_digit c \<longleftrightarrow> 48 \<le> (of_char c :: nat) \<and> (of_char c :: nat) < 58"

definition decimal_value :: "string \<Rightarrow> nat" where
  "decimal_value s = foldl (\<lambda>a c. 10 * a + digit_value c) 0 s"

lemma of_char_digit: "n < 10 \<Longrightarrow> (of_char (digit n) :: nat) = 48 + n"
  by (simp add: digit_def)

lemma digit_value_digit [simp]: "n < 10 \<Longrightarrow> digit_value (digit n) = n"
  by (simp add: digit_value_def of_char_digit)

lemma is_digit_digit [simp]: "n < 10 \<Longrightarrow> is_digit (digit n)"
  by (simp add: is_digit_def of_char_digit)

lemma to_string_nat_digits: "list_all is_digit (to_string_nat n)"
proof (induction n rule: to_string_nat.induct)
  case (1 n)
  then show ?case by (subst to_string_nat.simps) simp
qed

lemma decimal_value_to_string_nat [simp]: "decimal_value (to_string_nat n) = n"
proof (induction n rule: to_string_nat.induct)
  case (1 n)
  then show ?case
    by (subst to_string_nat.simps) (auto simp: decimal_value_def)
qed

lemma to_string_nat_nonempty [simp]: "to_string_nat n \<noteq> []"
  by (subst to_string_nat.simps) simp

lemma to_string_nat_inject [simp]: "to_string_nat m = to_string_nat n \<longleftrightarrow> m = n"
  by (metis decimal_value_to_string_nat)

lemma minus_not_digit [simp]: "\<not> is_digit CHR ''-''"
  by (simp add: is_digit_def)

lemma to_string_nat_hd: "is_digit (hd (to_string_nat n))"
  using to_string_nat_digits [of n] to_string_nat_nonempty [of n]
  by (cases "to_string_nat n") auto

text \<open>Decimal renderings are plain ASCII.\<close>

definition ascii :: "string \<Rightarrow> bool" where
  "ascii s \<longleftrightarrow> list_all (\<lambda>c. (of_char c :: nat) < 128) s"

lemma ascii_simps [simp]:
  "ascii []" "ascii (c # s) \<longleftrightarrow> (of_char c :: nat) < 128 \<and> ascii s" "ascii (s @ t) \<longleftrightarrow> ascii s \<and> ascii t"
  by (simp_all add: ascii_def)

lemma ascii_to_string [simp]: "ascii (to_string_nat n)" "ascii (to_string_int i)"
proof -
  show "ascii (to_string_nat n)" for n
    using to_string_nat_digits [of n] unfolding ascii_def is_digit_def list_all_iff by fastforce
  then show "ascii (to_string_int i)"
    by (simp add: to_string_int_def)
qed

text \<open>A 32-bit number has at most eleven characters.\<close>

lemma length_to_string_nat: "n < 10 ^ Suc k \<Longrightarrow> length (to_string_nat n) \<le> Suc k"
proof (induction k arbitrary: n)
  case 0
  then show ?case by (simp add: to_string_nat.simps [of n])
next
  case (Suc k)
  then have "n div 10 < 10 ^ Suc k"
    by (simp add: less_mult_imp_div_less mult.commute)
  then have "length (to_string_nat (n div 10)) \<le> Suc k"
    by (rule Suc.IH)
  then show ?case by (simp add: to_string_nat.simps [of n])
qed

lemma length_to_string_int32: "length (to_string_int (sint (i :: int32))) \<le> 11"
proof -
  have "\<bar>sint i\<bar> \<le> 2 ^ 31"
    using sint_greater_eq [of i] sint_less [of i] by simp
  then have "nat \<bar>sint i\<bar> < 10 ^ Suc 9"
    by simp
  then have "length (to_string_nat (nat \<bar>sint i\<bar>)) \<le> Suc 9"
    by (rule length_to_string_nat)
  then show ?thesis by (auto simp: to_string_int_def abs_if split: if_splits)
qed

lemma to_string_int_inject [simp]: "to_string_int i = to_string_int j \<longleftrightarrow> i = j"
proof
  assume eq: "to_string_int i = to_string_int j"
  have no_minus: "to_string_nat n \<noteq> CHR ''-'' # s" for n s
    using to_string_nat_hd [of n] by auto
  show "i = j"
    using eq no_minus [symmetric] no_minus
    by (auto simp: to_string_int_def split: if_splits)
qed simp

text \<open>\<open>std::stoi\<close>: spaces, a sign, as many digits as there are; an exception without a digit and for a
  value that is no \<open>int\<close>.\<close>

definition is_space :: "char \<Rightarrow> bool" where
  "is_space c \<longleftrightarrow> c = CHR '' '' \<or> (9 \<le> (of_char c :: nat) \<and> (of_char c :: nat) \<le> 13)"

definition stoi :: "string \<Rightarrow> int32 result" where
  "stoi s =
     (let s = dropWhile is_space s;
          neg = (s \<noteq> [] \<and> hd s = CHR ''-'');
          s = (if s \<noteq> [] \<and> hd s \<in> {CHR ''-'', CHR ''+''} then tl s else s);
          ds = takeWhile is_digit s;
          v = (if neg then - int (decimal_value ds) else int (decimal_value ds))
      in if ds = [] \<or> v < -2147483648 \<or> 2147483647 < v then Inl InvalidArgument
         else Inr (word_of_int v))"

lemma digit_not_special:
  "is_digit c \<Longrightarrow> \<not> is_space c \<and> c \<noteq> CHR ''-'' \<and> c \<noteq> CHR ''+''"
  by (auto simp: is_digit_def is_space_def)

lemma takeWhile_to_string_nat [simp]: "takeWhile is_digit (to_string_nat n) = to_string_nat n"
  using to_string_nat_digits [of n] by (simp add: takeWhile_eq_all_conv list_all_iff)

lemma stoi_to_string [simp]: "stoi (to_string_int (sint i)) = Inr i"
proof -
  have range: "- 2147483648 \<le> sint i" "sint i \<le> 2147483647"
    using sint_range_size [of i] by (simp_all add: word_size)
  have cons: "\<exists>c cs. to_string_nat n = c # cs \<and> is_digit c" for n
    using to_string_nat_hd [of n] to_string_nat_nonempty [of n] by (cases "to_string_nat n") auto
  show ?thesis
  proof (cases "sint i < 0")
    case True
    have "\<not> is_space CHR ''-''" by (simp add: is_space_def)
    with True range show ?thesis
      by (simp add: stoi_def to_string_int_def Let_def)
  next
    case False
    obtain c cs where c: "to_string_nat (nat (sint i)) = c # cs" "is_digit c"
      using cons by blast
    have tw: "takeWhile is_digit (c # cs) = c # cs" and dv: "decimal_value (c # cs) = nat (sint i)"
      using takeWhile_to_string_nat [of "nat (sint i)"] decimal_value_to_string_nat [of "nat (sint i)"]
      by (simp_all only: c(1))
    have whole: "word_of_nat (nat (sint i)) = i"
      using False by (simp add: of_nat_nat)
    have rest: "takeWhile is_digit cs = cs"
      using tw c(2) by simp
    show ?thesis
      using False range c digit_not_special [OF c(2)] dv whole
      by (simp add: stoi_def to_string_int_def Let_def rest)
  qed
qed

section \<open>Unordered maps\<close>

text \<open>
  A \<open>std::unordered_map\<close> is an association list with distinct keys; its order stands for the
  unspecified iteration order, and the properties that speak of an iteration say what does not
  depend on it. \<open>map_of\<close> is \<open>find\<close>, \<open>AList.delete\<close> is \<open>erase\<close>, and \<open>AList.update\<close> writes through
  the iterator that \<open>find\<close> or \<open>emplace\<close> gave.
\<close>

definition um_ok :: "('k \<times> 'v) list \<Rightarrow> bool" where
  "um_ok m \<longleftrightarrow> distinct (map fst m)"

definition um_try_emplace :: "'k \<Rightarrow> 'v \<Rightarrow> ('k \<times> 'v) list \<Rightarrow> ('k \<times> 'v) list" where
  "um_try_emplace k v m = (if map_of m k = None then m @ [(k, v)] else m)"

lemma um_ok_Nil [um_simps, simp]: "um_ok []"
  by (simp add: um_ok_def)

lemma um_ok_try_emplace [um_simps]: "um_ok m \<Longrightarrow> um_ok (um_try_emplace k v m)"
  by (auto simp: um_ok_def um_try_emplace_def map_of_eq_None_iff)

lemma um_ok_update [um_simps]: "um_ok m \<Longrightarrow> um_ok (AList.update k v m)"
  by (simp add: um_ok_def distinct_update)

lemma um_ok_delete [um_simps]: "um_ok m \<Longrightarrow> um_ok (AList.delete k m)"
  by (simp add: um_ok_def distinct_delete)

lemma map_of_try_emplace [um_simps]:
  "map_of (um_try_emplace k v m) x =
     (if x = k \<and> map_of m k = None then Some v else map_of m x)"
  by (auto simp: um_try_emplace_def map_add_def split: option.splits)

lemma map_of_delete_um [um_simps]:
  "map_of (AList.delete k m) x = (if x = k then None else map_of m x)"
  by (simp add: delete_conv')

lemma map_of_update_um [um_simps]:
  "map_of (AList.update k v m) x = (if x = k then Some v else map_of m x)"
  by (simp add: update_conv')

lemma try_emplace_present [um_simps]: "map_of m k = Some v' \<Longrightarrow> um_try_emplace k v m = m"
  by (simp add: um_try_emplace_def)

lemma delete_absent: "map_of m k = None \<Longrightarrow> AList.delete k m = m"
  by (simp add: delete_id map_of_eq_None_iff)

lemma um_ok_mem: "um_ok m \<Longrightarrow> (k, v) \<in> set m \<longleftrightarrow> map_of m k = Some v"
  by (simp add: um_ok_def)

text \<open>A word that counts below the wrap determines the number.\<close>

lemma of_nat_word32_inj:
  "m < 2 ^ 32 \<Longrightarrow> k < 2 ^ 32 \<Longrightarrow> (of_nat m :: int32) = of_nat k \<longleftrightarrow> m = k"
  by (auto simp: word_of_nat_eq_iff take_bit_nat_eq_self)

end
