(* ===== verification/ChatSpec.thy ===== *)
theory ChatSpec
  imports Prelude "HOL-Library.Sublist"
begin

text \<open>
  The abstract chat service, with no reference to how the server implements it: who is a member of
  which room and over which connection, what was said in each room, which identity a connection has,
  and what was handed to a connection so far. Messages are abstract: \<open>hail\<close> and \<open>bye\<close> build the
  announcements of a room, \<open>wire\<close> is the form in which a message is handed over, \<open>place\<close> the room
  that it names. The section on runs
  proves what a member can rely on, once, for every implementation of the service.
\<close>

section \<open>State and steps\<close>

record ('p, 'm, 'f) chat =
  ident :: "'p \<Rightarrow> int32"
  nick :: "'p \<Rightarrow> string"
  members :: "int32 \<Rightarrow> int32 \<Rightarrow> 'p option"
  said :: "int32 \<Rightarrow> 'm list option"
  handed :: "'p \<Rightarrow> 'f list"

text \<open>Something is said in a room: it is recorded, and handed once to each member.\<close>

definition presence :: "('p, 'm, 'f) chat \<Rightarrow> int32 \<Rightarrow> 'p \<Rightarrow> nat" where
  "presence a r q = card {c. members a r c = Some q}"

definition speak :: "('m \<Rightarrow> 'f) \<Rightarrow> int32 \<Rightarrow> 'm \<Rightarrow> ('p, 'm, 'f) chat \<Rightarrow> ('p, 'm, 'f) chat" where
  "speak wire r d a =
     a\<lparr>said := (said a)(r := map_option (\<lambda>ds. ds @ [d]) (said a r)),
       handed := (\<lambda>q. handed a q @ replicate (presence a r q) (wire d))\<rparr>"

text \<open>A connection enters a room: it is handed everything said so far, becomes a member under its
  identity unless that identity already is one, and is announced. A room that is opened starts with
  some past.\<close>

definition enter :: "('m \<Rightarrow> 'f) \<Rightarrow> (string \<Rightarrow> int32 \<Rightarrow> 'm) \<Rightarrow> 'm list \<Rightarrow> int32 \<Rightarrow> 'p \<Rightarrow>
    ('p, 'm, 'f) chat \<Rightarrow> ('p, 'm, 'f) chat" where
  "enter wire hail past r p a =
     (let ds = (case said a r of None \<Rightarrow> past | Some ds \<Rightarrow> ds)
      in speak wire r (hail (nick a p) r)
           (a\<lparr>said := (said a)(r \<mapsto> ds),
              handed := (handed a)(p := handed a p @ map wire ds),
              members := (members a)(r := (members a r)(ident a p \<mapsto>
                (case members a r (ident a p) of None \<Rightarrow> p | Some q \<Rightarrow> q)))\<rparr>))"

text \<open>An identity leaves a room: its leaving is announced to all members, itself included.\<close>

definition quit :: "('m \<Rightarrow> 'f) \<Rightarrow> (string \<Rightarrow> int32 \<Rightarrow> 'm) \<Rightarrow> int32 \<Rightarrow> int32 \<Rightarrow>
    ('p, 'm, 'f) chat \<Rightarrow> ('p, 'm, 'f) chat" where
  "quit wire bye c r a =
     (case members a r c of
        None \<Rightarrow> a
      | Some q \<Rightarrow> let a = speak wire r (bye (nick a q) r) a
                  in a\<lparr>members := (members a)(r := (members a r)(c := None))\<rparr>)"

inductive chat_step :: "('m \<Rightarrow> 'f) \<Rightarrow> ('m \<Rightarrow> int32) \<Rightarrow> (string \<Rightarrow> int32 \<Rightarrow> 'm) \<Rightarrow> (string \<Rightarrow> int32 \<Rightarrow> 'm) \<Rightarrow>
    ('p, 'm, 'f) chat \<Rightarrow> ('p, 'm, 'f) chat \<Rightarrow> bool"
  for wire place hail bye where
  stay: "chat_step wire place hail bye a a"
| connect: "(\<And>r c. members a r c \<noteq> Some p) \<Longrightarrow>
    chat_step wire place hail bye a
      (a\<lparr>ident := (ident a)(p := i), nick := (nick a)(p := []), handed := (handed a)(p := [])\<rparr>)"
| authenticate: "chat_step wire place hail bye a (a\<lparr>ident := (ident a)(p := i), nick := (nick a)(p := l)\<rparr>)"
| say: "chat_step wire place hail bye a (speak wire (place d) d a)"
| join: "chat_step wire place hail bye a (enter wire hail past r p a)"
| disconnect: "{r. members a r (ident a p) \<noteq> None} \<subseteq> set rs \<Longrightarrow>
    chat_step wire place hail bye a
      ((fold (quit wire bye (ident a p)) rs a)\<lparr>ident := (ident a)(p := -1), nick := (nick a)(p := l)\<rparr>)"

section \<open>Membership\<close>

lemma speak_simps [simp]:
  "ident (speak wire r d a) = ident a" "nick (speak wire r d a) = nick a"
  "members (speak wire r d a) = members a"
  "said (speak wire r d a) r' = (if r' = r then map_option (\<lambda>ds. ds @ [d]) (said a r) else said a r')"
  "handed (speak wire r d a) q = handed a q @ replicate (presence a r q) (wire d)"
  by (simp_all add: speak_def)

lemma enter_simps [simp]:
  "ident (enter wire hail past r p a) = ident a" "nick (enter wire hail past r p a) = nick a"
  "members (enter wire hail past r p a) r' c =
     (if r' = r \<and> c = ident a p then Some (case members a r c of None \<Rightarrow> p | Some q \<Rightarrow> q)
      else members a r' c)"
  by (auto simp: enter_def Let_def)

lemma quit_simps [simp]:
  "ident (quit wire bye c r a) = ident a" "nick (quit wire bye c r a) = nick a"
  "members (quit wire bye c r a) r' c' = (if r' = r \<and> c' = c then None else members a r' c')"
  by (auto simp: quit_def Let_def split: option.split)

lemma quits_simps [simp]:
  "ident (fold (quit wire bye c) rs a) = ident a" "nick (fold (quit wire bye c) rs a) = nick a"
  "members (fold (quit wire bye c) rs a) r' c' =
     (if r' \<in> set rs \<and> c' = c then None else members a r' c')"
  by (induction rs arbitrary: a) auto

text \<open>Identities are 32-bit integers, so a member is counted at least once.\<close>

lemma presence_pos: "members a r c = Some q \<Longrightarrow> 0 < presence a r q"
  unfolding presence_def by (rule card_gt_0_iff [THEN iffD2]) (auto intro: finite)

section \<open>What a member is handed\<close>

text \<open>What an implementation fixes: the form \<open>wire\<close> of a message, the announcements, and the room
  \<open>place\<close> that a message names. The announcements of a room name that room.\<close>

locale chat_service =
  fixes wire :: "'m \<Rightarrow> 'f"
    and place :: "'m \<Rightarrow> int32"
    and hail :: "string \<Rightarrow> int32 \<Rightarrow> 'm"
    and bye :: "string \<Rightarrow> int32 \<Rightarrow> 'm"
  assumes place_hail: "place (hail l r) = r"
    and place_bye: "place (bye l r) = r"
begin

text \<open>From \<open>a\<close> to \<open>a'\<close> the room said \<open>ds\<close>, all of them naming it, and the connection was handed
  \<open>es\<close>, which holds all of \<open>ds\<close> in its order, possibly with other messages between.\<close>

definition follows :: "int32 \<Rightarrow> 'p \<Rightarrow> ('p, 'm, 'f) chat \<Rightarrow> ('p, 'm, 'f) chat \<Rightarrow> bool" where
  "follows r p a a' \<longleftrightarrow>
     (\<exists>ds es. said a' r = map_option (\<lambda>old. old @ ds) (said a r) \<and> (\<forall>d \<in> set ds. place d = r) \<and>
        handed a' p = handed a p @ map wire es \<and> subseq ds es)"

lemma followsI:
  "\<lbrakk>said a' r = map_option (\<lambda>old. old @ ds) (said a r); \<forall>d \<in> set ds. place d = r;
     handed a' p = handed a p @ map wire es; subseq ds es\<rbrakk> \<Longrightarrow> follows r p a a'"
  by (auto simp: follows_def)

lemma follows_same:
  "said a' r = said a r \<Longrightarrow> handed a' p = handed a p \<Longrightarrow> follows r p a a'"
  by (rule followsI [of _ _ "[]" _ _ "[]"]) (simp_all add: option.map_ident)

lemma follows_trans:
  assumes "follows r p a b" and "follows r p b c"
  shows "follows r p a c"
proof -
  obtain ds es where 1: "said b r = map_option (\<lambda>old. old @ ds) (said a r)" "\<forall>d \<in> set ds. place d = r"
    "handed b p = handed a p @ map wire es" "subseq ds es"
    using assms(1) by (auto simp: follows_def)
  obtain ds' es' where 2: "said c r = map_option (\<lambda>old. old @ ds') (said b r)" "\<forall>d \<in> set ds'. place d = r"
    "handed c p = handed b p @ map wire es'" "subseq ds' es'"
    using assms(2) by (auto simp: follows_def)
  show ?thesis
    by (rule followsI [of _ _ "ds @ ds'" _ _ "es @ es'"])
      (use 1 2 in \<open>auto simp: option.map_comp comp_def intro: list_emb_append_mono\<close>)
qed

lemma follows_speak:
  assumes "members a r c = Some p" and "place d = r'"
  shows "follows r p a (speak wire r' d a)"
proof (rule followsI [of _ _ "if r' = r then [d] else []" _ _ "replicate (presence a r' p) d"])
  obtain n where "presence a r p = Suc n"
    using presence_pos [OF assms(1)] by (cases "presence a r p") auto
  then show "subseq (if r' = r then [d] else []) (replicate (presence a r' p) d)"
    by simp
qed (use assms(2) in \<open>simp_all add: option.map_ident\<close>)

lemma follows_enter:
  assumes "members a r c = Some p" and "said a r \<noteq> None"
  shows "follows r p a (enter wire hail past r' q a)"
proof -
  let ?ds = "case said a r' of None \<Rightarrow> past | Some ds \<Rightarrow> ds"
  let ?b = "a\<lparr>said := (said a)(r' \<mapsto> ?ds), handed := (handed a)(q := handed a q @ map wire ?ds),
    members := (members a)(r' := (members a r')(ident a q \<mapsto>
      (case members a r' (ident a q) of None \<Rightarrow> q | Some p \<Rightarrow> p)))\<rparr>"
  have "follows r p a ?b"
    using assms(2)
    by (intro followsI [of _ _ "[]" _ _ "if q = p then ?ds else []"]) (auto simp: option.map_ident)
  moreover have "members ?b r c = Some p"
    using assms(1) by (auto split: option.split)
  ultimately show ?thesis
    unfolding enter_def Let_def by (blast intro: follows_trans follows_speak place_hail)
qed

lemma follows_quit:
  assumes "members a r c = Some p"
  shows "follows r p a (quit wire bye c' r' a)"
proof (cases "members a r' c'")
  case (Some q)
  have "follows r p a (speak wire r' (bye (nick a q) r') a)"
    using assms place_bye by (rule follows_speak)
  then show ?thesis by (simp add: quit_def Some follows_def Let_def)
qed (simp add: quit_def follows_same)

lemma follows_quits:
  assumes "members a r c = Some p" and "r \<notin> set rs \<or> c' \<noteq> c"
  shows "follows r p a (fold (quit wire bye c') rs a)"
  using assms
proof (induction rs arbitrary: a)
  case (Cons r' rs)
  have "members (quit wire bye c' r' a) r c = Some p"
    using Cons.prems by auto
  then have "follows r p (quit wire bye c' r' a) (fold (quit wire bye c') rs (quit wire bye c' r' a))"
    using Cons.prems(2) by (intro Cons.IH) auto
  then show ?case
    using follows_trans [OF follows_quit [OF Cons.prems(1)]] by simp
qed (simp add: follows_same)

text \<open>One step, for a connection that is a member before and after it.\<close>

lemma follows_step:
  assumes "chat_step wire place hail bye a a'" and "members a r c = Some p" and "members a' r c = Some p"
    and "said a r \<noteq> None"
  shows "follows r p a a'"
  using assms(1)
proof cases
  case (connect q i)
  then have "q \<noteq> p" using assms(2) by auto
  then show ?thesis by (simp add: connect(1) follows_same)
next
  case (disconnect q rs l)
  then have "r \<notin> set rs \<or> ident a q \<noteq> c"
    using assms(3) by (auto split: if_splits)
  then have "follows r p a (fold (quit wire bye (ident a q)) rs a)"
    using assms(2) by (intro follows_quits) auto
  then show ?thesis by (simp add: disconnect(1) follows_def)
qed (use assms in \<open>auto intro: follows_same follows_speak follows_enter\<close>)

end

section \<open>What a room remembers\<close>

text \<open>What was said is never forgotten.\<close>

definition recalls :: "('p, 'm, 'f) chat \<Rightarrow> ('p, 'm, 'f) chat \<Rightarrow> bool" where
  "recalls a a' \<longleftrightarrow>
     (\<forall>r ds. said a r = Some ds \<longrightarrow> (\<exists>es. said a' r = Some (ds @ es)))"

lemma recalls_refl [simp]: "recalls a a"
  by (simp add: recalls_def)

lemma recalls_trans: "recalls a b \<Longrightarrow> recalls b c \<Longrightarrow> recalls a c"
  unfolding recalls_def by (metis append.assoc)

lemma recalls_same: "said a' = said a \<Longrightarrow> recalls a a'"
  by (simp add: recalls_def)

lemma recalls_speak: "recalls a (speak wire r d a)"
  by (simp add: recalls_def)

lemma recalls_quits: "recalls a (fold (quit wire bye c) rs a)"
proof (induction rs arbitrary: a)
  case (Cons r rs)
  have "recalls a (quit wire bye c r a)"
    using recalls_speak [of a wire r] by (auto simp: quit_def recalls_def Let_def split: option.split)
  then show ?case
    using recalls_trans Cons.IH by simp blast
qed simp

lemma recalls_step:
  assumes "chat_step wire place hail bye a a'"
  shows "recalls a a'"
  using assms
proof cases
  case (join past r p)
  then show ?thesis
    by (auto simp: enter_def recalls_def Let_def split: option.split)
next
  case (disconnect p rs l)
  have "recalls a (fold (quit wire bye (ident a p)) rs a)" by (rule recalls_quits)
  then show ?thesis by (simp add: disconnect(1) recalls_def)
qed (simp_all add: recalls_same recalls_speak)

section \<open>Where messages come from\<close>

text \<open>A service whose announcements are genuine when they name a known user: the contract of the
  operations is that they hand over and record nothing but what was genuine when it was said.\<close>

locale honest_chat = chat_service wire place hail bye
  for wire :: "'m \<Rightarrow> 'f" and place :: "'m \<Rightarrow> int32" and hail bye :: "string \<Rightarrow> int32 \<Rightarrow> 'm" +
  fixes genuine :: "'m \<Rightarrow> bool"
    and known :: "string \<Rightarrow> bool"
  assumes genuine_hail: "known l \<Longrightarrow> genuine (hail l r)"
    and genuine_bye: "known l \<Longrightarrow> genuine (bye l r)"
begin

definition honest :: "('p, 'm, 'f) chat \<Rightarrow> bool" where
  "honest a \<longleftrightarrow> (\<forall>r ds. said a r = Some ds \<longrightarrow> list_all genuine ds) \<and>
     (\<forall>p. \<forall>f \<in> set (handed a p). \<exists>d. genuine d \<and> f = wire d) \<and> (\<forall>p. known (nick a p))"

lemma honestI:
  assumes "\<And>r ds. said a r = Some ds \<Longrightarrow> list_all genuine ds"
    and "\<And>p f. f \<in> set (handed a p) \<Longrightarrow> \<exists>d. genuine d \<and> f = wire d" and "\<And>p. known (nick a p)"
  shows "honest a"
  using assms by (simp add: honest_def)

lemma honestD:
  assumes "honest a"
  shows "said a r = Some ds \<Longrightarrow> list_all genuine ds"
    and "f \<in> set (handed a p) \<Longrightarrow> \<exists>d. genuine d \<and> f = wire d" and "known (nick a p)"
  using assms by (simp_all add: honest_def)

lemma honest_speak:
  assumes "honest a" and "genuine d"
  shows "honest (speak wire r d a)"
  using honestD [OF assms(1)] assms(2) by (intro honestI) (fastforce split: if_splits)+

lemma honest_authenticate:
  "honest a \<Longrightarrow> known l \<Longrightarrow> honest (a\<lparr>ident := i, nick := (nick a)(p := l)\<rparr>)"
  by (simp add: honest_def)

lemma honest_connect:
  "honest a \<Longrightarrow> known [] \<Longrightarrow>
    honest (a\<lparr>ident := (ident a)(p := i), nick := (nick a)(p := []), handed := (handed a)(p := [])\<rparr>)"
  by (simp add: honest_def)

lemma honest_enter:
  assumes "honest a" and "said a r = None \<Longrightarrow> list_all genuine past"
  shows "honest (enter wire hail past r p a)"
proof -
  let ?ds = "case said a r of None \<Rightarrow> past | Some ds \<Rightarrow> ds"
  have ds: "list_all genuine ?ds"
    using assms(2) honestD(1) [OF assms(1)] by (cases "said a r") auto
  have "honest (a\<lparr>said := (said a)(r \<mapsto> ?ds), handed := (handed a)(p := handed a p @ map wire ?ds),
      members := ms\<rparr>)" for ms
    using honestD [OF assms(1)] ds by (intro honestI) (fastforce split: if_splits simp: list_all_iff)+
  then show ?thesis
    unfolding enter_def Let_def using honestD(3) [OF assms(1)] by (simp add: honest_speak genuine_hail)
qed

lemma honest_quit:
  assumes "honest a"
  shows "honest (quit wire bye c r a)"
proof (cases "members a r c")
  case (Some q)
  have "honest (speak wire r (bye (nick a q) r) a)"
    using honest_speak [OF assms genuine_bye] honestD(3) [OF assms] by blast
  then show ?thesis using Some by (simp add: quit_def Let_def honest_def)
qed (use assms in \<open>simp add: quit_def\<close>)

lemma honest_quits: "honest a \<Longrightarrow> honest (fold (quit wire bye c) rs a)"
  by (induction rs arbitrary: a) (simp_all add: honest_quit)

end

text \<open>The reachable states of the service, from an empty one.\<close>

definition chat_init :: "('p, 'm, 'f) chat" where
  "chat_init = \<lparr>ident = (\<lambda>p. 0), nick = (\<lambda>p. []), members = (\<lambda>r c. None), said = (\<lambda>r. None),
     handed = (\<lambda>p. [])\<rparr>"

inductive chat_reach :: "('m \<Rightarrow> 'f) \<Rightarrow> ('m \<Rightarrow> int32) \<Rightarrow> (string \<Rightarrow> int32 \<Rightarrow> 'm) \<Rightarrow> (string \<Rightarrow> int32 \<Rightarrow> 'm) \<Rightarrow>
    ('p, 'm, 'f) chat \<Rightarrow> bool"
  for wire place hail bye where
  init: "chat_reach wire place hail bye chat_init"
| step: "chat_reach wire place hail bye a \<Longrightarrow> chat_step wire place hail bye a a' \<Longrightarrow>
    chat_reach wire place hail bye a'"

end
