(* ===== verification/PbRuntime.thy ===== *)
theory PbRuntime
  imports Prelude
begin

unbundle bit_operations_syntax

text \<open>
  The protobuf runtime as the generated files \<open>proto/build/*.pb.cc\<close> see it. The runtime itself is
  a third-party library: the record \<open>pb_rt\<close> holds the entry points the generated code calls, and
  the locale \<open>pb_runtime\<close> states the documented wire format they implement. The loop shared by all
  generated \<open>_InternalParse\<close> functions is defined here over those entry points.
\<close>

section \<open>Entry points of the runtime\<close>

text \<open>
  A reader gets the bytes from \<open>ptr\<close> to the limit of the enclosing message. Where it can leave
  a value behind although the pointer it returns is null, the value comes with the result:
  \<open>None\<close> in the second component is the null pointer.
\<close>

record pb_rt =
  rt_ReadTag :: "bytes \<Rightarrow> (uint32 \<times> bytes) option"
  rt_ReadVarint64 :: "bytes \<Rightarrow> uint64 \<times> bytes option"
  rt_LoadFixed32 :: "bytes \<Rightarrow> uint32 \<times> bytes option"
  rt_LoadFixed64 :: "bytes \<Rightarrow> uint64 \<times> bytes option"
  rt_ReadSize :: "bytes \<Rightarrow> (nat \<times> bytes) option"
  rt_ParseString :: "string \<Rightarrow> bytes \<Rightarrow> string \<times> bytes option"
  rt_VerifyUTF8 :: "string \<Rightarrow> bool"
  rt_UnknownFieldParse :: "uint32 \<Rightarrow> bytes \<Rightarrow> bytes \<Rightarrow> bytes \<times> bytes option"
  rt_WriteFixed32 :: "nat \<Rightarrow> uint32 \<Rightarrow> bytes"
  rt_WriteFixed64 :: "nat \<Rightarrow> uint64 \<Rightarrow> bytes"
  rt_WriteInt32 :: "nat \<Rightarrow> int32 \<Rightarrow> bytes"
  rt_WriteEnum :: "nat \<Rightarrow> int32 \<Rightarrow> bytes"
  rt_WriteString :: "nat \<Rightarrow> string \<Rightarrow> bytes"
  rt_WriteMessage :: "nat \<Rightarrow> bytes \<Rightarrow> bytes"
  rt_Int32Size :: "int32 \<Rightarrow> nat"
  rt_EnumSize :: "int32 \<Rightarrow> nat"
  rt_StringSize :: "string \<Rightarrow> nat"
  rt_MessageSize :: "nat \<Rightarrow> nat"

text \<open>Length-delimited payloads stay below \<open>INT_MAX\<close> less the 16 bytes of slop of the input
  stream. A string that travels is valid UTF-8 and, well below that limit, shorter than
  \<open>2 ^ 29\<close> bytes.\<close>

definition pb_size_limit :: nat where
  "pb_size_limit = 2147483631"

definition str_ok :: "pb_rt \<Rightarrow> string \<Rightarrow> bool" where
  "str_ok rt s \<longleftrightarrow> rt_VerifyUTF8 rt s \<and> length s < 536870912"

section \<open>The parse loop\<close>

text \<open>What the \<open>switch (tag >> 3)\<close> of a message does with a tag: \<open>FieldOk\<close> reaches \<open>continue\<close>,
  \<open>FieldFail\<close> is a failed \<open>CHK_\<close> (the message keeps what was stored so far), \<open>Unusual\<close> jumps to
  \<open>handle_unusual\<close>. \<open>FieldOutOfFuel\<close> hands on that the parser of a sub-message ran out of fuel.\<close>

datatype 'm field_result = FieldOk 'm bytes | FieldFail 'm | Unusual | FieldOutOfFuel

text \<open>\<open>Ended m None\<close> stops at the limit, \<open>Ended m (Some tag)\<close> after \<open>SetLastTag(tag)\<close>; \<open>Failed m\<close>
  returns a null pointer. \<open>OutOfFuel\<close> is no behaviour of the code: it is shown unreachable.\<close>

datatype 'm parse_result = Ended 'm "uint32 option" | Failed 'm | OutOfFuel

fun parse_loop :: "pb_rt \<Rightarrow> (uint32 \<Rightarrow> 'm \<Rightarrow> bytes \<Rightarrow> 'm field_result) \<Rightarrow> ('m \<Rightarrow> bytes) \<Rightarrow>
    ((bytes \<Rightarrow> bytes) \<Rightarrow> 'm \<Rightarrow> 'm) \<Rightarrow> nat \<Rightarrow> 'm \<Rightarrow> bytes \<Rightarrow> 'm parse_result" where
  "parse_loop rt field unknown unknown_update 0 m bs = OutOfFuel"
| "parse_loop rt field unknown unknown_update (Suc fuel) m bs =
     (if bs = [] then Ended m None
      else case rt_ReadTag rt bs of
        None \<Rightarrow> Failed m
      | Some (tag, bs1) \<Rightarrow>
          (case field tag m bs1 of
             FieldOk m' bs2 \<Rightarrow> parse_loop rt field unknown unknown_update fuel m' bs2
           | FieldFail m' \<Rightarrow> Failed m'
           | FieldOutOfFuel \<Rightarrow> OutOfFuel
           | Unusual \<Rightarrow>
               (if tag AND 7 = 4 \<or> tag = 0 then Ended m (Some tag)
                else case rt_UnknownFieldParse rt tag (unknown m) bs1 of
                  (u, None) \<Rightarrow> Failed (unknown_update (\<lambda>_. u) m)
                | (u, Some bs2) \<Rightarrow>
                    parse_loop rt field unknown unknown_update fuel
                      (unknown_update (\<lambda>_. u) m) bs2)))"

text \<open>A tag takes at least one byte, so one unit of fuel per byte and one for the test of the
  limit are enough.\<close>

definition parse_message :: "pb_rt \<Rightarrow> (uint32 \<Rightarrow> 'm \<Rightarrow> bytes \<Rightarrow> 'm field_result) \<Rightarrow> ('m \<Rightarrow> bytes) \<Rightarrow>
    ((bytes \<Rightarrow> bytes) \<Rightarrow> 'm \<Rightarrow> 'm) \<Rightarrow> 'm \<Rightarrow> bytes \<Rightarrow> 'm parse_result" where
  "parse_message rt field unknown unknown_update m bs =
     parse_loop rt field unknown unknown_update (Suc (length bs)) m bs"

section \<open>Field readers\<close>

text \<open>The bodies that the generated \<open>case\<close> branches repeat for each type of field.\<close>

definition string_field :: "pb_rt \<Rightarrow> ('m \<Rightarrow> string) \<Rightarrow> ((string \<Rightarrow> string) \<Rightarrow> 'm \<Rightarrow> 'm) \<Rightarrow>
    'm \<Rightarrow> bytes \<Rightarrow> 'm field_result" where
  "string_field rt get upd m bs =
     (case rt_ParseString rt (get m) bs of (s, p) \<Rightarrow>
        let m' = upd (\<lambda>_. s) m
        in if \<not> rt_VerifyUTF8 rt s then FieldFail m'
           else case p of None \<Rightarrow> FieldFail m' | Some rest \<Rightarrow> FieldOk m' rest)"

definition varint_field :: "pb_rt \<Rightarrow> ((int32 \<Rightarrow> int32) \<Rightarrow> 'm \<Rightarrow> 'm) \<Rightarrow>
    'm \<Rightarrow> bytes \<Rightarrow> 'm field_result" where
  "varint_field rt upd m bs =
     (case rt_ReadVarint64 rt bs of (v, p) \<Rightarrow>
        let m' = upd (\<lambda>_. ucast v) m
        in case p of None \<Rightarrow> FieldFail m' | Some rest \<Rightarrow> FieldOk m' rest)"

text \<open>An enum is stored only after the check of the pointer.\<close>

definition enum_field :: "pb_rt \<Rightarrow> ((int32 \<Rightarrow> int32) \<Rightarrow> 'm \<Rightarrow> 'm) \<Rightarrow>
    'm \<Rightarrow> bytes \<Rightarrow> 'm field_result" where
  "enum_field rt upd m bs =
     (case rt_ReadVarint64 rt bs of
        (v, None) \<Rightarrow> FieldFail m
      | (v, Some rest) \<Rightarrow> FieldOk (upd (\<lambda>_. ucast v) m) rest)"

definition fixed32_field :: "pb_rt \<Rightarrow> ((uint32 \<Rightarrow> uint32) \<Rightarrow> 'm \<Rightarrow> 'm) \<Rightarrow>
    'm \<Rightarrow> bytes \<Rightarrow> 'm field_result" where
  "fixed32_field rt upd m bs =
     (case rt_LoadFixed32 rt bs of (v, p) \<Rightarrow>
        let m' = upd (\<lambda>_. v) m
        in case p of None \<Rightarrow> FieldFail m' | Some rest \<Rightarrow> FieldOk m' rest)"

definition fixed64_field :: "pb_rt \<Rightarrow> ((uint64 \<Rightarrow> uint64) \<Rightarrow> 'm \<Rightarrow> 'm) \<Rightarrow>
    'm \<Rightarrow> bytes \<Rightarrow> 'm field_result" where
  "fixed64_field rt upd m bs =
     (case rt_LoadFixed64 rt bs of (v, p) \<Rightarrow>
        let m' = upd (\<lambda>_. v) m
        in case p of None \<Rightarrow> FieldFail m' | Some rest \<Rightarrow> FieldOk m' rest)"

text \<open>
  \<open>ctx->ParseMessage(sub, ptr)\<close>: read the size, push the limit, run the \<open>_InternalParse\<close> of the
  sub-message, and require that it stopped exactly at the limit. A size beyond the buffer lets the
  inner parser see what is there before the limit check fails. \<open>None\<close> when the inner parser ran out
  of fuel.
\<close>

definition ParseMessage :: "pb_rt \<Rightarrow> ('s \<Rightarrow> bytes \<Rightarrow> 's parse_result) \<Rightarrow> 's \<Rightarrow> bytes \<Rightarrow>
    ('s \<times> bytes option) option" where
  "ParseMessage rt inner sub bs =
     (case rt_ReadSize rt bs of
        None \<Rightarrow> Some (sub, None)
      | Some (n, bs1) \<Rightarrow>
          (case inner sub (take n bs1) of
             Ended sub' None \<Rightarrow> Some (sub', if n \<le> length bs1 then Some (drop n bs1) else None)
           | Ended sub' (Some tag) \<Rightarrow> Some (sub', None)
           | Failed sub' \<Rightarrow> Some (sub', None)
           | OutOfFuel \<Rightarrow> None))"

definition message_field :: "pb_rt \<Rightarrow> ('s \<Rightarrow> bytes \<Rightarrow> 's parse_result) \<Rightarrow> 's \<Rightarrow> ('s \<Rightarrow> 'm) \<Rightarrow>
    bytes \<Rightarrow> 'm field_result" where
  "message_field rt inner sub put bs =
     (case ParseMessage rt inner sub bs of
        None \<Rightarrow> FieldOutOfFuel
      | Some (sub', None) \<Rightarrow> FieldFail (put sub')
      | Some (sub', Some rest) \<Rightarrow> FieldOk (put sub') rest)"

text \<open>\<open>MessageLite::ParseFromArray\<close>: true when the parser stopped at the end of the array. The
  message was cleared before; on failure it keeps what was parsed.\<close>

definition ParseFromArray :: "('m \<Rightarrow> bytes \<Rightarrow> 'm parse_result) \<Rightarrow> 'm \<Rightarrow> bytes \<Rightarrow> bool \<times> 'm" where
  "ParseFromArray inner cleared bs =
     (case inner cleared bs of
        Ended m None \<Rightarrow> (True, m)
      | Ended m (Some tag) \<Rightarrow> (False, m)
      | Failed m \<Rightarrow> (False, m)
      | OutOfFuel \<Rightarrow> (False, cleared))"

text \<open>A field parser that hands back no more bytes than it got and always ends.\<close>

definition shrinks :: "(uint32 \<Rightarrow> 'm \<Rightarrow> bytes \<Rightarrow> 'm field_result) \<Rightarrow> bool" where
  "shrinks field \<longleftrightarrow>
     (\<forall>tag m bs m' bs'. field tag m bs = FieldOk m' bs' \<longrightarrow> length bs' \<le> length bs) \<and>
     (\<forall>tag m bs. field tag m bs \<noteq> FieldOutOfFuel)"

lemma scalar_fields_end [simp]:
  "string_field rt get upd m bs \<noteq> FieldOutOfFuel" "varint_field rt fupd m bs \<noteq> FieldOutOfFuel"
  "enum_field rt fupd m bs \<noteq> FieldOutOfFuel" "fixed32_field rt fupd32 m bs \<noteq> FieldOutOfFuel"
  "fixed64_field rt fupd64 m bs \<noteq> FieldOutOfFuel"
  by (auto simp: string_field_def varint_field_def enum_field_def fixed32_field_def fixed64_field_def Let_def
      split: prod.splits option.splits)

lemma message_field_ends:
  "(\<And>sub bs. inner sub bs \<noteq> OutOfFuel) \<Longrightarrow> message_field rt inner sub put bs \<noteq> FieldOutOfFuel"
  by (auto simp: message_field_def ParseMessage_def split: prod.splits option.splits parse_result.splits)

text \<open>An \<open>int32\<close> travels sign-extended to 64 bits and is truncated on arrival.\<close>

lemma int32_round [simp]: "(ucast (scast i :: uint64) :: int32) = i"
  by (rule bit_word_eqI) (auto simp: bit_simps)

section \<open>The documented wire format\<close>

text \<open>
  A key is the varint \<open>8 * number + wire type\<close>; the laws are stated for the one-byte keys of
  the fields 1 to 15, which is all that the schema uses. Each writer is inverted by the reader the
  generated parser picks for that key, and each size function gives the length that is written.
\<close>

locale pb_runtime =
  fixes rt :: pb_rt
  assumes read_fixed32: "\<lbrakk>0 < n; n < 16\<rbrakk> \<Longrightarrow>
      \<exists>bs. rt_ReadTag rt (rt_WriteFixed32 rt n v @ r) = Some (word_of_nat (8 * n + 5), bs) \<and>
           rt_LoadFixed32 rt bs = (v, Some r)"
    and read_fixed64: "\<lbrakk>0 < n; n < 16\<rbrakk> \<Longrightarrow>
      \<exists>bs. rt_ReadTag rt (rt_WriteFixed64 rt n w @ r) = Some (word_of_nat (8 * n + 1), bs) \<and>
           rt_LoadFixed64 rt bs = (w, Some r)"
    and read_int32: "\<lbrakk>0 < n; n < 16\<rbrakk> \<Longrightarrow>
      \<exists>bs. rt_ReadTag rt (rt_WriteInt32 rt n i @ r) = Some (word_of_nat (8 * n), bs) \<and>
           rt_ReadVarint64 rt bs = (scast i, Some r)"
    and read_enum: "\<lbrakk>0 < n; n < 16\<rbrakk> \<Longrightarrow>
      \<exists>bs. rt_ReadTag rt (rt_WriteEnum rt n i @ r) = Some (word_of_nat (8 * n), bs) \<and>
           rt_ReadVarint64 rt bs = (scast i, Some r)"
    and read_string: "\<lbrakk>0 < n; n < 16; length s < pb_size_limit\<rbrakk> \<Longrightarrow>
      \<exists>bs. rt_ReadTag rt (rt_WriteString rt n s @ r) = Some (word_of_nat (8 * n + 2), bs) \<and>
           rt_ParseString rt old bs = (s, Some r)"
    and read_message: "\<lbrakk>0 < n; n < 16; length p < pb_size_limit\<rbrakk> \<Longrightarrow>
      \<exists>bs. rt_ReadTag rt (rt_WriteMessage rt n p @ r) = Some (word_of_nat (8 * n + 2), bs) \<and>
           rt_ReadSize rt bs = Some (length p, p @ r)"
    and size_fixed32: "\<lbrakk>0 < n; n < 16\<rbrakk> \<Longrightarrow> length (rt_WriteFixed32 rt n v) = 1 + 4"
    and size_fixed64: "\<lbrakk>0 < n; n < 16\<rbrakk> \<Longrightarrow> length (rt_WriteFixed64 rt n w) = 1 + 8"
    and size_int32: "\<lbrakk>0 < n; n < 16\<rbrakk> \<Longrightarrow> length (rt_WriteInt32 rt n i) = 1 + rt_Int32Size rt i"
    and size_enum: "\<lbrakk>0 < n; n < 16\<rbrakk> \<Longrightarrow> length (rt_WriteEnum rt n i) = 1 + rt_EnumSize rt i"
    and size_string: "\<lbrakk>0 < n; n < 16; length s < pb_size_limit\<rbrakk> \<Longrightarrow>
      length (rt_WriteString rt n s) = 1 + rt_StringSize rt s"
    and size_message: "\<lbrakk>0 < n; n < 16; length p < pb_size_limit\<rbrakk> \<Longrightarrow>
      length (rt_WriteMessage rt n p) = 1 + rt_MessageSize rt (length p)"
    and string_bound: "length s < pb_size_limit \<Longrightarrow> rt_StringSize rt s \<le> 5 + length s"
    and message_bound: "k < pb_size_limit \<Longrightarrow> rt_MessageSize rt k \<le> 5 + k"
    and varint_bound: "rt_Int32Size rt i \<le> 10" "rt_EnumSize rt i \<le> 10"
    and tag_shrinks: "rt_ReadTag rt bs = Some (t, bs') \<Longrightarrow> length bs' < length bs"
    and varint_shrinks: "rt_ReadVarint64 rt bs = (w, Some bs') \<Longrightarrow> length bs' \<le> length bs"
    and fixed32_shrinks: "rt_LoadFixed32 rt bs = (v, Some bs') \<Longrightarrow> length bs' \<le> length bs"
    and fixed64_shrinks: "rt_LoadFixed64 rt bs = (w, Some bs') \<Longrightarrow> length bs' \<le> length bs"
    and size_shrinks: "rt_ReadSize rt bs = Some (n, bs') \<Longrightarrow> length bs' \<le> length bs"
    and string_shrinks: "rt_ParseString rt old bs = (s, Some bs') \<Longrightarrow> length bs' \<le> length bs"
    and unknown_shrinks: "rt_UnknownFieldParse rt t u bs = (u', Some bs') \<Longrightarrow> length bs' \<le> length bs"
    and zero_tag: "rt_ReadTag rt (0 # bs) = Some (0, bs)"
    and ascii_utf8: "list_all (\<lambda>c. (of_char c :: nat) < 128) s \<Longrightarrow> rt_VerifyUTF8 rt s"
begin

text \<open>Reading fields never lengthens the input.\<close>

lemma string_field_shrinks [shrinks_intros]:
  "string_field rt get upd m bs = FieldOk m' bs' \<Longrightarrow> length bs' \<le> length bs"
  by (auto simp: string_field_def Let_def split: prod.splits option.splits if_splits
      dest: string_shrinks)

lemma varint_field_shrinks [shrinks_intros]:
  "varint_field rt upd m bs = FieldOk m' bs' \<Longrightarrow> length bs' \<le> length bs"
  by (auto simp: varint_field_def Let_def split: prod.splits option.splits dest: varint_shrinks)

lemma enum_field_shrinks [shrinks_intros]:
  "enum_field rt upd m bs = FieldOk m' bs' \<Longrightarrow> length bs' \<le> length bs"
  by (auto simp: enum_field_def Let_def split: prod.splits option.splits dest: varint_shrinks)

lemma fixed32_field_shrinks [shrinks_intros]:
  "fixed32_field rt upd m bs = FieldOk m' bs' \<Longrightarrow> length bs' \<le> length bs"
  by (auto simp: fixed32_field_def Let_def split: prod.splits option.splits dest: fixed32_shrinks)

lemma fixed64_field_shrinks [shrinks_intros]:
  "fixed64_field rt upd m bs = FieldOk m' bs' \<Longrightarrow> length bs' \<le> length bs"
  by (auto simp: fixed64_field_def Let_def split: prod.splits option.splits dest: fixed64_shrinks)

lemma ParseMessage_shrinks:
  "ParseMessage rt inner sub bs = Some (sub', Some bs') \<Longrightarrow> length bs' \<le> length bs"
  by (auto simp: ParseMessage_def split: prod.splits option.splits parse_result.splits if_splits
      dest: size_shrinks)

lemma message_field_shrinks [shrinks_intros]:
  "message_field rt inner sub put bs = FieldOk m' bs' \<Longrightarrow> length bs' \<le> length bs"
  by (auto simp: message_field_def split: prod.splits option.splits dest: ParseMessage_shrinks)

text \<open>The loop ends before its fuel does, and more fuel changes nothing.\<close>

lemma parse_loop_total:
  assumes "shrinks field"
  shows "length bs < f \<Longrightarrow> parse_loop rt field unk upd f m bs \<noteq> OutOfFuel"
proof (induction f arbitrary: m bs)
  case 0
  then show ?case by simp
next
  case (Suc f)
  have next_turn: "parse_loop rt field unk upd f m' bs2 \<noteq> OutOfFuel"
    if "rt_ReadTag rt bs = Some (tag, bs1)" and "length bs2 \<le> length bs1" for tag bs1 m' bs2
    using tag_shrinks [OF that(1)] that(2) Suc by auto
  show ?case
  proof (cases "rt_ReadTag rt bs")
    case None
    then show ?thesis by simp
  next
    case (Some p)
    obtain tag bs1 where p: "p = (tag, bs1)" by (cases p)
    obtain u q where u: "rt_UnknownFieldParse rt tag (unk m) bs1 = (u, q)" by fastforce
    have "length bs2 \<le> length bs1" if "field tag m bs1 = FieldOk m' bs2" for m' bs2
      using assms that by (auto simp: shrinks_def)
    moreover have "field tag' m bs1 \<noteq> FieldOutOfFuel" for tag'
      using assms by (simp add: shrinks_def)
    moreover have "length bs2 \<le> length bs1" if "q = Some bs2" for bs2
      using u that unknown_shrinks by simp
    ultimately show ?thesis
      using next_turn [of tag bs1] Some p u by (simp split: field_result.split option.split)
  qed
qed

lemma parse_loop_mono:
  "parse_loop rt field unk upd f m bs \<noteq> OutOfFuel \<Longrightarrow> f \<le> g \<Longrightarrow>
    parse_loop rt field unk upd g m bs = parse_loop rt field unk upd f m bs"
proof (induction f arbitrary: g m bs)
  case 0
  then show ?case by simp
next
  case (Suc f)
  then obtain g' where g: "g = Suc g'" and le: "f \<le> g'" by (cases g) auto
  note IH = Suc.IH [OF _ le]
  show ?case
  proof (cases "rt_ReadTag rt bs")
    case (Some p)
    obtain tag bs1 where p: "p = (tag, bs1)" by (cases p)
    obtain u q where u: "rt_UnknownFieldParse rt tag (unk m) bs1 = (u, q)" by fastforce
    show ?thesis
      using Suc.prems(1) IH Some p u by (cases "field tag m bs1"; cases q) (auto simp: g split: if_splits)
  qed (use g in simp)
qed

lemma parse_message_total:
  "shrinks field \<Longrightarrow> parse_message rt field unk upd m bs \<noteq> OutOfFuel"
  by (simp add: parse_message_def parse_loop_total del: parse_loop.simps)

lemma parse_loop_message:
  "shrinks field \<Longrightarrow> length bs < f \<Longrightarrow>
    parse_loop rt field unk upd f m bs = parse_message rt field unk upd m bs"
  unfolding parse_message_def
  by (rule parse_loop_mono) (simp_all add: parse_loop_total del: parse_loop.simps)

lemma parse_message_Nil [wire_simps]: "parse_message rt field unk upd m [] = Ended m None"
  by (simp add: parse_message_def)

text \<open>One turn of the loop, when the field was understood.\<close>

lemma parse_message_step:
  assumes "shrinks field" and "rt_ReadTag rt bs = Some (tag, bs1)"
    and "field tag m bs1 = FieldOk m' r"
  shows "parse_message rt field unk upd m bs = parse_message rt field unk upd m' r"
proof -
  have "length bs1 < length bs" using assms(2) by (rule tag_shrinks)
  moreover have "length r \<le> length bs1" using assms(1,3) by (auto simp: shrinks_def)
  ultimately have "length r < length bs" and "bs \<noteq> []" by auto
  then show ?thesis
    using assms by (simp add: parse_message_def [of _ _ _ _ _ bs] parse_loop_message)
qed

text \<open>The payload a field reader sees after the key of a writer.\<close>

lemma parse_message_string [wire_simps]:
  assumes "shrinks field" and "0 < n" and "n < 16"
    and "length s < pb_size_limit" and "rt_VerifyUTF8 rt s"
    and "\<And>bs. field (word_of_nat (8 * n + 2)) m bs = string_field rt get fupd m bs"
  shows "parse_message rt field unk upd m (rt_WriteString rt n s @ r) =
    parse_message rt field unk upd (fupd (\<lambda>_. s) m) r"
proof -
  obtain bs where "rt_ReadTag rt (rt_WriteString rt n s @ r) = Some (word_of_nat (8 * n + 2), bs)"
    and "rt_ParseString rt (get m) bs = (s, Some r)"
    using read_string [OF assms(2,3,4)] by blast
  then show ?thesis
    using assms by (intro parse_message_step) (auto simp: string_field_def)
qed

lemma parse_message_int32 [wire_simps]:
  assumes "shrinks field" and "0 < n" and "n < 16"
    and "\<And>bs. field (word_of_nat (8 * n)) m bs = varint_field rt fupd m bs"
  shows "parse_message rt field unk upd m (rt_WriteInt32 rt n i @ r) =
    parse_message rt field unk upd (fupd (\<lambda>_. i) m) r"
proof -
  obtain bs where "rt_ReadTag rt (rt_WriteInt32 rt n i @ r) = Some (word_of_nat (8 * n), bs)"
    and "rt_ReadVarint64 rt bs = (scast i, Some r)"
    using read_int32 [OF assms(2,3)] by blast
  then show ?thesis
    using assms by (intro parse_message_step) (auto simp: varint_field_def int32_round)
qed

lemma parse_message_enum [wire_simps]:
  assumes "shrinks field" and "0 < n" and "n < 16"
    and "\<And>bs. field (word_of_nat (8 * n)) m bs = enum_field rt fupd m bs"
  shows "parse_message rt field unk upd m (rt_WriteEnum rt n i @ r) =
    parse_message rt field unk upd (fupd (\<lambda>_. i) m) r"
proof -
  obtain bs where "rt_ReadTag rt (rt_WriteEnum rt n i @ r) = Some (word_of_nat (8 * n), bs)"
    and "rt_ReadVarint64 rt bs = (scast i, Some r)"
    using read_enum [OF assms(2,3)] by blast
  then show ?thesis
    using assms by (intro parse_message_step) (auto simp: enum_field_def int32_round)
qed

lemma parse_message_fixed32 [wire_simps]:
  assumes "shrinks field" and "0 < n" and "n < 16"
    and "\<And>bs. field (word_of_nat (8 * n + 5)) m bs = fixed32_field rt fupd m bs"
  shows "parse_message rt field unk upd m (rt_WriteFixed32 rt n v @ r) =
    parse_message rt field unk upd (fupd (\<lambda>_. v) m) r"
proof -
  obtain bs where "rt_ReadTag rt (rt_WriteFixed32 rt n v @ r) = Some (word_of_nat (8 * n + 5), bs)"
    and "rt_LoadFixed32 rt bs = (v, Some r)"
    using read_fixed32 [OF assms(2,3)] by blast
  then show ?thesis
    using assms by (intro parse_message_step) (auto simp: fixed32_field_def)
qed

lemma parse_message_fixed64 [wire_simps]:
  assumes "shrinks field" and "0 < n" and "n < 16"
    and "\<And>bs. field (word_of_nat (8 * n + 1)) m bs = fixed64_field rt fupd m bs"
  shows "parse_message rt field unk upd m (rt_WriteFixed64 rt n v @ r) =
    parse_message rt field unk upd (fupd (\<lambda>_. v) m) r"
proof -
  obtain bs where "rt_ReadTag rt (rt_WriteFixed64 rt n v @ r) = Some (word_of_nat (8 * n + 1), bs)"
    and "rt_LoadFixed64 rt bs = (v, Some r)"
    using read_fixed64 [OF assms(2,3)] by blast
  then show ?thesis
    using assms by (intro parse_message_step) (auto simp: fixed64_field_def)
qed

text \<open>An embedded message that its own parser reads back to the end.\<close>

lemma parse_message_sub [wire_simps]:
  assumes "shrinks field" and "0 < n" and "n < 16" and "length p < pb_size_limit"
    and "\<And>bs. field (word_of_nat (8 * n + 2)) m bs = message_field rt inner sub put bs"
    and "inner sub p = Ended sub' None"
  shows "parse_message rt field unk upd m (rt_WriteMessage rt n p @ r) =
    parse_message rt field unk upd (put sub') r"
proof -
  obtain bs where "rt_ReadTag rt (rt_WriteMessage rt n p @ r) = Some (word_of_nat (8 * n + 2), bs)"
    and "rt_ReadSize rt bs = Some (length p, p @ r)"
    using read_message [OF assms(2,3,4)] by blast
  then show ?thesis
    using assms by (intro parse_message_step) (auto simp: message_field_def ParseMessage_def)
qed

text \<open>A zero byte where a key is expected is the key 0: the parser stops there without having
  reached the limit.\<close>

lemma parse_message_zero:
  assumes "field 0 m bs = Unusual"
  shows "parse_message rt field unk upd m (0 # bs) = Ended m (Some 0)"
  using assms by (simp add: parse_message_def zero_tag)

end

end
