(* ===== verification/RequestPb.thy ===== *)
theory RequestPb
  imports PbRuntime
begin

text \<open>
  The messages of \<open>request.proto\<close> as \<open>proto/build/request.pb.cc\<close> and \<open>request.pb.h\<close> implement them:
  data members, accessors, parser, serializer, size, merge, copy and swap. The unknown fields of a
  message are the bytes the runtime keeps for it. \<open>VerifyUtf8String\<close> in a serializer only logs.
  For each message the lemmas show that serialising and parsing are inverse, that \<open>ByteSizeLong\<close>
  is the number of bytes written, and that the parser ends.
\<close>

section \<open>RegRequest\<close>

record RegRequest =
  reg_login :: string
  reg_password :: string
  reg_unknown :: bytes

definition RegRequest_SharedCtor :: RegRequest where
  "RegRequest_SharedCtor = \<lparr>reg_login = [], reg_password = [], reg_unknown = []\<rparr>"

definition RegRequest_copy :: "RegRequest \<Rightarrow> RegRequest" where
  "RegRequest_copy from =
     RegRequest_SharedCtor\<lparr>reg_unknown := reg_unknown from,
       reg_login := (if reg_login from \<noteq> [] then reg_login from else []),
       reg_password := (if reg_password from \<noteq> [] then reg_password from else [])\<rparr>"

definition RegRequest_set_login :: "string \<Rightarrow> RegRequest \<Rightarrow> RegRequest" where
  "RegRequest_set_login v m = m\<lparr>reg_login := v\<rparr>"

definition RegRequest_clear_login :: "RegRequest \<Rightarrow> RegRequest" where
  "RegRequest_clear_login m = m\<lparr>reg_login := []\<rparr>"

definition RegRequest_set_password :: "string \<Rightarrow> RegRequest \<Rightarrow> RegRequest" where
  "RegRequest_set_password v m = m\<lparr>reg_password := v\<rparr>"

definition RegRequest_clear_password :: "RegRequest \<Rightarrow> RegRequest" where
  "RegRequest_clear_password m = m\<lparr>reg_password := []\<rparr>"

definition RegRequest_Clear :: "RegRequest \<Rightarrow> RegRequest" where
  "RegRequest_Clear m = m\<lparr>reg_login := [], reg_password := [], reg_unknown := []\<rparr>"

definition RegRequest_field :: "pb_rt \<Rightarrow> uint32 \<Rightarrow> RegRequest \<Rightarrow> bytes \<Rightarrow> RegRequest field_result" where
  "RegRequest_field rt tag m bs =
     (if drop_bit 3 tag = 1 \<and> (ucast tag :: byte) = 10 then string_field rt reg_login reg_login_update m bs
      else if drop_bit 3 tag = 2 \<and> (ucast tag :: byte) = 18 then string_field rt reg_password reg_password_update m bs
      else Unusual)"

definition RegRequest_InternalParse :: "pb_rt \<Rightarrow> RegRequest \<Rightarrow> bytes \<Rightarrow> RegRequest parse_result" where
  "RegRequest_InternalParse rt m bs = parse_message rt (RegRequest_field rt) reg_unknown reg_unknown_update m bs"

definition RegRequest_InternalSerialize :: "pb_rt \<Rightarrow> RegRequest \<Rightarrow> bytes" where
  "RegRequest_InternalSerialize rt m =
     (if reg_login m \<noteq> [] then rt_WriteString rt 1 (reg_login m) else []) @
     (if reg_password m \<noteq> [] then rt_WriteString rt 2 (reg_password m) else []) @
     reg_unknown m"

definition RegRequest_ByteSizeLong :: "pb_rt \<Rightarrow> RegRequest \<Rightarrow> nat" where
  "RegRequest_ByteSizeLong rt m =
     (if reg_login m \<noteq> [] then 1 + rt_StringSize rt (reg_login m) else 0) +
     (if reg_password m \<noteq> [] then 1 + rt_StringSize rt (reg_password m) else 0) +
     length (reg_unknown m)"

definition RegRequest_MergeFrom :: "RegRequest \<Rightarrow> RegRequest \<Rightarrow> RegRequest" where
  "RegRequest_MergeFrom from m = m\<lparr>reg_unknown := reg_unknown m @ reg_unknown from,
     reg_login := (if reg_login from \<noteq> [] then reg_login from else reg_login m),
     reg_password := (if reg_password from \<noteq> [] then reg_password from else reg_password m)\<rparr>"

definition RegRequest_CopyFrom :: "RegRequest \<Rightarrow> RegRequest \<Rightarrow> RegRequest" where
  "RegRequest_CopyFrom from m = RegRequest_MergeFrom from (RegRequest_Clear m)"

definition RegRequest_InternalSwap :: "RegRequest \<Rightarrow> RegRequest \<Rightarrow> RegRequest \<times> RegRequest" where
  "RegRequest_InternalSwap a b =
     (a\<lparr>reg_login := reg_login b, reg_password := reg_password b, reg_unknown := reg_unknown b\<rparr>,
      b\<lparr>reg_login := reg_login a, reg_password := reg_password a, reg_unknown := reg_unknown a\<rparr>)"

text \<open>What the wire can carry: UTF-8 strings of bounded length and no unknown fields.\<close>

definition RegRequest_wf :: "pb_rt \<Rightarrow> RegRequest \<Rightarrow> bool" where
  "RegRequest_wf rt m \<longleftrightarrow> str_ok rt (reg_login m) \<and> str_ok rt (reg_password m) \<and> reg_unknown m = []"

lemma RegRequest_copy_id [simp]: "RegRequest_copy m = m"
  by (cases m) (simp add: RegRequest_copy_def RegRequest_SharedCtor_def)

lemma RegRequest_Clear_init [simp]: "RegRequest_Clear m = RegRequest_SharedCtor"
  by (cases m) (simp add: RegRequest_Clear_def RegRequest_SharedCtor_def)

lemma RegRequest_merge_init [simp]: "RegRequest_MergeFrom m RegRequest_SharedCtor = m"
  by (cases m) (simp add: RegRequest_MergeFrom_def RegRequest_SharedCtor_def)

lemma RegRequest_CopyFrom_eq [simp]: "RegRequest_CopyFrom from m = from"
  by (simp add: RegRequest_CopyFrom_def)

lemma RegRequest_InternalSwap_eq [simp]: "RegRequest_InternalSwap a b = (b, a)"
  by (cases a; cases b) (simp add: RegRequest_InternalSwap_def)

context pb_runtime
begin

lemma RegRequest_shrinks [wire_simps]: "shrinks (RegRequest_field rt)"
  by (auto simp: shrinks_def RegRequest_field_def split: if_splits dest: shrinks_intros)

lemma RegRequest_parse_Nil [wire_simps]: "RegRequest_InternalParse rt m [] = Ended m None"
  by (simp add: RegRequest_InternalParse_def parse_message_Nil)

lemma RegRequest_parse_login [wire_simps]:
  "str_ok rt v \<Longrightarrow> RegRequest_InternalParse rt m (rt_WriteString rt 1 v @ r) = RegRequest_InternalParse rt (m\<lparr>reg_login := v\<rparr>) r"
  unfolding RegRequest_InternalParse_def
  by (rule parse_message_string [OF RegRequest_shrinks]) (simp_all add: RegRequest_field_def str_ok_def pb_size_limit_def)

lemma RegRequest_parse_last_login [wire_simps]:
  "str_ok rt v \<Longrightarrow> RegRequest_InternalParse rt m (rt_WriteString rt 1 v) = Ended (m\<lparr>reg_login := v\<rparr>) None"
  using RegRequest_parse_login [where v = v and m = m and r = "[]"] by (simp add: RegRequest_parse_Nil)

lemma RegRequest_parse_password [wire_simps]:
  "str_ok rt v \<Longrightarrow> RegRequest_InternalParse rt m (rt_WriteString rt 2 v @ r) = RegRequest_InternalParse rt (m\<lparr>reg_password := v\<rparr>) r"
  unfolding RegRequest_InternalParse_def
  by (rule parse_message_string [OF RegRequest_shrinks]) (simp_all add: RegRequest_field_def str_ok_def pb_size_limit_def)

lemma RegRequest_parse_last_password [wire_simps]:
  "str_ok rt v \<Longrightarrow> RegRequest_InternalParse rt m (rt_WriteString rt 2 v) = Ended (m\<lparr>reg_password := v\<rparr>) None"
  using RegRequest_parse_password [where v = v and m = m and r = "[]"] by (simp add: RegRequest_parse_Nil)

lemma RegRequest_total: "RegRequest_InternalParse rt m bs \<noteq> OutOfFuel"
  by (simp add: RegRequest_InternalParse_def RegRequest_shrinks parse_message_total)

lemma RegRequest_roundtrip [wire_simps]:
  "RegRequest_wf rt m \<Longrightarrow> RegRequest_InternalParse rt RegRequest_SharedCtor (RegRequest_InternalSerialize rt m) = Ended m None"
  by (cases m) (simp add: RegRequest_wf_def RegRequest_InternalSerialize_def RegRequest_SharedCtor_def wire_simps del: One_nat_def)

lemma RegRequest_size [wire_simps]:
  "RegRequest_wf rt m \<Longrightarrow> length (RegRequest_InternalSerialize rt m) = RegRequest_ByteSizeLong rt m"
  by (simp add: RegRequest_wf_def str_ok_def pb_size_limit_def RegRequest_InternalSerialize_def RegRequest_ByteSizeLong_def
      size_fixed32 size_fixed64 size_int32 size_enum size_string)

lemma RegRequest_small [wire_simps]: "RegRequest_wf rt m \<Longrightarrow> RegRequest_ByteSizeLong rt m < 1073741900"
  using string_bound [of "reg_login m"] string_bound [of "reg_password m"]
  by (simp add: RegRequest_wf_def str_ok_def pb_size_limit_def RegRequest_ByteSizeLong_def)

end

section \<open>InRequest\<close>

record InRequest =
  inp_login :: string
  inp_password :: string
  inp_unknown :: bytes

definition InRequest_SharedCtor :: InRequest where
  "InRequest_SharedCtor = \<lparr>inp_login = [], inp_password = [], inp_unknown = []\<rparr>"

definition InRequest_copy :: "InRequest \<Rightarrow> InRequest" where
  "InRequest_copy from =
     InRequest_SharedCtor\<lparr>inp_unknown := inp_unknown from,
       inp_login := (if inp_login from \<noteq> [] then inp_login from else []),
       inp_password := (if inp_password from \<noteq> [] then inp_password from else [])\<rparr>"

definition InRequest_set_login :: "string \<Rightarrow> InRequest \<Rightarrow> InRequest" where
  "InRequest_set_login v m = m\<lparr>inp_login := v\<rparr>"

definition InRequest_clear_login :: "InRequest \<Rightarrow> InRequest" where
  "InRequest_clear_login m = m\<lparr>inp_login := []\<rparr>"

definition InRequest_set_password :: "string \<Rightarrow> InRequest \<Rightarrow> InRequest" where
  "InRequest_set_password v m = m\<lparr>inp_password := v\<rparr>"

definition InRequest_clear_password :: "InRequest \<Rightarrow> InRequest" where
  "InRequest_clear_password m = m\<lparr>inp_password := []\<rparr>"

definition InRequest_Clear :: "InRequest \<Rightarrow> InRequest" where
  "InRequest_Clear m = m\<lparr>inp_login := [], inp_password := [], inp_unknown := []\<rparr>"

definition InRequest_field :: "pb_rt \<Rightarrow> uint32 \<Rightarrow> InRequest \<Rightarrow> bytes \<Rightarrow> InRequest field_result" where
  "InRequest_field rt tag m bs =
     (if drop_bit 3 tag = 1 \<and> (ucast tag :: byte) = 10 then string_field rt inp_login inp_login_update m bs
      else if drop_bit 3 tag = 2 \<and> (ucast tag :: byte) = 18 then string_field rt inp_password inp_password_update m bs
      else Unusual)"

definition InRequest_InternalParse :: "pb_rt \<Rightarrow> InRequest \<Rightarrow> bytes \<Rightarrow> InRequest parse_result" where
  "InRequest_InternalParse rt m bs = parse_message rt (InRequest_field rt) inp_unknown inp_unknown_update m bs"

definition InRequest_InternalSerialize :: "pb_rt \<Rightarrow> InRequest \<Rightarrow> bytes" where
  "InRequest_InternalSerialize rt m =
     (if inp_login m \<noteq> [] then rt_WriteString rt 1 (inp_login m) else []) @
     (if inp_password m \<noteq> [] then rt_WriteString rt 2 (inp_password m) else []) @
     inp_unknown m"

definition InRequest_ByteSizeLong :: "pb_rt \<Rightarrow> InRequest \<Rightarrow> nat" where
  "InRequest_ByteSizeLong rt m =
     (if inp_login m \<noteq> [] then 1 + rt_StringSize rt (inp_login m) else 0) +
     (if inp_password m \<noteq> [] then 1 + rt_StringSize rt (inp_password m) else 0) +
     length (inp_unknown m)"

definition InRequest_MergeFrom :: "InRequest \<Rightarrow> InRequest \<Rightarrow> InRequest" where
  "InRequest_MergeFrom from m = m\<lparr>inp_unknown := inp_unknown m @ inp_unknown from,
     inp_login := (if inp_login from \<noteq> [] then inp_login from else inp_login m),
     inp_password := (if inp_password from \<noteq> [] then inp_password from else inp_password m)\<rparr>"

definition InRequest_CopyFrom :: "InRequest \<Rightarrow> InRequest \<Rightarrow> InRequest" where
  "InRequest_CopyFrom from m = InRequest_MergeFrom from (InRequest_Clear m)"

definition InRequest_InternalSwap :: "InRequest \<Rightarrow> InRequest \<Rightarrow> InRequest \<times> InRequest" where
  "InRequest_InternalSwap a b =
     (a\<lparr>inp_login := inp_login b, inp_password := inp_password b, inp_unknown := inp_unknown b\<rparr>,
      b\<lparr>inp_login := inp_login a, inp_password := inp_password a, inp_unknown := inp_unknown a\<rparr>)"

text \<open>What the wire can carry: UTF-8 strings of bounded length and no unknown fields.\<close>

definition InRequest_wf :: "pb_rt \<Rightarrow> InRequest \<Rightarrow> bool" where
  "InRequest_wf rt m \<longleftrightarrow> str_ok rt (inp_login m) \<and> str_ok rt (inp_password m) \<and> inp_unknown m = []"

lemma InRequest_copy_id [simp]: "InRequest_copy m = m"
  by (cases m) (simp add: InRequest_copy_def InRequest_SharedCtor_def)

lemma InRequest_Clear_init [simp]: "InRequest_Clear m = InRequest_SharedCtor"
  by (cases m) (simp add: InRequest_Clear_def InRequest_SharedCtor_def)

lemma InRequest_merge_init [simp]: "InRequest_MergeFrom m InRequest_SharedCtor = m"
  by (cases m) (simp add: InRequest_MergeFrom_def InRequest_SharedCtor_def)

lemma InRequest_CopyFrom_eq [simp]: "InRequest_CopyFrom from m = from"
  by (simp add: InRequest_CopyFrom_def)

lemma InRequest_InternalSwap_eq [simp]: "InRequest_InternalSwap a b = (b, a)"
  by (cases a; cases b) (simp add: InRequest_InternalSwap_def)

context pb_runtime
begin

lemma InRequest_shrinks [wire_simps]: "shrinks (InRequest_field rt)"
  by (auto simp: shrinks_def InRequest_field_def split: if_splits dest: shrinks_intros)

lemma InRequest_parse_Nil [wire_simps]: "InRequest_InternalParse rt m [] = Ended m None"
  by (simp add: InRequest_InternalParse_def parse_message_Nil)

lemma InRequest_parse_login [wire_simps]:
  "str_ok rt v \<Longrightarrow> InRequest_InternalParse rt m (rt_WriteString rt 1 v @ r) = InRequest_InternalParse rt (m\<lparr>inp_login := v\<rparr>) r"
  unfolding InRequest_InternalParse_def
  by (rule parse_message_string [OF InRequest_shrinks]) (simp_all add: InRequest_field_def str_ok_def pb_size_limit_def)

lemma InRequest_parse_last_login [wire_simps]:
  "str_ok rt v \<Longrightarrow> InRequest_InternalParse rt m (rt_WriteString rt 1 v) = Ended (m\<lparr>inp_login := v\<rparr>) None"
  using InRequest_parse_login [where v = v and m = m and r = "[]"] by (simp add: InRequest_parse_Nil)

lemma InRequest_parse_password [wire_simps]:
  "str_ok rt v \<Longrightarrow> InRequest_InternalParse rt m (rt_WriteString rt 2 v @ r) = InRequest_InternalParse rt (m\<lparr>inp_password := v\<rparr>) r"
  unfolding InRequest_InternalParse_def
  by (rule parse_message_string [OF InRequest_shrinks]) (simp_all add: InRequest_field_def str_ok_def pb_size_limit_def)

lemma InRequest_parse_last_password [wire_simps]:
  "str_ok rt v \<Longrightarrow> InRequest_InternalParse rt m (rt_WriteString rt 2 v) = Ended (m\<lparr>inp_password := v\<rparr>) None"
  using InRequest_parse_password [where v = v and m = m and r = "[]"] by (simp add: InRequest_parse_Nil)

lemma InRequest_total: "InRequest_InternalParse rt m bs \<noteq> OutOfFuel"
  by (simp add: InRequest_InternalParse_def InRequest_shrinks parse_message_total)

lemma InRequest_roundtrip [wire_simps]:
  "InRequest_wf rt m \<Longrightarrow> InRequest_InternalParse rt InRequest_SharedCtor (InRequest_InternalSerialize rt m) = Ended m None"
  by (cases m) (simp add: InRequest_wf_def InRequest_InternalSerialize_def InRequest_SharedCtor_def wire_simps del: One_nat_def)

lemma InRequest_size [wire_simps]:
  "InRequest_wf rt m \<Longrightarrow> length (InRequest_InternalSerialize rt m) = InRequest_ByteSizeLong rt m"
  by (simp add: InRequest_wf_def str_ok_def pb_size_limit_def InRequest_InternalSerialize_def InRequest_ByteSizeLong_def
      size_fixed32 size_fixed64 size_int32 size_enum size_string)

lemma InRequest_small [wire_simps]: "InRequest_wf rt m \<Longrightarrow> InRequest_ByteSizeLong rt m < 1073741900"
  using string_bound [of "inp_login m"] string_bound [of "inp_password m"]
  by (simp add: InRequest_wf_def str_ok_def pb_size_limit_def InRequest_ByteSizeLong_def)

end

section \<open>JoinRoomRequest\<close>

record JoinRoomRequest =
  jrq_room_id :: int32
  jrq_unknown :: bytes

definition JoinRoomRequest_SharedCtor :: JoinRoomRequest where
  "JoinRoomRequest_SharedCtor = \<lparr>jrq_room_id = 0, jrq_unknown = []\<rparr>"

definition JoinRoomRequest_copy :: "JoinRoomRequest \<Rightarrow> JoinRoomRequest" where
  "JoinRoomRequest_copy from =
     JoinRoomRequest_SharedCtor\<lparr>jrq_unknown := jrq_unknown from,
       jrq_room_id := jrq_room_id from\<rparr>"

definition JoinRoomRequest_set_room_id :: "int32 \<Rightarrow> JoinRoomRequest \<Rightarrow> JoinRoomRequest" where
  "JoinRoomRequest_set_room_id v m = m\<lparr>jrq_room_id := v\<rparr>"

definition JoinRoomRequest_clear_room_id :: "JoinRoomRequest \<Rightarrow> JoinRoomRequest" where
  "JoinRoomRequest_clear_room_id m = m\<lparr>jrq_room_id := 0\<rparr>"

definition JoinRoomRequest_Clear :: "JoinRoomRequest \<Rightarrow> JoinRoomRequest" where
  "JoinRoomRequest_Clear m = m\<lparr>jrq_room_id := 0, jrq_unknown := []\<rparr>"

definition JoinRoomRequest_field :: "pb_rt \<Rightarrow> uint32 \<Rightarrow> JoinRoomRequest \<Rightarrow> bytes \<Rightarrow> JoinRoomRequest field_result" where
  "JoinRoomRequest_field rt tag m bs =
     (if drop_bit 3 tag = 1 \<and> (ucast tag :: byte) = 8 then varint_field rt jrq_room_id_update m bs
      else Unusual)"

definition JoinRoomRequest_InternalParse :: "pb_rt \<Rightarrow> JoinRoomRequest \<Rightarrow> bytes \<Rightarrow> JoinRoomRequest parse_result" where
  "JoinRoomRequest_InternalParse rt m bs = parse_message rt (JoinRoomRequest_field rt) jrq_unknown jrq_unknown_update m bs"

definition JoinRoomRequest_InternalSerialize :: "pb_rt \<Rightarrow> JoinRoomRequest \<Rightarrow> bytes" where
  "JoinRoomRequest_InternalSerialize rt m =
     (if jrq_room_id m \<noteq> 0 then rt_WriteInt32 rt 1 (jrq_room_id m) else []) @
     jrq_unknown m"

definition JoinRoomRequest_ByteSizeLong :: "pb_rt \<Rightarrow> JoinRoomRequest \<Rightarrow> nat" where
  "JoinRoomRequest_ByteSizeLong rt m =
     (if jrq_room_id m \<noteq> 0 then 1 + rt_Int32Size rt (jrq_room_id m) else 0) +
     length (jrq_unknown m)"

definition JoinRoomRequest_MergeFrom :: "JoinRoomRequest \<Rightarrow> JoinRoomRequest \<Rightarrow> JoinRoomRequest" where
  "JoinRoomRequest_MergeFrom from m = m\<lparr>jrq_unknown := jrq_unknown m @ jrq_unknown from,
     jrq_room_id := (if jrq_room_id from \<noteq> 0 then jrq_room_id from else jrq_room_id m)\<rparr>"

definition JoinRoomRequest_CopyFrom :: "JoinRoomRequest \<Rightarrow> JoinRoomRequest \<Rightarrow> JoinRoomRequest" where
  "JoinRoomRequest_CopyFrom from m = JoinRoomRequest_MergeFrom from (JoinRoomRequest_Clear m)"

definition JoinRoomRequest_InternalSwap :: "JoinRoomRequest \<Rightarrow> JoinRoomRequest \<Rightarrow> JoinRoomRequest \<times> JoinRoomRequest" where
  "JoinRoomRequest_InternalSwap a b =
     (a\<lparr>jrq_room_id := jrq_room_id b, jrq_unknown := jrq_unknown b\<rparr>,
      b\<lparr>jrq_room_id := jrq_room_id a, jrq_unknown := jrq_unknown a\<rparr>)"

text \<open>What the wire can carry: UTF-8 strings of bounded length and no unknown fields.\<close>

definition JoinRoomRequest_wf :: "pb_rt \<Rightarrow> JoinRoomRequest \<Rightarrow> bool" where
  "JoinRoomRequest_wf rt m \<longleftrightarrow> jrq_unknown m = []"

lemma JoinRoomRequest_copy_id [simp]: "JoinRoomRequest_copy m = m"
  by (cases m) (simp add: JoinRoomRequest_copy_def JoinRoomRequest_SharedCtor_def)

lemma JoinRoomRequest_Clear_init [simp]: "JoinRoomRequest_Clear m = JoinRoomRequest_SharedCtor"
  by (cases m) (simp add: JoinRoomRequest_Clear_def JoinRoomRequest_SharedCtor_def)

lemma JoinRoomRequest_merge_init [simp]: "JoinRoomRequest_MergeFrom m JoinRoomRequest_SharedCtor = m"
  by (cases m) (simp add: JoinRoomRequest_MergeFrom_def JoinRoomRequest_SharedCtor_def)

lemma JoinRoomRequest_CopyFrom_eq [simp]: "JoinRoomRequest_CopyFrom from m = from"
  by (simp add: JoinRoomRequest_CopyFrom_def)

lemma JoinRoomRequest_InternalSwap_eq [simp]: "JoinRoomRequest_InternalSwap a b = (b, a)"
  by (cases a; cases b) (simp add: JoinRoomRequest_InternalSwap_def)

context pb_runtime
begin

lemma JoinRoomRequest_shrinks [wire_simps]: "shrinks (JoinRoomRequest_field rt)"
  by (auto simp: shrinks_def JoinRoomRequest_field_def split: if_splits dest: shrinks_intros)

lemma JoinRoomRequest_parse_Nil [wire_simps]: "JoinRoomRequest_InternalParse rt m [] = Ended m None"
  by (simp add: JoinRoomRequest_InternalParse_def parse_message_Nil)

lemma JoinRoomRequest_parse_room_id [wire_simps]:
  "JoinRoomRequest_InternalParse rt m (rt_WriteInt32 rt 1 v @ r) = JoinRoomRequest_InternalParse rt (m\<lparr>jrq_room_id := v\<rparr>) r"
  unfolding JoinRoomRequest_InternalParse_def
  by (rule parse_message_int32 [OF JoinRoomRequest_shrinks]) (simp_all add: JoinRoomRequest_field_def str_ok_def pb_size_limit_def)

lemma JoinRoomRequest_parse_last_room_id [wire_simps]:
  "JoinRoomRequest_InternalParse rt m (rt_WriteInt32 rt 1 v) = Ended (m\<lparr>jrq_room_id := v\<rparr>) None"
  using JoinRoomRequest_parse_room_id [where v = v and m = m and r = "[]"] by (simp add: JoinRoomRequest_parse_Nil)

lemma JoinRoomRequest_total: "JoinRoomRequest_InternalParse rt m bs \<noteq> OutOfFuel"
  by (simp add: JoinRoomRequest_InternalParse_def JoinRoomRequest_shrinks parse_message_total)

lemma JoinRoomRequest_roundtrip [wire_simps]:
  "JoinRoomRequest_wf rt m \<Longrightarrow> JoinRoomRequest_InternalParse rt JoinRoomRequest_SharedCtor (JoinRoomRequest_InternalSerialize rt m) = Ended m None"
  by (cases m) (simp add: JoinRoomRequest_wf_def JoinRoomRequest_InternalSerialize_def JoinRoomRequest_SharedCtor_def wire_simps del: One_nat_def)

lemma JoinRoomRequest_size [wire_simps]:
  "JoinRoomRequest_wf rt m \<Longrightarrow> length (JoinRoomRequest_InternalSerialize rt m) = JoinRoomRequest_ByteSizeLong rt m"
  by (simp add: JoinRoomRequest_wf_def str_ok_def pb_size_limit_def JoinRoomRequest_InternalSerialize_def JoinRoomRequest_ByteSizeLong_def
      size_fixed32 size_fixed64 size_int32 size_enum size_string)

lemma JoinRoomRequest_small [wire_simps]: "JoinRoomRequest_wf rt m \<Longrightarrow> JoinRoomRequest_ByteSizeLong rt m < 1073741900"
  using varint_bound(1) [of "jrq_room_id m"]
  by (simp add: JoinRoomRequest_wf_def str_ok_def pb_size_limit_def JoinRoomRequest_ByteSizeLong_def)

end

section \<open>TextRequest\<close>

record TextRequest =
  txt_login :: string
  txt_room_id :: int32
  txt_text :: string
  txt_unknown :: bytes

definition TextRequest_SharedCtor :: TextRequest where
  "TextRequest_SharedCtor = \<lparr>txt_login = [], txt_room_id = 0, txt_text = [], txt_unknown = []\<rparr>"

definition TextRequest_copy :: "TextRequest \<Rightarrow> TextRequest" where
  "TextRequest_copy from =
     TextRequest_SharedCtor\<lparr>txt_unknown := txt_unknown from,
       txt_login := (if txt_login from \<noteq> [] then txt_login from else []),
       txt_room_id := txt_room_id from,
       txt_text := (if txt_text from \<noteq> [] then txt_text from else [])\<rparr>"

definition TextRequest_set_login :: "string \<Rightarrow> TextRequest \<Rightarrow> TextRequest" where
  "TextRequest_set_login v m = m\<lparr>txt_login := v\<rparr>"

definition TextRequest_clear_login :: "TextRequest \<Rightarrow> TextRequest" where
  "TextRequest_clear_login m = m\<lparr>txt_login := []\<rparr>"

definition TextRequest_set_room_id :: "int32 \<Rightarrow> TextRequest \<Rightarrow> TextRequest" where
  "TextRequest_set_room_id v m = m\<lparr>txt_room_id := v\<rparr>"

definition TextRequest_clear_room_id :: "TextRequest \<Rightarrow> TextRequest" where
  "TextRequest_clear_room_id m = m\<lparr>txt_room_id := 0\<rparr>"

definition TextRequest_set_text :: "string \<Rightarrow> TextRequest \<Rightarrow> TextRequest" where
  "TextRequest_set_text v m = m\<lparr>txt_text := v\<rparr>"

definition TextRequest_clear_text :: "TextRequest \<Rightarrow> TextRequest" where
  "TextRequest_clear_text m = m\<lparr>txt_text := []\<rparr>"

definition TextRequest_Clear :: "TextRequest \<Rightarrow> TextRequest" where
  "TextRequest_Clear m = m\<lparr>txt_login := [], txt_room_id := 0, txt_text := [], txt_unknown := []\<rparr>"

definition TextRequest_field :: "pb_rt \<Rightarrow> uint32 \<Rightarrow> TextRequest \<Rightarrow> bytes \<Rightarrow> TextRequest field_result" where
  "TextRequest_field rt tag m bs =
     (if drop_bit 3 tag = 1 \<and> (ucast tag :: byte) = 10 then string_field rt txt_login txt_login_update m bs
      else if drop_bit 3 tag = 2 \<and> (ucast tag :: byte) = 16 then varint_field rt txt_room_id_update m bs
      else if drop_bit 3 tag = 3 \<and> (ucast tag :: byte) = 26 then string_field rt txt_text txt_text_update m bs
      else Unusual)"

definition TextRequest_InternalParse :: "pb_rt \<Rightarrow> TextRequest \<Rightarrow> bytes \<Rightarrow> TextRequest parse_result" where
  "TextRequest_InternalParse rt m bs = parse_message rt (TextRequest_field rt) txt_unknown txt_unknown_update m bs"

definition TextRequest_InternalSerialize :: "pb_rt \<Rightarrow> TextRequest \<Rightarrow> bytes" where
  "TextRequest_InternalSerialize rt m =
     (if txt_login m \<noteq> [] then rt_WriteString rt 1 (txt_login m) else []) @
     (if txt_room_id m \<noteq> 0 then rt_WriteInt32 rt 2 (txt_room_id m) else []) @
     (if txt_text m \<noteq> [] then rt_WriteString rt 3 (txt_text m) else []) @
     txt_unknown m"

definition TextRequest_ByteSizeLong :: "pb_rt \<Rightarrow> TextRequest \<Rightarrow> nat" where
  "TextRequest_ByteSizeLong rt m =
     (if txt_login m \<noteq> [] then 1 + rt_StringSize rt (txt_login m) else 0) +
     (if txt_text m \<noteq> [] then 1 + rt_StringSize rt (txt_text m) else 0) +
     (if txt_room_id m \<noteq> 0 then 1 + rt_Int32Size rt (txt_room_id m) else 0) +
     length (txt_unknown m)"

definition TextRequest_MergeFrom :: "TextRequest \<Rightarrow> TextRequest \<Rightarrow> TextRequest" where
  "TextRequest_MergeFrom from m = m\<lparr>txt_unknown := txt_unknown m @ txt_unknown from,
     txt_login := (if txt_login from \<noteq> [] then txt_login from else txt_login m),
     txt_text := (if txt_text from \<noteq> [] then txt_text from else txt_text m),
     txt_room_id := (if txt_room_id from \<noteq> 0 then txt_room_id from else txt_room_id m)\<rparr>"

definition TextRequest_CopyFrom :: "TextRequest \<Rightarrow> TextRequest \<Rightarrow> TextRequest" where
  "TextRequest_CopyFrom from m = TextRequest_MergeFrom from (TextRequest_Clear m)"

definition TextRequest_InternalSwap :: "TextRequest \<Rightarrow> TextRequest \<Rightarrow> TextRequest \<times> TextRequest" where
  "TextRequest_InternalSwap a b =
     (a\<lparr>txt_login := txt_login b, txt_room_id := txt_room_id b, txt_text := txt_text b, txt_unknown := txt_unknown b\<rparr>,
      b\<lparr>txt_login := txt_login a, txt_room_id := txt_room_id a, txt_text := txt_text a, txt_unknown := txt_unknown a\<rparr>)"

text \<open>What the wire can carry: UTF-8 strings of bounded length and no unknown fields.\<close>

definition TextRequest_wf :: "pb_rt \<Rightarrow> TextRequest \<Rightarrow> bool" where
  "TextRequest_wf rt m \<longleftrightarrow> str_ok rt (txt_login m) \<and> str_ok rt (txt_text m) \<and> txt_unknown m = []"

lemma TextRequest_copy_id [simp]: "TextRequest_copy m = m"
  by (cases m) (simp add: TextRequest_copy_def TextRequest_SharedCtor_def)

lemma TextRequest_Clear_init [simp]: "TextRequest_Clear m = TextRequest_SharedCtor"
  by (cases m) (simp add: TextRequest_Clear_def TextRequest_SharedCtor_def)

lemma TextRequest_merge_init [simp]: "TextRequest_MergeFrom m TextRequest_SharedCtor = m"
  by (cases m) (simp add: TextRequest_MergeFrom_def TextRequest_SharedCtor_def)

lemma TextRequest_CopyFrom_eq [simp]: "TextRequest_CopyFrom from m = from"
  by (simp add: TextRequest_CopyFrom_def)

lemma TextRequest_InternalSwap_eq [simp]: "TextRequest_InternalSwap a b = (b, a)"
  by (cases a; cases b) (simp add: TextRequest_InternalSwap_def)

context pb_runtime
begin

lemma TextRequest_shrinks [wire_simps]: "shrinks (TextRequest_field rt)"
  by (auto simp: shrinks_def TextRequest_field_def split: if_splits dest: shrinks_intros)

lemma TextRequest_parse_Nil [wire_simps]: "TextRequest_InternalParse rt m [] = Ended m None"
  by (simp add: TextRequest_InternalParse_def parse_message_Nil)

lemma TextRequest_parse_login [wire_simps]:
  "str_ok rt v \<Longrightarrow> TextRequest_InternalParse rt m (rt_WriteString rt 1 v @ r) = TextRequest_InternalParse rt (m\<lparr>txt_login := v\<rparr>) r"
  unfolding TextRequest_InternalParse_def
  by (rule parse_message_string [OF TextRequest_shrinks]) (simp_all add: TextRequest_field_def str_ok_def pb_size_limit_def)

lemma TextRequest_parse_last_login [wire_simps]:
  "str_ok rt v \<Longrightarrow> TextRequest_InternalParse rt m (rt_WriteString rt 1 v) = Ended (m\<lparr>txt_login := v\<rparr>) None"
  using TextRequest_parse_login [where v = v and m = m and r = "[]"] by (simp add: TextRequest_parse_Nil)

lemma TextRequest_parse_room_id [wire_simps]:
  "TextRequest_InternalParse rt m (rt_WriteInt32 rt 2 v @ r) = TextRequest_InternalParse rt (m\<lparr>txt_room_id := v\<rparr>) r"
  unfolding TextRequest_InternalParse_def
  by (rule parse_message_int32 [OF TextRequest_shrinks]) (simp_all add: TextRequest_field_def str_ok_def pb_size_limit_def)

lemma TextRequest_parse_last_room_id [wire_simps]:
  "TextRequest_InternalParse rt m (rt_WriteInt32 rt 2 v) = Ended (m\<lparr>txt_room_id := v\<rparr>) None"
  using TextRequest_parse_room_id [where v = v and m = m and r = "[]"] by (simp add: TextRequest_parse_Nil)

lemma TextRequest_parse_text [wire_simps]:
  "str_ok rt v \<Longrightarrow> TextRequest_InternalParse rt m (rt_WriteString rt 3 v @ r) = TextRequest_InternalParse rt (m\<lparr>txt_text := v\<rparr>) r"
  unfolding TextRequest_InternalParse_def
  by (rule parse_message_string [OF TextRequest_shrinks]) (simp_all add: TextRequest_field_def str_ok_def pb_size_limit_def)

lemma TextRequest_parse_last_text [wire_simps]:
  "str_ok rt v \<Longrightarrow> TextRequest_InternalParse rt m (rt_WriteString rt 3 v) = Ended (m\<lparr>txt_text := v\<rparr>) None"
  using TextRequest_parse_text [where v = v and m = m and r = "[]"] by (simp add: TextRequest_parse_Nil)

lemma TextRequest_total: "TextRequest_InternalParse rt m bs \<noteq> OutOfFuel"
  by (simp add: TextRequest_InternalParse_def TextRequest_shrinks parse_message_total)

lemma TextRequest_roundtrip [wire_simps]:
  "TextRequest_wf rt m \<Longrightarrow> TextRequest_InternalParse rt TextRequest_SharedCtor (TextRequest_InternalSerialize rt m) = Ended m None"
  by (cases m) (simp add: TextRequest_wf_def TextRequest_InternalSerialize_def TextRequest_SharedCtor_def wire_simps del: One_nat_def)

lemma TextRequest_size [wire_simps]:
  "TextRequest_wf rt m \<Longrightarrow> length (TextRequest_InternalSerialize rt m) = TextRequest_ByteSizeLong rt m"
  by (simp add: TextRequest_wf_def str_ok_def pb_size_limit_def TextRequest_InternalSerialize_def TextRequest_ByteSizeLong_def
      size_fixed32 size_fixed64 size_int32 size_enum size_string)

lemma TextRequest_small [wire_simps]: "TextRequest_wf rt m \<Longrightarrow> TextRequest_ByteSizeLong rt m < 1073741900"
  using string_bound [of "txt_login m"] string_bound [of "txt_text m"] varint_bound(1) [of "txt_room_id m"]
  by (simp add: TextRequest_wf_def str_ok_def pb_size_limit_def TextRequest_ByteSizeLong_def)

end

section \<open>Request\<close>

text \<open>The slot of the \<open>oneof\<close>: its case tag and the message it owns.\<close>

datatype Request_msg = Request_MSG_NOT_SET
  | kRegisterRequest RegRequest
  | kInputRequest InRequest
  | kJoinRoomRequest JoinRoomRequest
  | kTextRequest TextRequest

record Request =
  req_msg :: Request_msg
  req_unknown :: bytes

definition Request_SharedCtor :: Request where
  "Request_SharedCtor = \<lparr>req_msg = Request_MSG_NOT_SET, req_unknown = []\<rparr>"

definition Request_clear_msg :: "Request \<Rightarrow> Request" where
  "Request_clear_msg m = m\<lparr>req_msg := Request_MSG_NOT_SET\<rparr>"

definition Request_has_register_request :: "Request \<Rightarrow> bool" where
  "Request_has_register_request m = (case req_msg m of kRegisterRequest x \<Rightarrow> True | _ \<Rightarrow> False)"

definition Request_register_request :: "Request \<Rightarrow> RegRequest" where
  "Request_register_request m = (case req_msg m of kRegisterRequest x \<Rightarrow> x | _ \<Rightarrow> RegRequest_SharedCtor)"

definition Request_mutable_register_request :: "Request \<Rightarrow> Request" where
  "Request_mutable_register_request m =
     (if Request_has_register_request m then m else (Request_clear_msg m)\<lparr>req_msg := kRegisterRequest RegRequest_SharedCtor\<rparr>)"

definition Request_set_allocated_register_request :: "RegRequest option \<Rightarrow> Request \<Rightarrow> Request" where
  "Request_set_allocated_register_request ptr m =
     (case ptr of None \<Rightarrow> Request_clear_msg m | Some x \<Rightarrow> (Request_clear_msg m)\<lparr>req_msg := kRegisterRequest x\<rparr>)"

definition Request_release_register_request :: "Request \<Rightarrow> RegRequest option \<times> Request" where
  "Request_release_register_request m =
     (if Request_has_register_request m then (Some (Request_register_request m), m\<lparr>req_msg := Request_MSG_NOT_SET\<rparr>) else (None, m))"

definition Request_clear_register_request :: "Request \<Rightarrow> Request" where
  "Request_clear_register_request m = (if Request_has_register_request m then m\<lparr>req_msg := Request_MSG_NOT_SET\<rparr> else m)"

definition Request_has_input_request :: "Request \<Rightarrow> bool" where
  "Request_has_input_request m = (case req_msg m of kInputRequest x \<Rightarrow> True | _ \<Rightarrow> False)"

definition Request_input_request :: "Request \<Rightarrow> InRequest" where
  "Request_input_request m = (case req_msg m of kInputRequest x \<Rightarrow> x | _ \<Rightarrow> InRequest_SharedCtor)"

definition Request_mutable_input_request :: "Request \<Rightarrow> Request" where
  "Request_mutable_input_request m =
     (if Request_has_input_request m then m else (Request_clear_msg m)\<lparr>req_msg := kInputRequest InRequest_SharedCtor\<rparr>)"

definition Request_set_allocated_input_request :: "InRequest option \<Rightarrow> Request \<Rightarrow> Request" where
  "Request_set_allocated_input_request ptr m =
     (case ptr of None \<Rightarrow> Request_clear_msg m | Some x \<Rightarrow> (Request_clear_msg m)\<lparr>req_msg := kInputRequest x\<rparr>)"

definition Request_release_input_request :: "Request \<Rightarrow> InRequest option \<times> Request" where
  "Request_release_input_request m =
     (if Request_has_input_request m then (Some (Request_input_request m), m\<lparr>req_msg := Request_MSG_NOT_SET\<rparr>) else (None, m))"

definition Request_clear_input_request :: "Request \<Rightarrow> Request" where
  "Request_clear_input_request m = (if Request_has_input_request m then m\<lparr>req_msg := Request_MSG_NOT_SET\<rparr> else m)"

definition Request_has_join_room_request :: "Request \<Rightarrow> bool" where
  "Request_has_join_room_request m = (case req_msg m of kJoinRoomRequest x \<Rightarrow> True | _ \<Rightarrow> False)"

definition Request_join_room_request :: "Request \<Rightarrow> JoinRoomRequest" where
  "Request_join_room_request m = (case req_msg m of kJoinRoomRequest x \<Rightarrow> x | _ \<Rightarrow> JoinRoomRequest_SharedCtor)"

definition Request_mutable_join_room_request :: "Request \<Rightarrow> Request" where
  "Request_mutable_join_room_request m =
     (if Request_has_join_room_request m then m else (Request_clear_msg m)\<lparr>req_msg := kJoinRoomRequest JoinRoomRequest_SharedCtor\<rparr>)"

definition Request_set_allocated_join_room_request :: "JoinRoomRequest option \<Rightarrow> Request \<Rightarrow> Request" where
  "Request_set_allocated_join_room_request ptr m =
     (case ptr of None \<Rightarrow> Request_clear_msg m | Some x \<Rightarrow> (Request_clear_msg m)\<lparr>req_msg := kJoinRoomRequest x\<rparr>)"

definition Request_release_join_room_request :: "Request \<Rightarrow> JoinRoomRequest option \<times> Request" where
  "Request_release_join_room_request m =
     (if Request_has_join_room_request m then (Some (Request_join_room_request m), m\<lparr>req_msg := Request_MSG_NOT_SET\<rparr>) else (None, m))"

definition Request_clear_join_room_request :: "Request \<Rightarrow> Request" where
  "Request_clear_join_room_request m = (if Request_has_join_room_request m then m\<lparr>req_msg := Request_MSG_NOT_SET\<rparr> else m)"

definition Request_has_text_request :: "Request \<Rightarrow> bool" where
  "Request_has_text_request m = (case req_msg m of kTextRequest x \<Rightarrow> True | _ \<Rightarrow> False)"

definition Request_text_request :: "Request \<Rightarrow> TextRequest" where
  "Request_text_request m = (case req_msg m of kTextRequest x \<Rightarrow> x | _ \<Rightarrow> TextRequest_SharedCtor)"

definition Request_mutable_text_request :: "Request \<Rightarrow> Request" where
  "Request_mutable_text_request m =
     (if Request_has_text_request m then m else (Request_clear_msg m)\<lparr>req_msg := kTextRequest TextRequest_SharedCtor\<rparr>)"

definition Request_set_allocated_text_request :: "TextRequest option \<Rightarrow> Request \<Rightarrow> Request" where
  "Request_set_allocated_text_request ptr m =
     (case ptr of None \<Rightarrow> Request_clear_msg m | Some x \<Rightarrow> (Request_clear_msg m)\<lparr>req_msg := kTextRequest x\<rparr>)"

definition Request_release_text_request :: "Request \<Rightarrow> TextRequest option \<times> Request" where
  "Request_release_text_request m =
     (if Request_has_text_request m then (Some (Request_text_request m), m\<lparr>req_msg := Request_MSG_NOT_SET\<rparr>) else (None, m))"

definition Request_clear_text_request :: "Request \<Rightarrow> Request" where
  "Request_clear_text_request m = (if Request_has_text_request m then m\<lparr>req_msg := Request_MSG_NOT_SET\<rparr> else m)"

definition Request_has_msg :: "Request \<Rightarrow> bool" where
  "Request_has_msg m \<longleftrightarrow> req_msg m \<noteq> Request_MSG_NOT_SET"

definition Request_MergeFrom :: "Request \<Rightarrow> Request \<Rightarrow> Request" where
  "Request_MergeFrom from m =
     (let m0 = m\<lparr>req_unknown := req_unknown m @ req_unknown from\<rparr>
      in case req_msg from of
        kRegisterRequest x \<Rightarrow> let m1 = Request_mutable_register_request m0 in m1\<lparr>req_msg := kRegisterRequest (RegRequest_MergeFrom x (Request_register_request m1))\<rparr>
      | kInputRequest x \<Rightarrow> let m1 = Request_mutable_input_request m0 in m1\<lparr>req_msg := kInputRequest (InRequest_MergeFrom x (Request_input_request m1))\<rparr>
      | kJoinRoomRequest x \<Rightarrow> let m1 = Request_mutable_join_room_request m0 in m1\<lparr>req_msg := kJoinRoomRequest (JoinRoomRequest_MergeFrom x (Request_join_room_request m1))\<rparr>
      | kTextRequest x \<Rightarrow> let m1 = Request_mutable_text_request m0 in m1\<lparr>req_msg := kTextRequest (TextRequest_MergeFrom x (Request_text_request m1))\<rparr>
      | Request_MSG_NOT_SET \<Rightarrow> m0)"

definition Request_copy :: "Request \<Rightarrow> Request" where
  "Request_copy from =
     (let m0 = Request_SharedCtor\<lparr>req_unknown := req_unknown from\<rparr>
      in case req_msg from of
        kRegisterRequest x \<Rightarrow> let m1 = Request_mutable_register_request m0 in m1\<lparr>req_msg := kRegisterRequest (RegRequest_MergeFrom x (Request_register_request m1))\<rparr>
      | kInputRequest x \<Rightarrow> let m1 = Request_mutable_input_request m0 in m1\<lparr>req_msg := kInputRequest (InRequest_MergeFrom x (Request_input_request m1))\<rparr>
      | kJoinRoomRequest x \<Rightarrow> let m1 = Request_mutable_join_room_request m0 in m1\<lparr>req_msg := kJoinRoomRequest (JoinRoomRequest_MergeFrom x (Request_join_room_request m1))\<rparr>
      | kTextRequest x \<Rightarrow> let m1 = Request_mutable_text_request m0 in m1\<lparr>req_msg := kTextRequest (TextRequest_MergeFrom x (Request_text_request m1))\<rparr>
      | Request_MSG_NOT_SET \<Rightarrow> m0)"

definition Request_Clear :: "Request \<Rightarrow> Request" where
  "Request_Clear m = (Request_clear_msg m)\<lparr>req_unknown := []\<rparr>"

definition Request_field :: "pb_rt \<Rightarrow> uint32 \<Rightarrow> Request \<Rightarrow> bytes \<Rightarrow> Request field_result" where
  "Request_field rt tag m bs =
     (if drop_bit 3 tag = 1 \<and> (ucast tag :: byte) = 10 then
        (let m1 = Request_mutable_register_request m
         in message_field rt (RegRequest_InternalParse rt) (Request_register_request m1) (\<lambda>x. m1\<lparr>req_msg := kRegisterRequest x\<rparr>) bs)
      else if drop_bit 3 tag = 2 \<and> (ucast tag :: byte) = 18 then
        (let m1 = Request_mutable_input_request m
         in message_field rt (InRequest_InternalParse rt) (Request_input_request m1) (\<lambda>x. m1\<lparr>req_msg := kInputRequest x\<rparr>) bs)
      else if drop_bit 3 tag = 3 \<and> (ucast tag :: byte) = 26 then
        (let m1 = Request_mutable_join_room_request m
         in message_field rt (JoinRoomRequest_InternalParse rt) (Request_join_room_request m1) (\<lambda>x. m1\<lparr>req_msg := kJoinRoomRequest x\<rparr>) bs)
      else if drop_bit 3 tag = 4 \<and> (ucast tag :: byte) = 34 then
        (let m1 = Request_mutable_text_request m
         in message_field rt (TextRequest_InternalParse rt) (Request_text_request m1) (\<lambda>x. m1\<lparr>req_msg := kTextRequest x\<rparr>) bs)
      else Unusual)"

definition Request_InternalParse :: "pb_rt \<Rightarrow> Request \<Rightarrow> bytes \<Rightarrow> Request parse_result" where
  "Request_InternalParse rt m bs = parse_message rt (Request_field rt) req_unknown req_unknown_update m bs"

definition Request_InternalSerialize :: "pb_rt \<Rightarrow> Request \<Rightarrow> bytes" where
  "Request_InternalSerialize rt m =
     (if Request_has_register_request m then rt_WriteMessage rt 1 (RegRequest_InternalSerialize rt (Request_register_request m)) else []) @
     (if Request_has_input_request m then rt_WriteMessage rt 2 (InRequest_InternalSerialize rt (Request_input_request m)) else []) @
     (if Request_has_join_room_request m then rt_WriteMessage rt 3 (JoinRoomRequest_InternalSerialize rt (Request_join_room_request m)) else []) @
     (if Request_has_text_request m then rt_WriteMessage rt 4 (TextRequest_InternalSerialize rt (Request_text_request m)) else []) @
     req_unknown m"

definition Request_ByteSizeLong :: "pb_rt \<Rightarrow> Request \<Rightarrow> nat" where
  "Request_ByteSizeLong rt m =
     (case req_msg m of
        kRegisterRequest x \<Rightarrow> 1 + rt_MessageSize rt (RegRequest_ByteSizeLong rt x)
      | kInputRequest x \<Rightarrow> 1 + rt_MessageSize rt (InRequest_ByteSizeLong rt x)
      | kJoinRoomRequest x \<Rightarrow> 1 + rt_MessageSize rt (JoinRoomRequest_ByteSizeLong rt x)
      | kTextRequest x \<Rightarrow> 1 + rt_MessageSize rt (TextRequest_ByteSizeLong rt x)
      | Request_MSG_NOT_SET \<Rightarrow> 0) +
     length (req_unknown m)"

definition Request_CopyFrom :: "Request \<Rightarrow> Request \<Rightarrow> Request" where
  "Request_CopyFrom from m = Request_MergeFrom from (Request_Clear m)"

definition Request_InternalSwap :: "Request \<Rightarrow> Request \<Rightarrow> Request \<times> Request" where
  "Request_InternalSwap a b =
     (a\<lparr>req_msg := req_msg b, req_unknown := req_unknown b\<rparr>,
      b\<lparr>req_msg := req_msg a, req_unknown := req_unknown a\<rparr>)"

definition Request_wf :: "pb_rt \<Rightarrow> Request \<Rightarrow> bool" where
  "Request_wf rt m \<longleftrightarrow> req_unknown m = [] \<and>
     (case req_msg m of
        kRegisterRequest x \<Rightarrow> RegRequest_wf rt x
      | kInputRequest x \<Rightarrow> InRequest_wf rt x
      | kJoinRoomRequest x \<Rightarrow> JoinRoomRequest_wf rt x
      | kTextRequest x \<Rightarrow> TextRequest_wf rt x
      | Request_MSG_NOT_SET \<Rightarrow> True)"

lemmas Request_slot_defs = Request_clear_msg_def Request_has_register_request_def Request_register_request_def Request_mutable_register_request_def Request_has_input_request_def Request_input_request_def Request_mutable_input_request_def Request_has_join_room_request_def Request_join_room_request_def Request_mutable_join_room_request_def Request_has_text_request_def Request_text_request_def Request_mutable_text_request_def

lemma Request_Clear_init [simp]: "Request_Clear m = Request_SharedCtor"
  by (cases m) (simp add: Request_Clear_def Request_clear_msg_def Request_SharedCtor_def)

lemma Request_merge_init [simp]: "Request_MergeFrom m Request_SharedCtor = m"
  by (cases m; cases "req_msg m") (simp_all add: Request_MergeFrom_def Request_SharedCtor_def Request_slot_defs)

lemma Request_copy_id [simp]: "Request_copy m = m"
  by (cases m; cases "req_msg m") (simp_all add: Request_copy_def Request_SharedCtor_def Request_slot_defs)

lemma Request_CopyFrom_eq [simp]: "Request_CopyFrom from m = from"
  by (simp add: Request_CopyFrom_def)

lemma Request_InternalSwap_eq [simp]: "Request_InternalSwap a b = (b, a)"
  by (cases a; cases b) (simp add: Request_InternalSwap_def)

context pb_runtime
begin

lemma Request_shrinks [wire_simps]: "shrinks (Request_field rt)"
  by (auto simp: shrinks_def Request_field_def Let_def message_field_ends RegRequest_total InRequest_total JoinRoomRequest_total TextRequest_total
      split: if_splits dest: shrinks_intros)

lemma Request_parse_Nil [wire_simps]: "Request_InternalParse rt m [] = Ended m None"
  by (simp add: Request_InternalParse_def parse_message_Nil)

lemma Request_parse_register_request [wire_simps]:
  assumes "RegRequest_wf rt x" and "req_msg m = Request_MSG_NOT_SET"
  shows "Request_InternalParse rt m (rt_WriteMessage rt 1 (RegRequest_InternalSerialize rt x) @ r) =
    Request_InternalParse rt (m\<lparr>req_msg := kRegisterRequest x\<rparr>) r"
proof -
  have "length (RegRequest_InternalSerialize rt x) < pb_size_limit"
    using RegRequest_small [OF assms(1)] by (simp add: RegRequest_size [OF assms(1)] pb_size_limit_def)
  then have "parse_message rt (Request_field rt) req_unknown req_unknown_update m
      (rt_WriteMessage rt 1 (RegRequest_InternalSerialize rt x) @ r) =
    parse_message rt (Request_field rt) req_unknown req_unknown_update (m\<lparr>req_msg := kRegisterRequest x\<rparr>) r"
    using assms
    by (intro parse_message_sub [OF Request_shrinks, where inner = "RegRequest_InternalParse rt" and sub = RegRequest_SharedCtor
          and put = "\<lambda>x. m\<lparr>req_msg := kRegisterRequest x\<rparr>"])
      (simp_all add: Request_field_def Request_slot_defs RegRequest_roundtrip)
  then show ?thesis by (simp add: Request_InternalParse_def)
qed

lemma Request_parse_last_register_request [wire_simps]:
  "RegRequest_wf rt x \<Longrightarrow> req_msg m = Request_MSG_NOT_SET \<Longrightarrow>
    Request_InternalParse rt m (rt_WriteMessage rt 1 (RegRequest_InternalSerialize rt x)) =
    Ended (m\<lparr>req_msg := kRegisterRequest x\<rparr>) None"
  using Request_parse_register_request [where x = x and m = m and r = "[]"] by (simp add: Request_parse_Nil)

lemma Request_parse_input_request [wire_simps]:
  assumes "InRequest_wf rt x" and "req_msg m = Request_MSG_NOT_SET"
  shows "Request_InternalParse rt m (rt_WriteMessage rt 2 (InRequest_InternalSerialize rt x) @ r) =
    Request_InternalParse rt (m\<lparr>req_msg := kInputRequest x\<rparr>) r"
proof -
  have "length (InRequest_InternalSerialize rt x) < pb_size_limit"
    using InRequest_small [OF assms(1)] by (simp add: InRequest_size [OF assms(1)] pb_size_limit_def)
  then have "parse_message rt (Request_field rt) req_unknown req_unknown_update m
      (rt_WriteMessage rt 2 (InRequest_InternalSerialize rt x) @ r) =
    parse_message rt (Request_field rt) req_unknown req_unknown_update (m\<lparr>req_msg := kInputRequest x\<rparr>) r"
    using assms
    by (intro parse_message_sub [OF Request_shrinks, where inner = "InRequest_InternalParse rt" and sub = InRequest_SharedCtor
          and put = "\<lambda>x. m\<lparr>req_msg := kInputRequest x\<rparr>"])
      (simp_all add: Request_field_def Request_slot_defs InRequest_roundtrip)
  then show ?thesis by (simp add: Request_InternalParse_def)
qed

lemma Request_parse_last_input_request [wire_simps]:
  "InRequest_wf rt x \<Longrightarrow> req_msg m = Request_MSG_NOT_SET \<Longrightarrow>
    Request_InternalParse rt m (rt_WriteMessage rt 2 (InRequest_InternalSerialize rt x)) =
    Ended (m\<lparr>req_msg := kInputRequest x\<rparr>) None"
  using Request_parse_input_request [where x = x and m = m and r = "[]"] by (simp add: Request_parse_Nil)

lemma Request_parse_join_room_request [wire_simps]:
  assumes "JoinRoomRequest_wf rt x" and "req_msg m = Request_MSG_NOT_SET"
  shows "Request_InternalParse rt m (rt_WriteMessage rt 3 (JoinRoomRequest_InternalSerialize rt x) @ r) =
    Request_InternalParse rt (m\<lparr>req_msg := kJoinRoomRequest x\<rparr>) r"
proof -
  have "length (JoinRoomRequest_InternalSerialize rt x) < pb_size_limit"
    using JoinRoomRequest_small [OF assms(1)] by (simp add: JoinRoomRequest_size [OF assms(1)] pb_size_limit_def)
  then have "parse_message rt (Request_field rt) req_unknown req_unknown_update m
      (rt_WriteMessage rt 3 (JoinRoomRequest_InternalSerialize rt x) @ r) =
    parse_message rt (Request_field rt) req_unknown req_unknown_update (m\<lparr>req_msg := kJoinRoomRequest x\<rparr>) r"
    using assms
    by (intro parse_message_sub [OF Request_shrinks, where inner = "JoinRoomRequest_InternalParse rt" and sub = JoinRoomRequest_SharedCtor
          and put = "\<lambda>x. m\<lparr>req_msg := kJoinRoomRequest x\<rparr>"])
      (simp_all add: Request_field_def Request_slot_defs JoinRoomRequest_roundtrip)
  then show ?thesis by (simp add: Request_InternalParse_def)
qed

lemma Request_parse_last_join_room_request [wire_simps]:
  "JoinRoomRequest_wf rt x \<Longrightarrow> req_msg m = Request_MSG_NOT_SET \<Longrightarrow>
    Request_InternalParse rt m (rt_WriteMessage rt 3 (JoinRoomRequest_InternalSerialize rt x)) =
    Ended (m\<lparr>req_msg := kJoinRoomRequest x\<rparr>) None"
  using Request_parse_join_room_request [where x = x and m = m and r = "[]"] by (simp add: Request_parse_Nil)

lemma Request_parse_text_request [wire_simps]:
  assumes "TextRequest_wf rt x" and "req_msg m = Request_MSG_NOT_SET"
  shows "Request_InternalParse rt m (rt_WriteMessage rt 4 (TextRequest_InternalSerialize rt x) @ r) =
    Request_InternalParse rt (m\<lparr>req_msg := kTextRequest x\<rparr>) r"
proof -
  have "length (TextRequest_InternalSerialize rt x) < pb_size_limit"
    using TextRequest_small [OF assms(1)] by (simp add: TextRequest_size [OF assms(1)] pb_size_limit_def)
  then have "parse_message rt (Request_field rt) req_unknown req_unknown_update m
      (rt_WriteMessage rt 4 (TextRequest_InternalSerialize rt x) @ r) =
    parse_message rt (Request_field rt) req_unknown req_unknown_update (m\<lparr>req_msg := kTextRequest x\<rparr>) r"
    using assms
    by (intro parse_message_sub [OF Request_shrinks, where inner = "TextRequest_InternalParse rt" and sub = TextRequest_SharedCtor
          and put = "\<lambda>x. m\<lparr>req_msg := kTextRequest x\<rparr>"])
      (simp_all add: Request_field_def Request_slot_defs TextRequest_roundtrip)
  then show ?thesis by (simp add: Request_InternalParse_def)
qed

lemma Request_parse_last_text_request [wire_simps]:
  "TextRequest_wf rt x \<Longrightarrow> req_msg m = Request_MSG_NOT_SET \<Longrightarrow>
    Request_InternalParse rt m (rt_WriteMessage rt 4 (TextRequest_InternalSerialize rt x)) =
    Ended (m\<lparr>req_msg := kTextRequest x\<rparr>) None"
  using Request_parse_text_request [where x = x and m = m and r = "[]"] by (simp add: Request_parse_Nil)

lemma Request_total: "Request_InternalParse rt m bs \<noteq> OutOfFuel"
  by (simp add: Request_InternalParse_def Request_shrinks parse_message_total)

lemma Request_roundtrip [wire_simps]:
  "Request_wf rt m \<Longrightarrow> Request_InternalParse rt Request_SharedCtor (Request_InternalSerialize rt m) = Ended m None"
  by (cases m; cases "req_msg m")
    (simp_all add: Request_wf_def Request_InternalSerialize_def Request_SharedCtor_def Request_slot_defs wire_simps del: One_nat_def)

lemma Request_size [wire_simps]:
  assumes "Request_wf rt m"
  shows "length (Request_InternalSerialize rt m) = Request_ByteSizeLong rt m"
proof (cases "req_msg m")
  case (kRegisterRequest x)
  with assms have "RegRequest_wf rt x" and "req_unknown m = []" by (simp_all add: Request_wf_def)
  with RegRequest_small [OF this(1)] kRegisterRequest show ?thesis
    by (simp add: Request_InternalSerialize_def Request_ByteSizeLong_def Request_slot_defs size_message RegRequest_size pb_size_limit_def)
next
  case (kInputRequest x)
  with assms have "InRequest_wf rt x" and "req_unknown m = []" by (simp_all add: Request_wf_def)
  with InRequest_small [OF this(1)] kInputRequest show ?thesis
    by (simp add: Request_InternalSerialize_def Request_ByteSizeLong_def Request_slot_defs size_message InRequest_size pb_size_limit_def)
next
  case (kJoinRoomRequest x)
  with assms have "JoinRoomRequest_wf rt x" and "req_unknown m = []" by (simp_all add: Request_wf_def)
  with JoinRoomRequest_small [OF this(1)] kJoinRoomRequest show ?thesis
    by (simp add: Request_InternalSerialize_def Request_ByteSizeLong_def Request_slot_defs size_message JoinRoomRequest_size pb_size_limit_def)
next
  case (kTextRequest x)
  with assms have "TextRequest_wf rt x" and "req_unknown m = []" by (simp_all add: Request_wf_def)
  with TextRequest_small [OF this(1)] kTextRequest show ?thesis
    by (simp add: Request_InternalSerialize_def Request_ByteSizeLong_def Request_slot_defs size_message TextRequest_size pb_size_limit_def)
next
  case Request_MSG_NOT_SET
  with assms show ?thesis
    by (simp add: Request_wf_def Request_InternalSerialize_def Request_ByteSizeLong_def Request_slot_defs)
qed

lemma Request_small [wire_simps]: "Request_wf rt m \<Longrightarrow> Request_ByteSizeLong rt m < 1073741910"
proof (cases "req_msg m")
  case (kRegisterRequest x)
  moreover assume "Request_wf rt m"
  ultimately show ?thesis
    using RegRequest_small [of x] message_bound [of "RegRequest_ByteSizeLong rt x"]
    by (simp add: Request_wf_def Request_ByteSizeLong_def pb_size_limit_def)
next
  case (kInputRequest x)
  moreover assume "Request_wf rt m"
  ultimately show ?thesis
    using InRequest_small [of x] message_bound [of "InRequest_ByteSizeLong rt x"]
    by (simp add: Request_wf_def Request_ByteSizeLong_def pb_size_limit_def)
next
  case (kJoinRoomRequest x)
  moreover assume "Request_wf rt m"
  ultimately show ?thesis
    using JoinRoomRequest_small [of x] message_bound [of "JoinRoomRequest_ByteSizeLong rt x"]
    by (simp add: Request_wf_def Request_ByteSizeLong_def pb_size_limit_def)
next
  case (kTextRequest x)
  moreover assume "Request_wf rt m"
  ultimately show ?thesis
    using TextRequest_small [of x] message_bound [of "TextRequest_ByteSizeLong rt x"]
    by (simp add: Request_wf_def Request_ByteSizeLong_def pb_size_limit_def)
next
  case Request_MSG_NOT_SET
  moreover assume "Request_wf rt m"
  ultimately show ?thesis by (simp add: Request_wf_def Request_ByteSizeLong_def)
qed

end

end
