(* ===== verification/ResponsePb.thy ===== *)
theory ResponsePb
  imports PbRuntime
begin

text \<open>
  The messages of \<open>response.proto\<close> as \<open>proto/build/response.pb.cc\<close> and \<open>response.pb.h\<close> implement
  them. \<open>STATUS\<close> is an open enum, so a status is the 32-bit value that travels.
\<close>

definition STATUS_FAIL :: int32 where
  "STATUS_FAIL = 0"

definition STATUS_OK :: int32 where
  "STATUS_OK = 1"

section \<open>InputResponse\<close>

record InputResponse =
  irs_status :: int32
  irs_msg_id :: int32
  irs_client_id :: int32
  irs_chat_id :: int32
  irs_unknown :: bytes

definition InputResponse_SharedCtor :: InputResponse where
  "InputResponse_SharedCtor = \<lparr>irs_status = 0, irs_msg_id = 0, irs_client_id = 0, irs_chat_id = 0, irs_unknown = []\<rparr>"

definition InputResponse_copy :: "InputResponse \<Rightarrow> InputResponse" where
  "InputResponse_copy from =
     InputResponse_SharedCtor\<lparr>irs_unknown := irs_unknown from,
       irs_status := irs_status from,
       irs_msg_id := irs_msg_id from,
       irs_client_id := irs_client_id from,
       irs_chat_id := irs_chat_id from\<rparr>"

definition InputResponse_set_status :: "int32 \<Rightarrow> InputResponse \<Rightarrow> InputResponse" where
  "InputResponse_set_status v m = m\<lparr>irs_status := v\<rparr>"

definition InputResponse_clear_status :: "InputResponse \<Rightarrow> InputResponse" where
  "InputResponse_clear_status m = m\<lparr>irs_status := 0\<rparr>"

definition InputResponse_set_msg_id :: "int32 \<Rightarrow> InputResponse \<Rightarrow> InputResponse" where
  "InputResponse_set_msg_id v m = m\<lparr>irs_msg_id := v\<rparr>"

definition InputResponse_clear_msg_id :: "InputResponse \<Rightarrow> InputResponse" where
  "InputResponse_clear_msg_id m = m\<lparr>irs_msg_id := 0\<rparr>"

definition InputResponse_set_client_id :: "int32 \<Rightarrow> InputResponse \<Rightarrow> InputResponse" where
  "InputResponse_set_client_id v m = m\<lparr>irs_client_id := v\<rparr>"

definition InputResponse_clear_client_id :: "InputResponse \<Rightarrow> InputResponse" where
  "InputResponse_clear_client_id m = m\<lparr>irs_client_id := 0\<rparr>"

definition InputResponse_set_chat_id :: "int32 \<Rightarrow> InputResponse \<Rightarrow> InputResponse" where
  "InputResponse_set_chat_id v m = m\<lparr>irs_chat_id := v\<rparr>"

definition InputResponse_clear_chat_id :: "InputResponse \<Rightarrow> InputResponse" where
  "InputResponse_clear_chat_id m = m\<lparr>irs_chat_id := 0\<rparr>"

definition InputResponse_Clear :: "InputResponse \<Rightarrow> InputResponse" where
  "InputResponse_Clear m = m\<lparr>irs_status := 0, irs_msg_id := 0, irs_client_id := 0, irs_chat_id := 0, irs_unknown := []\<rparr>"

definition InputResponse_field :: "pb_rt \<Rightarrow> uint32 \<Rightarrow> InputResponse \<Rightarrow> bytes \<Rightarrow> InputResponse field_result" where
  "InputResponse_field rt tag m bs =
     (if drop_bit 3 tag = 1 \<and> (ucast tag :: byte) = 8 then enum_field rt irs_status_update m bs
      else if drop_bit 3 tag = 2 \<and> (ucast tag :: byte) = 16 then varint_field rt irs_msg_id_update m bs
      else if drop_bit 3 tag = 3 \<and> (ucast tag :: byte) = 24 then varint_field rt irs_client_id_update m bs
      else if drop_bit 3 tag = 4 \<and> (ucast tag :: byte) = 32 then varint_field rt irs_chat_id_update m bs
      else Unusual)"

definition InputResponse_InternalParse :: "pb_rt \<Rightarrow> InputResponse \<Rightarrow> bytes \<Rightarrow> InputResponse parse_result" where
  "InputResponse_InternalParse rt m bs = parse_message rt (InputResponse_field rt) irs_unknown irs_unknown_update m bs"

definition InputResponse_InternalSerialize :: "pb_rt \<Rightarrow> InputResponse \<Rightarrow> bytes" where
  "InputResponse_InternalSerialize rt m =
     (if irs_status m \<noteq> 0 then rt_WriteEnum rt 1 (irs_status m) else []) @
     (if irs_msg_id m \<noteq> 0 then rt_WriteInt32 rt 2 (irs_msg_id m) else []) @
     (if irs_client_id m \<noteq> 0 then rt_WriteInt32 rt 3 (irs_client_id m) else []) @
     (if irs_chat_id m \<noteq> 0 then rt_WriteInt32 rt 4 (irs_chat_id m) else []) @
     irs_unknown m"

definition InputResponse_ByteSizeLong :: "pb_rt \<Rightarrow> InputResponse \<Rightarrow> nat" where
  "InputResponse_ByteSizeLong rt m =
     (if irs_status m \<noteq> 0 then 1 + rt_EnumSize rt (irs_status m) else 0) +
     (if irs_msg_id m \<noteq> 0 then 1 + rt_Int32Size rt (irs_msg_id m) else 0) +
     (if irs_client_id m \<noteq> 0 then 1 + rt_Int32Size rt (irs_client_id m) else 0) +
     (if irs_chat_id m \<noteq> 0 then 1 + rt_Int32Size rt (irs_chat_id m) else 0) +
     length (irs_unknown m)"

definition InputResponse_MergeFrom :: "InputResponse \<Rightarrow> InputResponse \<Rightarrow> InputResponse" where
  "InputResponse_MergeFrom from m = m\<lparr>irs_unknown := irs_unknown m @ irs_unknown from,
     irs_status := (if irs_status from \<noteq> 0 then irs_status from else irs_status m),
     irs_msg_id := (if irs_msg_id from \<noteq> 0 then irs_msg_id from else irs_msg_id m),
     irs_client_id := (if irs_client_id from \<noteq> 0 then irs_client_id from else irs_client_id m),
     irs_chat_id := (if irs_chat_id from \<noteq> 0 then irs_chat_id from else irs_chat_id m)\<rparr>"

definition InputResponse_CopyFrom :: "InputResponse \<Rightarrow> InputResponse \<Rightarrow> InputResponse" where
  "InputResponse_CopyFrom from m = InputResponse_MergeFrom from (InputResponse_Clear m)"

definition InputResponse_InternalSwap :: "InputResponse \<Rightarrow> InputResponse \<Rightarrow> InputResponse \<times> InputResponse" where
  "InputResponse_InternalSwap a b =
     (a\<lparr>irs_status := irs_status b, irs_msg_id := irs_msg_id b, irs_client_id := irs_client_id b, irs_chat_id := irs_chat_id b, irs_unknown := irs_unknown b\<rparr>,
      b\<lparr>irs_status := irs_status a, irs_msg_id := irs_msg_id a, irs_client_id := irs_client_id a, irs_chat_id := irs_chat_id a, irs_unknown := irs_unknown a\<rparr>)"

text \<open>What the wire can carry: UTF-8 strings of bounded length and no unknown fields.\<close>

definition InputResponse_wf :: "pb_rt \<Rightarrow> InputResponse \<Rightarrow> bool" where
  "InputResponse_wf rt m \<longleftrightarrow> irs_unknown m = []"

lemma InputResponse_copy_id [simp]: "InputResponse_copy m = m"
  by (cases m) (simp add: InputResponse_copy_def InputResponse_SharedCtor_def)

lemma InputResponse_Clear_init [simp]: "InputResponse_Clear m = InputResponse_SharedCtor"
  by (cases m) (simp add: InputResponse_Clear_def InputResponse_SharedCtor_def)

lemma InputResponse_merge_init [simp]: "InputResponse_MergeFrom m InputResponse_SharedCtor = m"
  by (cases m) (simp add: InputResponse_MergeFrom_def InputResponse_SharedCtor_def)

lemma InputResponse_CopyFrom_eq [simp]: "InputResponse_CopyFrom from m = from"
  by (simp add: InputResponse_CopyFrom_def)

lemma InputResponse_InternalSwap_eq [simp]: "InputResponse_InternalSwap a b = (b, a)"
  by (cases a; cases b) (simp add: InputResponse_InternalSwap_def)

context pb_runtime
begin

lemma InputResponse_shrinks [wire_simps]: "shrinks (InputResponse_field rt)"
  by (auto simp: shrinks_def InputResponse_field_def split: if_splits dest: shrinks_intros)

lemma InputResponse_parse_Nil [wire_simps]: "InputResponse_InternalParse rt m [] = Ended m None"
  by (simp add: InputResponse_InternalParse_def parse_message_Nil)

lemma InputResponse_parse_status [wire_simps]:
  "InputResponse_InternalParse rt m (rt_WriteEnum rt 1 v @ r) = InputResponse_InternalParse rt (m\<lparr>irs_status := v\<rparr>) r"
  unfolding InputResponse_InternalParse_def
  by (rule parse_message_enum [OF InputResponse_shrinks]) (simp_all add: InputResponse_field_def str_ok_def pb_size_limit_def)

lemma InputResponse_parse_last_status [wire_simps]:
  "InputResponse_InternalParse rt m (rt_WriteEnum rt 1 v) = Ended (m\<lparr>irs_status := v\<rparr>) None"
  using InputResponse_parse_status [where v = v and m = m and r = "[]"] by (simp add: InputResponse_parse_Nil)

lemma InputResponse_parse_msg_id [wire_simps]:
  "InputResponse_InternalParse rt m (rt_WriteInt32 rt 2 v @ r) = InputResponse_InternalParse rt (m\<lparr>irs_msg_id := v\<rparr>) r"
  unfolding InputResponse_InternalParse_def
  by (rule parse_message_int32 [OF InputResponse_shrinks]) (simp_all add: InputResponse_field_def str_ok_def pb_size_limit_def)

lemma InputResponse_parse_last_msg_id [wire_simps]:
  "InputResponse_InternalParse rt m (rt_WriteInt32 rt 2 v) = Ended (m\<lparr>irs_msg_id := v\<rparr>) None"
  using InputResponse_parse_msg_id [where v = v and m = m and r = "[]"] by (simp add: InputResponse_parse_Nil)

lemma InputResponse_parse_client_id [wire_simps]:
  "InputResponse_InternalParse rt m (rt_WriteInt32 rt 3 v @ r) = InputResponse_InternalParse rt (m\<lparr>irs_client_id := v\<rparr>) r"
  unfolding InputResponse_InternalParse_def
  by (rule parse_message_int32 [OF InputResponse_shrinks]) (simp_all add: InputResponse_field_def str_ok_def pb_size_limit_def)

lemma InputResponse_parse_last_client_id [wire_simps]:
  "InputResponse_InternalParse rt m (rt_WriteInt32 rt 3 v) = Ended (m\<lparr>irs_client_id := v\<rparr>) None"
  using InputResponse_parse_client_id [where v = v and m = m and r = "[]"] by (simp add: InputResponse_parse_Nil)

lemma InputResponse_parse_chat_id [wire_simps]:
  "InputResponse_InternalParse rt m (rt_WriteInt32 rt 4 v @ r) = InputResponse_InternalParse rt (m\<lparr>irs_chat_id := v\<rparr>) r"
  unfolding InputResponse_InternalParse_def
  by (rule parse_message_int32 [OF InputResponse_shrinks]) (simp_all add: InputResponse_field_def str_ok_def pb_size_limit_def)

lemma InputResponse_parse_last_chat_id [wire_simps]:
  "InputResponse_InternalParse rt m (rt_WriteInt32 rt 4 v) = Ended (m\<lparr>irs_chat_id := v\<rparr>) None"
  using InputResponse_parse_chat_id [where v = v and m = m and r = "[]"] by (simp add: InputResponse_parse_Nil)

lemma InputResponse_total: "InputResponse_InternalParse rt m bs \<noteq> OutOfFuel"
  by (simp add: InputResponse_InternalParse_def InputResponse_shrinks parse_message_total)

lemma InputResponse_roundtrip [wire_simps]:
  "InputResponse_wf rt m \<Longrightarrow> InputResponse_InternalParse rt InputResponse_SharedCtor (InputResponse_InternalSerialize rt m) = Ended m None"
  by (cases m) (simp add: InputResponse_wf_def InputResponse_InternalSerialize_def InputResponse_SharedCtor_def wire_simps del: One_nat_def)

lemma InputResponse_size [wire_simps]:
  "InputResponse_wf rt m \<Longrightarrow> length (InputResponse_InternalSerialize rt m) = InputResponse_ByteSizeLong rt m"
  by (simp add: InputResponse_wf_def str_ok_def pb_size_limit_def InputResponse_InternalSerialize_def InputResponse_ByteSizeLong_def
      size_fixed32 size_fixed64 size_int32 size_enum size_string)

lemma InputResponse_small [wire_simps]: "InputResponse_wf rt m \<Longrightarrow> InputResponse_ByteSizeLong rt m < 1073741900"
  using varint_bound(2) [of "irs_status m"] varint_bound(1) [of "irs_msg_id m"] varint_bound(1) [of "irs_client_id m"] varint_bound(1) [of "irs_chat_id m"]
  by (simp add: InputResponse_wf_def str_ok_def pb_size_limit_def InputResponse_ByteSizeLong_def)

end

section \<open>RegResponse\<close>

record RegResponse =
  rrs_status :: int32
  rrs_msg_id :: int32
  rrs_client_id :: int32
  rrs_chat_id :: int32
  rrs_unknown :: bytes

definition RegResponse_SharedCtor :: RegResponse where
  "RegResponse_SharedCtor = \<lparr>rrs_status = 0, rrs_msg_id = 0, rrs_client_id = 0, rrs_chat_id = 0, rrs_unknown = []\<rparr>"

definition RegResponse_copy :: "RegResponse \<Rightarrow> RegResponse" where
  "RegResponse_copy from =
     RegResponse_SharedCtor\<lparr>rrs_unknown := rrs_unknown from,
       rrs_status := rrs_status from,
       rrs_msg_id := rrs_msg_id from,
       rrs_client_id := rrs_client_id from,
       rrs_chat_id := rrs_chat_id from\<rparr>"

definition RegResponse_set_status :: "int32 \<Rightarrow> RegResponse \<Rightarrow> RegResponse" where
  "RegResponse_set_status v m = m\<lparr>rrs_status := v\<rparr>"

definition RegResponse_clear_status :: "RegResponse \<Rightarrow> RegResponse" where
  "RegResponse_clear_status m = m\<lparr>rrs_status := 0\<rparr>"

definition RegResponse_set_msg_id :: "int32 \<Rightarrow> RegResponse \<Rightarrow> RegResponse" where
  "RegResponse_set_msg_id v m = m\<lparr>rrs_msg_id := v\<rparr>"

definition RegResponse_clear_msg_id :: "RegResponse \<Rightarrow> RegResponse" where
  "RegResponse_clear_msg_id m = m\<lparr>rrs_msg_id := 0\<rparr>"

definition RegResponse_set_client_id :: "int32 \<Rightarrow> RegResponse \<Rightarrow> RegResponse" where
  "RegResponse_set_client_id v m = m\<lparr>rrs_client_id := v\<rparr>"

definition RegResponse_clear_client_id :: "RegResponse \<Rightarrow> RegResponse" where
  "RegResponse_clear_client_id m = m\<lparr>rrs_client_id := 0\<rparr>"

definition RegResponse_set_chat_id :: "int32 \<Rightarrow> RegResponse \<Rightarrow> RegResponse" where
  "RegResponse_set_chat_id v m = m\<lparr>rrs_chat_id := v\<rparr>"

definition RegResponse_clear_chat_id :: "RegResponse \<Rightarrow> RegResponse" where
  "RegResponse_clear_chat_id m = m\<lparr>rrs_chat_id := 0\<rparr>"

definition RegResponse_Clear :: "RegResponse \<Rightarrow> RegResponse" where
  "RegResponse_Clear m = m\<lparr>rrs_status := 0, rrs_msg_id := 0, rrs_client_id := 0, rrs_chat_id := 0, rrs_unknown := []\<rparr>"

definition RegResponse_field :: "pb_rt \<Rightarrow> uint32 \<Rightarrow> RegResponse \<Rightarrow> bytes \<Rightarrow> RegResponse field_result" where
  "RegResponse_field rt tag m bs =
     (if drop_bit 3 tag = 1 \<and> (ucast tag :: byte) = 8 then enum_field rt rrs_status_update m bs
      else if drop_bit 3 tag = 2 \<and> (ucast tag :: byte) = 16 then varint_field rt rrs_msg_id_update m bs
      else if drop_bit 3 tag = 3 \<and> (ucast tag :: byte) = 24 then varint_field rt rrs_client_id_update m bs
      else if drop_bit 3 tag = 4 \<and> (ucast tag :: byte) = 32 then varint_field rt rrs_chat_id_update m bs
      else Unusual)"

definition RegResponse_InternalParse :: "pb_rt \<Rightarrow> RegResponse \<Rightarrow> bytes \<Rightarrow> RegResponse parse_result" where
  "RegResponse_InternalParse rt m bs = parse_message rt (RegResponse_field rt) rrs_unknown rrs_unknown_update m bs"

definition RegResponse_InternalSerialize :: "pb_rt \<Rightarrow> RegResponse \<Rightarrow> bytes" where
  "RegResponse_InternalSerialize rt m =
     (if rrs_status m \<noteq> 0 then rt_WriteEnum rt 1 (rrs_status m) else []) @
     (if rrs_msg_id m \<noteq> 0 then rt_WriteInt32 rt 2 (rrs_msg_id m) else []) @
     (if rrs_client_id m \<noteq> 0 then rt_WriteInt32 rt 3 (rrs_client_id m) else []) @
     (if rrs_chat_id m \<noteq> 0 then rt_WriteInt32 rt 4 (rrs_chat_id m) else []) @
     rrs_unknown m"

definition RegResponse_ByteSizeLong :: "pb_rt \<Rightarrow> RegResponse \<Rightarrow> nat" where
  "RegResponse_ByteSizeLong rt m =
     (if rrs_status m \<noteq> 0 then 1 + rt_EnumSize rt (rrs_status m) else 0) +
     (if rrs_msg_id m \<noteq> 0 then 1 + rt_Int32Size rt (rrs_msg_id m) else 0) +
     (if rrs_client_id m \<noteq> 0 then 1 + rt_Int32Size rt (rrs_client_id m) else 0) +
     (if rrs_chat_id m \<noteq> 0 then 1 + rt_Int32Size rt (rrs_chat_id m) else 0) +
     length (rrs_unknown m)"

definition RegResponse_MergeFrom :: "RegResponse \<Rightarrow> RegResponse \<Rightarrow> RegResponse" where
  "RegResponse_MergeFrom from m = m\<lparr>rrs_unknown := rrs_unknown m @ rrs_unknown from,
     rrs_status := (if rrs_status from \<noteq> 0 then rrs_status from else rrs_status m),
     rrs_msg_id := (if rrs_msg_id from \<noteq> 0 then rrs_msg_id from else rrs_msg_id m),
     rrs_client_id := (if rrs_client_id from \<noteq> 0 then rrs_client_id from else rrs_client_id m),
     rrs_chat_id := (if rrs_chat_id from \<noteq> 0 then rrs_chat_id from else rrs_chat_id m)\<rparr>"

definition RegResponse_CopyFrom :: "RegResponse \<Rightarrow> RegResponse \<Rightarrow> RegResponse" where
  "RegResponse_CopyFrom from m = RegResponse_MergeFrom from (RegResponse_Clear m)"

definition RegResponse_InternalSwap :: "RegResponse \<Rightarrow> RegResponse \<Rightarrow> RegResponse \<times> RegResponse" where
  "RegResponse_InternalSwap a b =
     (a\<lparr>rrs_status := rrs_status b, rrs_msg_id := rrs_msg_id b, rrs_client_id := rrs_client_id b, rrs_chat_id := rrs_chat_id b, rrs_unknown := rrs_unknown b\<rparr>,
      b\<lparr>rrs_status := rrs_status a, rrs_msg_id := rrs_msg_id a, rrs_client_id := rrs_client_id a, rrs_chat_id := rrs_chat_id a, rrs_unknown := rrs_unknown a\<rparr>)"

text \<open>What the wire can carry: UTF-8 strings of bounded length and no unknown fields.\<close>

definition RegResponse_wf :: "pb_rt \<Rightarrow> RegResponse \<Rightarrow> bool" where
  "RegResponse_wf rt m \<longleftrightarrow> rrs_unknown m = []"

lemma RegResponse_copy_id [simp]: "RegResponse_copy m = m"
  by (cases m) (simp add: RegResponse_copy_def RegResponse_SharedCtor_def)

lemma RegResponse_Clear_init [simp]: "RegResponse_Clear m = RegResponse_SharedCtor"
  by (cases m) (simp add: RegResponse_Clear_def RegResponse_SharedCtor_def)

lemma RegResponse_merge_init [simp]: "RegResponse_MergeFrom m RegResponse_SharedCtor = m"
  by (cases m) (simp add: RegResponse_MergeFrom_def RegResponse_SharedCtor_def)

lemma RegResponse_CopyFrom_eq [simp]: "RegResponse_CopyFrom from m = from"
  by (simp add: RegResponse_CopyFrom_def)

lemma RegResponse_InternalSwap_eq [simp]: "RegResponse_InternalSwap a b = (b, a)"
  by (cases a; cases b) (simp add: RegResponse_InternalSwap_def)

context pb_runtime
begin

lemma RegResponse_shrinks [wire_simps]: "shrinks (RegResponse_field rt)"
  by (auto simp: shrinks_def RegResponse_field_def split: if_splits dest: shrinks_intros)

lemma RegResponse_parse_Nil [wire_simps]: "RegResponse_InternalParse rt m [] = Ended m None"
  by (simp add: RegResponse_InternalParse_def parse_message_Nil)

lemma RegResponse_parse_status [wire_simps]:
  "RegResponse_InternalParse rt m (rt_WriteEnum rt 1 v @ r) = RegResponse_InternalParse rt (m\<lparr>rrs_status := v\<rparr>) r"
  unfolding RegResponse_InternalParse_def
  by (rule parse_message_enum [OF RegResponse_shrinks]) (simp_all add: RegResponse_field_def str_ok_def pb_size_limit_def)

lemma RegResponse_parse_last_status [wire_simps]:
  "RegResponse_InternalParse rt m (rt_WriteEnum rt 1 v) = Ended (m\<lparr>rrs_status := v\<rparr>) None"
  using RegResponse_parse_status [where v = v and m = m and r = "[]"] by (simp add: RegResponse_parse_Nil)

lemma RegResponse_parse_msg_id [wire_simps]:
  "RegResponse_InternalParse rt m (rt_WriteInt32 rt 2 v @ r) = RegResponse_InternalParse rt (m\<lparr>rrs_msg_id := v\<rparr>) r"
  unfolding RegResponse_InternalParse_def
  by (rule parse_message_int32 [OF RegResponse_shrinks]) (simp_all add: RegResponse_field_def str_ok_def pb_size_limit_def)

lemma RegResponse_parse_last_msg_id [wire_simps]:
  "RegResponse_InternalParse rt m (rt_WriteInt32 rt 2 v) = Ended (m\<lparr>rrs_msg_id := v\<rparr>) None"
  using RegResponse_parse_msg_id [where v = v and m = m and r = "[]"] by (simp add: RegResponse_parse_Nil)

lemma RegResponse_parse_client_id [wire_simps]:
  "RegResponse_InternalParse rt m (rt_WriteInt32 rt 3 v @ r) = RegResponse_InternalParse rt (m\<lparr>rrs_client_id := v\<rparr>) r"
  unfolding RegResponse_InternalParse_def
  by (rule parse_message_int32 [OF RegResponse_shrinks]) (simp_all add: RegResponse_field_def str_ok_def pb_size_limit_def)

lemma RegResponse_parse_last_client_id [wire_simps]:
  "RegResponse_InternalParse rt m (rt_WriteInt32 rt 3 v) = Ended (m\<lparr>rrs_client_id := v\<rparr>) None"
  using RegResponse_parse_client_id [where v = v and m = m and r = "[]"] by (simp add: RegResponse_parse_Nil)

lemma RegResponse_parse_chat_id [wire_simps]:
  "RegResponse_InternalParse rt m (rt_WriteInt32 rt 4 v @ r) = RegResponse_InternalParse rt (m\<lparr>rrs_chat_id := v\<rparr>) r"
  unfolding RegResponse_InternalParse_def
  by (rule parse_message_int32 [OF RegResponse_shrinks]) (simp_all add: RegResponse_field_def str_ok_def pb_size_limit_def)

lemma RegResponse_parse_last_chat_id [wire_simps]:
  "RegResponse_InternalParse rt m (rt_WriteInt32 rt 4 v) = Ended (m\<lparr>rrs_chat_id := v\<rparr>) None"
  using RegResponse_parse_chat_id [where v = v and m = m and r = "[]"] by (simp add: RegResponse_parse_Nil)

lemma RegResponse_total: "RegResponse_InternalParse rt m bs \<noteq> OutOfFuel"
  by (simp add: RegResponse_InternalParse_def RegResponse_shrinks parse_message_total)

lemma RegResponse_roundtrip [wire_simps]:
  "RegResponse_wf rt m \<Longrightarrow> RegResponse_InternalParse rt RegResponse_SharedCtor (RegResponse_InternalSerialize rt m) = Ended m None"
  by (cases m) (simp add: RegResponse_wf_def RegResponse_InternalSerialize_def RegResponse_SharedCtor_def wire_simps del: One_nat_def)

lemma RegResponse_size [wire_simps]:
  "RegResponse_wf rt m \<Longrightarrow> length (RegResponse_InternalSerialize rt m) = RegResponse_ByteSizeLong rt m"
  by (simp add: RegResponse_wf_def str_ok_def pb_size_limit_def RegResponse_InternalSerialize_def RegResponse_ByteSizeLong_def
      size_fixed32 size_fixed64 size_int32 size_enum size_string)

lemma RegResponse_small [wire_simps]: "RegResponse_wf rt m \<Longrightarrow> RegResponse_ByteSizeLong rt m < 1073741900"
  using varint_bound(2) [of "rrs_status m"] varint_bound(1) [of "rrs_msg_id m"] varint_bound(1) [of "rrs_client_id m"] varint_bound(1) [of "rrs_chat_id m"]
  by (simp add: RegResponse_wf_def str_ok_def pb_size_limit_def RegResponse_ByteSizeLong_def)

end

section \<open>JoinRoomResponse\<close>

record JoinRoomResponse =
  jrs_status :: int32
  jrs_room_id :: int32
  jrs_unknown :: bytes

definition JoinRoomResponse_SharedCtor :: JoinRoomResponse where
  "JoinRoomResponse_SharedCtor = \<lparr>jrs_status = 0, jrs_room_id = 0, jrs_unknown = []\<rparr>"

definition JoinRoomResponse_copy :: "JoinRoomResponse \<Rightarrow> JoinRoomResponse" where
  "JoinRoomResponse_copy from =
     JoinRoomResponse_SharedCtor\<lparr>jrs_unknown := jrs_unknown from,
       jrs_status := jrs_status from,
       jrs_room_id := jrs_room_id from\<rparr>"

definition JoinRoomResponse_set_status :: "int32 \<Rightarrow> JoinRoomResponse \<Rightarrow> JoinRoomResponse" where
  "JoinRoomResponse_set_status v m = m\<lparr>jrs_status := v\<rparr>"

definition JoinRoomResponse_clear_status :: "JoinRoomResponse \<Rightarrow> JoinRoomResponse" where
  "JoinRoomResponse_clear_status m = m\<lparr>jrs_status := 0\<rparr>"

definition JoinRoomResponse_set_room_id :: "int32 \<Rightarrow> JoinRoomResponse \<Rightarrow> JoinRoomResponse" where
  "JoinRoomResponse_set_room_id v m = m\<lparr>jrs_room_id := v\<rparr>"

definition JoinRoomResponse_clear_room_id :: "JoinRoomResponse \<Rightarrow> JoinRoomResponse" where
  "JoinRoomResponse_clear_room_id m = m\<lparr>jrs_room_id := 0\<rparr>"

definition JoinRoomResponse_Clear :: "JoinRoomResponse \<Rightarrow> JoinRoomResponse" where
  "JoinRoomResponse_Clear m = m\<lparr>jrs_status := 0, jrs_room_id := 0, jrs_unknown := []\<rparr>"

definition JoinRoomResponse_field :: "pb_rt \<Rightarrow> uint32 \<Rightarrow> JoinRoomResponse \<Rightarrow> bytes \<Rightarrow> JoinRoomResponse field_result" where
  "JoinRoomResponse_field rt tag m bs =
     (if drop_bit 3 tag = 1 \<and> (ucast tag :: byte) = 8 then enum_field rt jrs_status_update m bs
      else if drop_bit 3 tag = 2 \<and> (ucast tag :: byte) = 16 then varint_field rt jrs_room_id_update m bs
      else Unusual)"

definition JoinRoomResponse_InternalParse :: "pb_rt \<Rightarrow> JoinRoomResponse \<Rightarrow> bytes \<Rightarrow> JoinRoomResponse parse_result" where
  "JoinRoomResponse_InternalParse rt m bs = parse_message rt (JoinRoomResponse_field rt) jrs_unknown jrs_unknown_update m bs"

definition JoinRoomResponse_InternalSerialize :: "pb_rt \<Rightarrow> JoinRoomResponse \<Rightarrow> bytes" where
  "JoinRoomResponse_InternalSerialize rt m =
     (if jrs_status m \<noteq> 0 then rt_WriteEnum rt 1 (jrs_status m) else []) @
     (if jrs_room_id m \<noteq> 0 then rt_WriteInt32 rt 2 (jrs_room_id m) else []) @
     jrs_unknown m"

definition JoinRoomResponse_ByteSizeLong :: "pb_rt \<Rightarrow> JoinRoomResponse \<Rightarrow> nat" where
  "JoinRoomResponse_ByteSizeLong rt m =
     (if jrs_status m \<noteq> 0 then 1 + rt_EnumSize rt (jrs_status m) else 0) +
     (if jrs_room_id m \<noteq> 0 then 1 + rt_Int32Size rt (jrs_room_id m) else 0) +
     length (jrs_unknown m)"

definition JoinRoomResponse_MergeFrom :: "JoinRoomResponse \<Rightarrow> JoinRoomResponse \<Rightarrow> JoinRoomResponse" where
  "JoinRoomResponse_MergeFrom from m = m\<lparr>jrs_unknown := jrs_unknown m @ jrs_unknown from,
     jrs_status := (if jrs_status from \<noteq> 0 then jrs_status from else jrs_status m),
     jrs_room_id := (if jrs_room_id from \<noteq> 0 then jrs_room_id from else jrs_room_id m)\<rparr>"

definition JoinRoomResponse_CopyFrom :: "JoinRoomResponse \<Rightarrow> JoinRoomResponse \<Rightarrow> JoinRoomResponse" where
  "JoinRoomResponse_CopyFrom from m = JoinRoomResponse_MergeFrom from (JoinRoomResponse_Clear m)"

definition JoinRoomResponse_InternalSwap :: "JoinRoomResponse \<Rightarrow> JoinRoomResponse \<Rightarrow> JoinRoomResponse \<times> JoinRoomResponse" where
  "JoinRoomResponse_InternalSwap a b =
     (a\<lparr>jrs_status := jrs_status b, jrs_room_id := jrs_room_id b, jrs_unknown := jrs_unknown b\<rparr>,
      b\<lparr>jrs_status := jrs_status a, jrs_room_id := jrs_room_id a, jrs_unknown := jrs_unknown a\<rparr>)"

text \<open>What the wire can carry: UTF-8 strings of bounded length and no unknown fields.\<close>

definition JoinRoomResponse_wf :: "pb_rt \<Rightarrow> JoinRoomResponse \<Rightarrow> bool" where
  "JoinRoomResponse_wf rt m \<longleftrightarrow> jrs_unknown m = []"

lemma JoinRoomResponse_copy_id [simp]: "JoinRoomResponse_copy m = m"
  by (cases m) (simp add: JoinRoomResponse_copy_def JoinRoomResponse_SharedCtor_def)

lemma JoinRoomResponse_Clear_init [simp]: "JoinRoomResponse_Clear m = JoinRoomResponse_SharedCtor"
  by (cases m) (simp add: JoinRoomResponse_Clear_def JoinRoomResponse_SharedCtor_def)

lemma JoinRoomResponse_merge_init [simp]: "JoinRoomResponse_MergeFrom m JoinRoomResponse_SharedCtor = m"
  by (cases m) (simp add: JoinRoomResponse_MergeFrom_def JoinRoomResponse_SharedCtor_def)

lemma JoinRoomResponse_CopyFrom_eq [simp]: "JoinRoomResponse_CopyFrom from m = from"
  by (simp add: JoinRoomResponse_CopyFrom_def)

lemma JoinRoomResponse_InternalSwap_eq [simp]: "JoinRoomResponse_InternalSwap a b = (b, a)"
  by (cases a; cases b) (simp add: JoinRoomResponse_InternalSwap_def)

context pb_runtime
begin

lemma JoinRoomResponse_shrinks [wire_simps]: "shrinks (JoinRoomResponse_field rt)"
  by (auto simp: shrinks_def JoinRoomResponse_field_def split: if_splits dest: shrinks_intros)

lemma JoinRoomResponse_parse_Nil [wire_simps]: "JoinRoomResponse_InternalParse rt m [] = Ended m None"
  by (simp add: JoinRoomResponse_InternalParse_def parse_message_Nil)

lemma JoinRoomResponse_parse_status [wire_simps]:
  "JoinRoomResponse_InternalParse rt m (rt_WriteEnum rt 1 v @ r) = JoinRoomResponse_InternalParse rt (m\<lparr>jrs_status := v\<rparr>) r"
  unfolding JoinRoomResponse_InternalParse_def
  by (rule parse_message_enum [OF JoinRoomResponse_shrinks]) (simp_all add: JoinRoomResponse_field_def str_ok_def pb_size_limit_def)

lemma JoinRoomResponse_parse_last_status [wire_simps]:
  "JoinRoomResponse_InternalParse rt m (rt_WriteEnum rt 1 v) = Ended (m\<lparr>jrs_status := v\<rparr>) None"
  using JoinRoomResponse_parse_status [where v = v and m = m and r = "[]"] by (simp add: JoinRoomResponse_parse_Nil)

lemma JoinRoomResponse_parse_room_id [wire_simps]:
  "JoinRoomResponse_InternalParse rt m (rt_WriteInt32 rt 2 v @ r) = JoinRoomResponse_InternalParse rt (m\<lparr>jrs_room_id := v\<rparr>) r"
  unfolding JoinRoomResponse_InternalParse_def
  by (rule parse_message_int32 [OF JoinRoomResponse_shrinks]) (simp_all add: JoinRoomResponse_field_def str_ok_def pb_size_limit_def)

lemma JoinRoomResponse_parse_last_room_id [wire_simps]:
  "JoinRoomResponse_InternalParse rt m (rt_WriteInt32 rt 2 v) = Ended (m\<lparr>jrs_room_id := v\<rparr>) None"
  using JoinRoomResponse_parse_room_id [where v = v and m = m and r = "[]"] by (simp add: JoinRoomResponse_parse_Nil)

lemma JoinRoomResponse_total: "JoinRoomResponse_InternalParse rt m bs \<noteq> OutOfFuel"
  by (simp add: JoinRoomResponse_InternalParse_def JoinRoomResponse_shrinks parse_message_total)

lemma JoinRoomResponse_roundtrip [wire_simps]:
  "JoinRoomResponse_wf rt m \<Longrightarrow> JoinRoomResponse_InternalParse rt JoinRoomResponse_SharedCtor (JoinRoomResponse_InternalSerialize rt m) = Ended m None"
  by (cases m) (simp add: JoinRoomResponse_wf_def JoinRoomResponse_InternalSerialize_def JoinRoomResponse_SharedCtor_def wire_simps del: One_nat_def)

lemma JoinRoomResponse_size [wire_simps]:
  "JoinRoomResponse_wf rt m \<Longrightarrow> length (JoinRoomResponse_InternalSerialize rt m) = JoinRoomResponse_ByteSizeLong rt m"
  by (simp add: JoinRoomResponse_wf_def str_ok_def pb_size_limit_def JoinRoomResponse_InternalSerialize_def JoinRoomResponse_ByteSizeLong_def
      size_fixed32 size_fixed64 size_int32 size_enum size_string)

lemma JoinRoomResponse_small [wire_simps]: "JoinRoomResponse_wf rt m \<Longrightarrow> JoinRoomResponse_ByteSizeLong rt m < 1073741900"
  using varint_bound(2) [of "jrs_status m"] varint_bound(1) [of "jrs_room_id m"]
  by (simp add: JoinRoomResponse_wf_def str_ok_def pb_size_limit_def JoinRoomResponse_ByteSizeLong_def)

end

section \<open>TextResponse\<close>

record TextResponse =
  trs_login :: string
  trs_room_id :: int32
  trs_text :: string
  trs_unknown :: bytes

definition TextResponse_SharedCtor :: TextResponse where
  "TextResponse_SharedCtor = \<lparr>trs_login = [], trs_room_id = 0, trs_text = [], trs_unknown = []\<rparr>"

definition TextResponse_copy :: "TextResponse \<Rightarrow> TextResponse" where
  "TextResponse_copy from =
     TextResponse_SharedCtor\<lparr>trs_unknown := trs_unknown from,
       trs_login := (if trs_login from \<noteq> [] then trs_login from else []),
       trs_room_id := trs_room_id from,
       trs_text := (if trs_text from \<noteq> [] then trs_text from else [])\<rparr>"

definition TextResponse_set_login :: "string \<Rightarrow> TextResponse \<Rightarrow> TextResponse" where
  "TextResponse_set_login v m = m\<lparr>trs_login := v\<rparr>"

definition TextResponse_clear_login :: "TextResponse \<Rightarrow> TextResponse" where
  "TextResponse_clear_login m = m\<lparr>trs_login := []\<rparr>"

definition TextResponse_set_room_id :: "int32 \<Rightarrow> TextResponse \<Rightarrow> TextResponse" where
  "TextResponse_set_room_id v m = m\<lparr>trs_room_id := v\<rparr>"

definition TextResponse_clear_room_id :: "TextResponse \<Rightarrow> TextResponse" where
  "TextResponse_clear_room_id m = m\<lparr>trs_room_id := 0\<rparr>"

definition TextResponse_set_text :: "string \<Rightarrow> TextResponse \<Rightarrow> TextResponse" where
  "TextResponse_set_text v m = m\<lparr>trs_text := v\<rparr>"

definition TextResponse_clear_text :: "TextResponse \<Rightarrow> TextResponse" where
  "TextResponse_clear_text m = m\<lparr>trs_text := []\<rparr>"

definition TextResponse_Clear :: "TextResponse \<Rightarrow> TextResponse" where
  "TextResponse_Clear m = m\<lparr>trs_login := [], trs_room_id := 0, trs_text := [], trs_unknown := []\<rparr>"

definition TextResponse_field :: "pb_rt \<Rightarrow> uint32 \<Rightarrow> TextResponse \<Rightarrow> bytes \<Rightarrow> TextResponse field_result" where
  "TextResponse_field rt tag m bs =
     (if drop_bit 3 tag = 1 \<and> (ucast tag :: byte) = 10 then string_field rt trs_login trs_login_update m bs
      else if drop_bit 3 tag = 2 \<and> (ucast tag :: byte) = 16 then varint_field rt trs_room_id_update m bs
      else if drop_bit 3 tag = 3 \<and> (ucast tag :: byte) = 26 then string_field rt trs_text trs_text_update m bs
      else Unusual)"

definition TextResponse_InternalParse :: "pb_rt \<Rightarrow> TextResponse \<Rightarrow> bytes \<Rightarrow> TextResponse parse_result" where
  "TextResponse_InternalParse rt m bs = parse_message rt (TextResponse_field rt) trs_unknown trs_unknown_update m bs"

definition TextResponse_InternalSerialize :: "pb_rt \<Rightarrow> TextResponse \<Rightarrow> bytes" where
  "TextResponse_InternalSerialize rt m =
     (if trs_login m \<noteq> [] then rt_WriteString rt 1 (trs_login m) else []) @
     (if trs_room_id m \<noteq> 0 then rt_WriteInt32 rt 2 (trs_room_id m) else []) @
     (if trs_text m \<noteq> [] then rt_WriteString rt 3 (trs_text m) else []) @
     trs_unknown m"

definition TextResponse_ByteSizeLong :: "pb_rt \<Rightarrow> TextResponse \<Rightarrow> nat" where
  "TextResponse_ByteSizeLong rt m =
     (if trs_login m \<noteq> [] then 1 + rt_StringSize rt (trs_login m) else 0) +
     (if trs_text m \<noteq> [] then 1 + rt_StringSize rt (trs_text m) else 0) +
     (if trs_room_id m \<noteq> 0 then 1 + rt_Int32Size rt (trs_room_id m) else 0) +
     length (trs_unknown m)"

definition TextResponse_MergeFrom :: "TextResponse \<Rightarrow> TextResponse \<Rightarrow> TextResponse" where
  "TextResponse_MergeFrom from m = m\<lparr>trs_unknown := trs_unknown m @ trs_unknown from,
     trs_login := (if trs_login from \<noteq> [] then trs_login from else trs_login m),
     trs_text := (if trs_text from \<noteq> [] then trs_text from else trs_text m),
     trs_room_id := (if trs_room_id from \<noteq> 0 then trs_room_id from else trs_room_id m)\<rparr>"

definition TextResponse_CopyFrom :: "TextResponse \<Rightarrow> TextResponse \<Rightarrow> TextResponse" where
  "TextResponse_CopyFrom from m = TextResponse_MergeFrom from (TextResponse_Clear m)"

definition TextResponse_InternalSwap :: "TextResponse \<Rightarrow> TextResponse \<Rightarrow> TextResponse \<times> TextResponse" where
  "TextResponse_InternalSwap a b =
     (a\<lparr>trs_login := trs_login b, trs_room_id := trs_room_id b, trs_text := trs_text b, trs_unknown := trs_unknown b\<rparr>,
      b\<lparr>trs_login := trs_login a, trs_room_id := trs_room_id a, trs_text := trs_text a, trs_unknown := trs_unknown a\<rparr>)"

text \<open>What the wire can carry: UTF-8 strings of bounded length and no unknown fields.\<close>

definition TextResponse_wf :: "pb_rt \<Rightarrow> TextResponse \<Rightarrow> bool" where
  "TextResponse_wf rt m \<longleftrightarrow> str_ok rt (trs_login m) \<and> str_ok rt (trs_text m) \<and> trs_unknown m = []"

lemma TextResponse_copy_id [simp]: "TextResponse_copy m = m"
  by (cases m) (simp add: TextResponse_copy_def TextResponse_SharedCtor_def)

lemma TextResponse_Clear_init [simp]: "TextResponse_Clear m = TextResponse_SharedCtor"
  by (cases m) (simp add: TextResponse_Clear_def TextResponse_SharedCtor_def)

lemma TextResponse_merge_init [simp]: "TextResponse_MergeFrom m TextResponse_SharedCtor = m"
  by (cases m) (simp add: TextResponse_MergeFrom_def TextResponse_SharedCtor_def)

lemma TextResponse_CopyFrom_eq [simp]: "TextResponse_CopyFrom from m = from"
  by (simp add: TextResponse_CopyFrom_def)

lemma TextResponse_InternalSwap_eq [simp]: "TextResponse_InternalSwap a b = (b, a)"
  by (cases a; cases b) (simp add: TextResponse_InternalSwap_def)

context pb_runtime
begin

lemma TextResponse_shrinks [wire_simps]: "shrinks (TextResponse_field rt)"
  by (auto simp: shrinks_def TextResponse_field_def split: if_splits dest: shrinks_intros)

lemma TextResponse_parse_Nil [wire_simps]: "TextResponse_InternalParse rt m [] = Ended m None"
  by (simp add: TextResponse_InternalParse_def parse_message_Nil)

lemma TextResponse_parse_login [wire_simps]:
  "str_ok rt v \<Longrightarrow> TextResponse_InternalParse rt m (rt_WriteString rt 1 v @ r) = TextResponse_InternalParse rt (m\<lparr>trs_login := v\<rparr>) r"
  unfolding TextResponse_InternalParse_def
  by (rule parse_message_string [OF TextResponse_shrinks]) (simp_all add: TextResponse_field_def str_ok_def pb_size_limit_def)

lemma TextResponse_parse_last_login [wire_simps]:
  "str_ok rt v \<Longrightarrow> TextResponse_InternalParse rt m (rt_WriteString rt 1 v) = Ended (m\<lparr>trs_login := v\<rparr>) None"
  using TextResponse_parse_login [where v = v and m = m and r = "[]"] by (simp add: TextResponse_parse_Nil)

lemma TextResponse_parse_room_id [wire_simps]:
  "TextResponse_InternalParse rt m (rt_WriteInt32 rt 2 v @ r) = TextResponse_InternalParse rt (m\<lparr>trs_room_id := v\<rparr>) r"
  unfolding TextResponse_InternalParse_def
  by (rule parse_message_int32 [OF TextResponse_shrinks]) (simp_all add: TextResponse_field_def str_ok_def pb_size_limit_def)

lemma TextResponse_parse_last_room_id [wire_simps]:
  "TextResponse_InternalParse rt m (rt_WriteInt32 rt 2 v) = Ended (m\<lparr>trs_room_id := v\<rparr>) None"
  using TextResponse_parse_room_id [where v = v and m = m and r = "[]"] by (simp add: TextResponse_parse_Nil)

lemma TextResponse_parse_text [wire_simps]:
  "str_ok rt v \<Longrightarrow> TextResponse_InternalParse rt m (rt_WriteString rt 3 v @ r) = TextResponse_InternalParse rt (m\<lparr>trs_text := v\<rparr>) r"
  unfolding TextResponse_InternalParse_def
  by (rule parse_message_string [OF TextResponse_shrinks]) (simp_all add: TextResponse_field_def str_ok_def pb_size_limit_def)

lemma TextResponse_parse_last_text [wire_simps]:
  "str_ok rt v \<Longrightarrow> TextResponse_InternalParse rt m (rt_WriteString rt 3 v) = Ended (m\<lparr>trs_text := v\<rparr>) None"
  using TextResponse_parse_text [where v = v and m = m and r = "[]"] by (simp add: TextResponse_parse_Nil)

lemma TextResponse_total: "TextResponse_InternalParse rt m bs \<noteq> OutOfFuel"
  by (simp add: TextResponse_InternalParse_def TextResponse_shrinks parse_message_total)

lemma TextResponse_roundtrip [wire_simps]:
  "TextResponse_wf rt m \<Longrightarrow> TextResponse_InternalParse rt TextResponse_SharedCtor (TextResponse_InternalSerialize rt m) = Ended m None"
  by (cases m) (simp add: TextResponse_wf_def TextResponse_InternalSerialize_def TextResponse_SharedCtor_def wire_simps del: One_nat_def)

lemma TextResponse_size [wire_simps]:
  "TextResponse_wf rt m \<Longrightarrow> length (TextResponse_InternalSerialize rt m) = TextResponse_ByteSizeLong rt m"
  by (simp add: TextResponse_wf_def str_ok_def pb_size_limit_def TextResponse_InternalSerialize_def TextResponse_ByteSizeLong_def
      size_fixed32 size_fixed64 size_int32 size_enum size_string)

lemma TextResponse_small [wire_simps]: "TextResponse_wf rt m \<Longrightarrow> TextResponse_ByteSizeLong rt m < 1073741900"
  using string_bound [of "trs_login m"] string_bound [of "trs_text m"] varint_bound(1) [of "trs_room_id m"]
  by (simp add: TextResponse_wf_def str_ok_def pb_size_limit_def TextResponse_ByteSizeLong_def)

end

section \<open>Response\<close>

text \<open>The slot of the \<open>oneof\<close>: its case tag and the message it owns.\<close>

datatype Response_msg = Response_MSG_NOT_SET
  | kInputResponse InputResponse
  | kRegResponse RegResponse
  | kJoinRoomResponse JoinRoomResponse
  | kTextResponse TextResponse

record Response =
  res_msg :: Response_msg
  res_unknown :: bytes

definition Response_SharedCtor :: Response where
  "Response_SharedCtor = \<lparr>res_msg = Response_MSG_NOT_SET, res_unknown = []\<rparr>"

definition Response_clear_msg :: "Response \<Rightarrow> Response" where
  "Response_clear_msg m = m\<lparr>res_msg := Response_MSG_NOT_SET\<rparr>"

definition Response_has_input_response :: "Response \<Rightarrow> bool" where
  "Response_has_input_response m = (case res_msg m of kInputResponse x \<Rightarrow> True | _ \<Rightarrow> False)"

definition Response_input_response :: "Response \<Rightarrow> InputResponse" where
  "Response_input_response m = (case res_msg m of kInputResponse x \<Rightarrow> x | _ \<Rightarrow> InputResponse_SharedCtor)"

definition Response_mutable_input_response :: "Response \<Rightarrow> Response" where
  "Response_mutable_input_response m =
     (if Response_has_input_response m then m else (Response_clear_msg m)\<lparr>res_msg := kInputResponse InputResponse_SharedCtor\<rparr>)"

definition Response_set_allocated_input_response :: "InputResponse option \<Rightarrow> Response \<Rightarrow> Response" where
  "Response_set_allocated_input_response ptr m =
     (case ptr of None \<Rightarrow> Response_clear_msg m | Some x \<Rightarrow> (Response_clear_msg m)\<lparr>res_msg := kInputResponse x\<rparr>)"

definition Response_release_input_response :: "Response \<Rightarrow> InputResponse option \<times> Response" where
  "Response_release_input_response m =
     (if Response_has_input_response m then (Some (Response_input_response m), m\<lparr>res_msg := Response_MSG_NOT_SET\<rparr>) else (None, m))"

definition Response_clear_input_response :: "Response \<Rightarrow> Response" where
  "Response_clear_input_response m = (if Response_has_input_response m then m\<lparr>res_msg := Response_MSG_NOT_SET\<rparr> else m)"

definition Response_has_reg_response :: "Response \<Rightarrow> bool" where
  "Response_has_reg_response m = (case res_msg m of kRegResponse x \<Rightarrow> True | _ \<Rightarrow> False)"

definition Response_reg_response :: "Response \<Rightarrow> RegResponse" where
  "Response_reg_response m = (case res_msg m of kRegResponse x \<Rightarrow> x | _ \<Rightarrow> RegResponse_SharedCtor)"

definition Response_mutable_reg_response :: "Response \<Rightarrow> Response" where
  "Response_mutable_reg_response m =
     (if Response_has_reg_response m then m else (Response_clear_msg m)\<lparr>res_msg := kRegResponse RegResponse_SharedCtor\<rparr>)"

definition Response_set_allocated_reg_response :: "RegResponse option \<Rightarrow> Response \<Rightarrow> Response" where
  "Response_set_allocated_reg_response ptr m =
     (case ptr of None \<Rightarrow> Response_clear_msg m | Some x \<Rightarrow> (Response_clear_msg m)\<lparr>res_msg := kRegResponse x\<rparr>)"

definition Response_release_reg_response :: "Response \<Rightarrow> RegResponse option \<times> Response" where
  "Response_release_reg_response m =
     (if Response_has_reg_response m then (Some (Response_reg_response m), m\<lparr>res_msg := Response_MSG_NOT_SET\<rparr>) else (None, m))"

definition Response_clear_reg_response :: "Response \<Rightarrow> Response" where
  "Response_clear_reg_response m = (if Response_has_reg_response m then m\<lparr>res_msg := Response_MSG_NOT_SET\<rparr> else m)"

definition Response_has_join_room_response :: "Response \<Rightarrow> bool" where
  "Response_has_join_room_response m = (case res_msg m of kJoinRoomResponse x \<Rightarrow> True | _ \<Rightarrow> False)"

definition Response_join_room_response :: "Response \<Rightarrow> JoinRoomResponse" where
  "Response_join_room_response m = (case res_msg m of kJoinRoomResponse x \<Rightarrow> x | _ \<Rightarrow> JoinRoomResponse_SharedCtor)"

definition Response_mutable_join_room_response :: "Response \<Rightarrow> Response" where
  "Response_mutable_join_room_response m =
     (if Response_has_join_room_response m then m else (Response_clear_msg m)\<lparr>res_msg := kJoinRoomResponse JoinRoomResponse_SharedCtor\<rparr>)"

definition Response_set_allocated_join_room_response :: "JoinRoomResponse option \<Rightarrow> Response \<Rightarrow> Response" where
  "Response_set_allocated_join_room_response ptr m =
     (case ptr of None \<Rightarrow> Response_clear_msg m | Some x \<Rightarrow> (Response_clear_msg m)\<lparr>res_msg := kJoinRoomResponse x\<rparr>)"

definition Response_release_join_room_response :: "Response \<Rightarrow> JoinRoomResponse option \<times> Response" where
  "Response_release_join_room_response m =
     (if Response_has_join_room_response m then (Some (Response_join_room_response m), m\<lparr>res_msg := Response_MSG_NOT_SET\<rparr>) else (None, m))"

definition Response_clear_join_room_response :: "Response \<Rightarrow> Response" where
  "Response_clear_join_room_response m = (if Response_has_join_room_response m then m\<lparr>res_msg := Response_MSG_NOT_SET\<rparr> else m)"

definition Response_has_text_response :: "Response \<Rightarrow> bool" where
  "Response_has_text_response m = (case res_msg m of kTextResponse x \<Rightarrow> True | _ \<Rightarrow> False)"

definition Response_text_response :: "Response \<Rightarrow> TextResponse" where
  "Response_text_response m = (case res_msg m of kTextResponse x \<Rightarrow> x | _ \<Rightarrow> TextResponse_SharedCtor)"

definition Response_mutable_text_response :: "Response \<Rightarrow> Response" where
  "Response_mutable_text_response m =
     (if Response_has_text_response m then m else (Response_clear_msg m)\<lparr>res_msg := kTextResponse TextResponse_SharedCtor\<rparr>)"

definition Response_set_allocated_text_response :: "TextResponse option \<Rightarrow> Response \<Rightarrow> Response" where
  "Response_set_allocated_text_response ptr m =
     (case ptr of None \<Rightarrow> Response_clear_msg m | Some x \<Rightarrow> (Response_clear_msg m)\<lparr>res_msg := kTextResponse x\<rparr>)"

definition Response_release_text_response :: "Response \<Rightarrow> TextResponse option \<times> Response" where
  "Response_release_text_response m =
     (if Response_has_text_response m then (Some (Response_text_response m), m\<lparr>res_msg := Response_MSG_NOT_SET\<rparr>) else (None, m))"

definition Response_clear_text_response :: "Response \<Rightarrow> Response" where
  "Response_clear_text_response m = (if Response_has_text_response m then m\<lparr>res_msg := Response_MSG_NOT_SET\<rparr> else m)"

definition Response_has_msg :: "Response \<Rightarrow> bool" where
  "Response_has_msg m \<longleftrightarrow> res_msg m \<noteq> Response_MSG_NOT_SET"

definition Response_MergeFrom :: "Response \<Rightarrow> Response \<Rightarrow> Response" where
  "Response_MergeFrom from m =
     (let m0 = m\<lparr>res_unknown := res_unknown m @ res_unknown from\<rparr>
      in case res_msg from of
        kInputResponse x \<Rightarrow> let m1 = Response_mutable_input_response m0 in m1\<lparr>res_msg := kInputResponse (InputResponse_MergeFrom x (Response_input_response m1))\<rparr>
      | kRegResponse x \<Rightarrow> let m1 = Response_mutable_reg_response m0 in m1\<lparr>res_msg := kRegResponse (RegResponse_MergeFrom x (Response_reg_response m1))\<rparr>
      | kJoinRoomResponse x \<Rightarrow> let m1 = Response_mutable_join_room_response m0 in m1\<lparr>res_msg := kJoinRoomResponse (JoinRoomResponse_MergeFrom x (Response_join_room_response m1))\<rparr>
      | kTextResponse x \<Rightarrow> let m1 = Response_mutable_text_response m0 in m1\<lparr>res_msg := kTextResponse (TextResponse_MergeFrom x (Response_text_response m1))\<rparr>
      | Response_MSG_NOT_SET \<Rightarrow> m0)"

definition Response_copy :: "Response \<Rightarrow> Response" where
  "Response_copy from =
     (let m0 = Response_SharedCtor\<lparr>res_unknown := res_unknown from\<rparr>
      in case res_msg from of
        kInputResponse x \<Rightarrow> let m1 = Response_mutable_input_response m0 in m1\<lparr>res_msg := kInputResponse (InputResponse_MergeFrom x (Response_input_response m1))\<rparr>
      | kRegResponse x \<Rightarrow> let m1 = Response_mutable_reg_response m0 in m1\<lparr>res_msg := kRegResponse (RegResponse_MergeFrom x (Response_reg_response m1))\<rparr>
      | kJoinRoomResponse x \<Rightarrow> let m1 = Response_mutable_join_room_response m0 in m1\<lparr>res_msg := kJoinRoomResponse (JoinRoomResponse_MergeFrom x (Response_join_room_response m1))\<rparr>
      | kTextResponse x \<Rightarrow> let m1 = Response_mutable_text_response m0 in m1\<lparr>res_msg := kTextResponse (TextResponse_MergeFrom x (Response_text_response m1))\<rparr>
      | Response_MSG_NOT_SET \<Rightarrow> m0)"

definition Response_Clear :: "Response \<Rightarrow> Response" where
  "Response_Clear m = (Response_clear_msg m)\<lparr>res_unknown := []\<rparr>"

definition Response_field :: "pb_rt \<Rightarrow> uint32 \<Rightarrow> Response \<Rightarrow> bytes \<Rightarrow> Response field_result" where
  "Response_field rt tag m bs =
     (if drop_bit 3 tag = 1 \<and> (ucast tag :: byte) = 10 then
        (let m1 = Response_mutable_input_response m
         in message_field rt (InputResponse_InternalParse rt) (Response_input_response m1) (\<lambda>x. m1\<lparr>res_msg := kInputResponse x\<rparr>) bs)
      else if drop_bit 3 tag = 2 \<and> (ucast tag :: byte) = 18 then
        (let m1 = Response_mutable_reg_response m
         in message_field rt (RegResponse_InternalParse rt) (Response_reg_response m1) (\<lambda>x. m1\<lparr>res_msg := kRegResponse x\<rparr>) bs)
      else if drop_bit 3 tag = 3 \<and> (ucast tag :: byte) = 26 then
        (let m1 = Response_mutable_join_room_response m
         in message_field rt (JoinRoomResponse_InternalParse rt) (Response_join_room_response m1) (\<lambda>x. m1\<lparr>res_msg := kJoinRoomResponse x\<rparr>) bs)
      else if drop_bit 3 tag = 4 \<and> (ucast tag :: byte) = 34 then
        (let m1 = Response_mutable_text_response m
         in message_field rt (TextResponse_InternalParse rt) (Response_text_response m1) (\<lambda>x. m1\<lparr>res_msg := kTextResponse x\<rparr>) bs)
      else Unusual)"

definition Response_InternalParse :: "pb_rt \<Rightarrow> Response \<Rightarrow> bytes \<Rightarrow> Response parse_result" where
  "Response_InternalParse rt m bs = parse_message rt (Response_field rt) res_unknown res_unknown_update m bs"

definition Response_InternalSerialize :: "pb_rt \<Rightarrow> Response \<Rightarrow> bytes" where
  "Response_InternalSerialize rt m =
     (if Response_has_input_response m then rt_WriteMessage rt 1 (InputResponse_InternalSerialize rt (Response_input_response m)) else []) @
     (if Response_has_reg_response m then rt_WriteMessage rt 2 (RegResponse_InternalSerialize rt (Response_reg_response m)) else []) @
     (if Response_has_join_room_response m then rt_WriteMessage rt 3 (JoinRoomResponse_InternalSerialize rt (Response_join_room_response m)) else []) @
     (if Response_has_text_response m then rt_WriteMessage rt 4 (TextResponse_InternalSerialize rt (Response_text_response m)) else []) @
     res_unknown m"

definition Response_ByteSizeLong :: "pb_rt \<Rightarrow> Response \<Rightarrow> nat" where
  "Response_ByteSizeLong rt m =
     (case res_msg m of
        kInputResponse x \<Rightarrow> 1 + rt_MessageSize rt (InputResponse_ByteSizeLong rt x)
      | kRegResponse x \<Rightarrow> 1 + rt_MessageSize rt (RegResponse_ByteSizeLong rt x)
      | kJoinRoomResponse x \<Rightarrow> 1 + rt_MessageSize rt (JoinRoomResponse_ByteSizeLong rt x)
      | kTextResponse x \<Rightarrow> 1 + rt_MessageSize rt (TextResponse_ByteSizeLong rt x)
      | Response_MSG_NOT_SET \<Rightarrow> 0) +
     length (res_unknown m)"

definition Response_CopyFrom :: "Response \<Rightarrow> Response \<Rightarrow> Response" where
  "Response_CopyFrom from m = Response_MergeFrom from (Response_Clear m)"

definition Response_InternalSwap :: "Response \<Rightarrow> Response \<Rightarrow> Response \<times> Response" where
  "Response_InternalSwap a b =
     (a\<lparr>res_msg := res_msg b, res_unknown := res_unknown b\<rparr>,
      b\<lparr>res_msg := res_msg a, res_unknown := res_unknown a\<rparr>)"

definition Response_wf :: "pb_rt \<Rightarrow> Response \<Rightarrow> bool" where
  "Response_wf rt m \<longleftrightarrow> res_unknown m = [] \<and>
     (case res_msg m of
        kInputResponse x \<Rightarrow> InputResponse_wf rt x
      | kRegResponse x \<Rightarrow> RegResponse_wf rt x
      | kJoinRoomResponse x \<Rightarrow> JoinRoomResponse_wf rt x
      | kTextResponse x \<Rightarrow> TextResponse_wf rt x
      | Response_MSG_NOT_SET \<Rightarrow> True)"

lemmas Response_slot_defs = Response_clear_msg_def Response_has_input_response_def Response_input_response_def Response_mutable_input_response_def Response_has_reg_response_def Response_reg_response_def Response_mutable_reg_response_def Response_has_join_room_response_def Response_join_room_response_def Response_mutable_join_room_response_def Response_has_text_response_def Response_text_response_def Response_mutable_text_response_def

lemma Response_Clear_init [simp]: "Response_Clear m = Response_SharedCtor"
  by (cases m) (simp add: Response_Clear_def Response_clear_msg_def Response_SharedCtor_def)

lemma Response_merge_init [simp]: "Response_MergeFrom m Response_SharedCtor = m"
  by (cases m; cases "res_msg m") (simp_all add: Response_MergeFrom_def Response_SharedCtor_def Response_slot_defs)

lemma Response_copy_id [simp]: "Response_copy m = m"
  by (cases m; cases "res_msg m") (simp_all add: Response_copy_def Response_SharedCtor_def Response_slot_defs)

lemma Response_CopyFrom_eq [simp]: "Response_CopyFrom from m = from"
  by (simp add: Response_CopyFrom_def)

lemma Response_InternalSwap_eq [simp]: "Response_InternalSwap a b = (b, a)"
  by (cases a; cases b) (simp add: Response_InternalSwap_def)

context pb_runtime
begin

lemma Response_shrinks [wire_simps]: "shrinks (Response_field rt)"
  by (auto simp: shrinks_def Response_field_def Let_def message_field_ends InputResponse_total RegResponse_total JoinRoomResponse_total TextResponse_total
      split: if_splits dest: shrinks_intros)

lemma Response_parse_Nil [wire_simps]: "Response_InternalParse rt m [] = Ended m None"
  by (simp add: Response_InternalParse_def parse_message_Nil)

lemma Response_parse_input_response [wire_simps]:
  assumes "InputResponse_wf rt x" and "res_msg m = Response_MSG_NOT_SET"
  shows "Response_InternalParse rt m (rt_WriteMessage rt 1 (InputResponse_InternalSerialize rt x) @ r) =
    Response_InternalParse rt (m\<lparr>res_msg := kInputResponse x\<rparr>) r"
proof -
  have "length (InputResponse_InternalSerialize rt x) < pb_size_limit"
    using InputResponse_small [OF assms(1)] by (simp add: InputResponse_size [OF assms(1)] pb_size_limit_def)
  then have "parse_message rt (Response_field rt) res_unknown res_unknown_update m
      (rt_WriteMessage rt 1 (InputResponse_InternalSerialize rt x) @ r) =
    parse_message rt (Response_field rt) res_unknown res_unknown_update (m\<lparr>res_msg := kInputResponse x\<rparr>) r"
    using assms
    by (intro parse_message_sub [OF Response_shrinks, where inner = "InputResponse_InternalParse rt" and sub = InputResponse_SharedCtor
          and put = "\<lambda>x. m\<lparr>res_msg := kInputResponse x\<rparr>"])
      (simp_all add: Response_field_def Response_slot_defs InputResponse_roundtrip)
  then show ?thesis by (simp add: Response_InternalParse_def)
qed

lemma Response_parse_last_input_response [wire_simps]:
  "InputResponse_wf rt x \<Longrightarrow> res_msg m = Response_MSG_NOT_SET \<Longrightarrow>
    Response_InternalParse rt m (rt_WriteMessage rt 1 (InputResponse_InternalSerialize rt x)) =
    Ended (m\<lparr>res_msg := kInputResponse x\<rparr>) None"
  using Response_parse_input_response [where x = x and m = m and r = "[]"] by (simp add: Response_parse_Nil)

lemma Response_parse_reg_response [wire_simps]:
  assumes "RegResponse_wf rt x" and "res_msg m = Response_MSG_NOT_SET"
  shows "Response_InternalParse rt m (rt_WriteMessage rt 2 (RegResponse_InternalSerialize rt x) @ r) =
    Response_InternalParse rt (m\<lparr>res_msg := kRegResponse x\<rparr>) r"
proof -
  have "length (RegResponse_InternalSerialize rt x) < pb_size_limit"
    using RegResponse_small [OF assms(1)] by (simp add: RegResponse_size [OF assms(1)] pb_size_limit_def)
  then have "parse_message rt (Response_field rt) res_unknown res_unknown_update m
      (rt_WriteMessage rt 2 (RegResponse_InternalSerialize rt x) @ r) =
    parse_message rt (Response_field rt) res_unknown res_unknown_update (m\<lparr>res_msg := kRegResponse x\<rparr>) r"
    using assms
    by (intro parse_message_sub [OF Response_shrinks, where inner = "RegResponse_InternalParse rt" and sub = RegResponse_SharedCtor
          and put = "\<lambda>x. m\<lparr>res_msg := kRegResponse x\<rparr>"])
      (simp_all add: Response_field_def Response_slot_defs RegResponse_roundtrip)
  then show ?thesis by (simp add: Response_InternalParse_def)
qed

lemma Response_parse_last_reg_response [wire_simps]:
  "RegResponse_wf rt x \<Longrightarrow> res_msg m = Response_MSG_NOT_SET \<Longrightarrow>
    Response_InternalParse rt m (rt_WriteMessage rt 2 (RegResponse_InternalSerialize rt x)) =
    Ended (m\<lparr>res_msg := kRegResponse x\<rparr>) None"
  using Response_parse_reg_response [where x = x and m = m and r = "[]"] by (simp add: Response_parse_Nil)

lemma Response_parse_join_room_response [wire_simps]:
  assumes "JoinRoomResponse_wf rt x" and "res_msg m = Response_MSG_NOT_SET"
  shows "Response_InternalParse rt m (rt_WriteMessage rt 3 (JoinRoomResponse_InternalSerialize rt x) @ r) =
    Response_InternalParse rt (m\<lparr>res_msg := kJoinRoomResponse x\<rparr>) r"
proof -
  have "length (JoinRoomResponse_InternalSerialize rt x) < pb_size_limit"
    using JoinRoomResponse_small [OF assms(1)] by (simp add: JoinRoomResponse_size [OF assms(1)] pb_size_limit_def)
  then have "parse_message rt (Response_field rt) res_unknown res_unknown_update m
      (rt_WriteMessage rt 3 (JoinRoomResponse_InternalSerialize rt x) @ r) =
    parse_message rt (Response_field rt) res_unknown res_unknown_update (m\<lparr>res_msg := kJoinRoomResponse x\<rparr>) r"
    using assms
    by (intro parse_message_sub [OF Response_shrinks, where inner = "JoinRoomResponse_InternalParse rt" and sub = JoinRoomResponse_SharedCtor
          and put = "\<lambda>x. m\<lparr>res_msg := kJoinRoomResponse x\<rparr>"])
      (simp_all add: Response_field_def Response_slot_defs JoinRoomResponse_roundtrip)
  then show ?thesis by (simp add: Response_InternalParse_def)
qed

lemma Response_parse_last_join_room_response [wire_simps]:
  "JoinRoomResponse_wf rt x \<Longrightarrow> res_msg m = Response_MSG_NOT_SET \<Longrightarrow>
    Response_InternalParse rt m (rt_WriteMessage rt 3 (JoinRoomResponse_InternalSerialize rt x)) =
    Ended (m\<lparr>res_msg := kJoinRoomResponse x\<rparr>) None"
  using Response_parse_join_room_response [where x = x and m = m and r = "[]"] by (simp add: Response_parse_Nil)

lemma Response_parse_text_response [wire_simps]:
  assumes "TextResponse_wf rt x" and "res_msg m = Response_MSG_NOT_SET"
  shows "Response_InternalParse rt m (rt_WriteMessage rt 4 (TextResponse_InternalSerialize rt x) @ r) =
    Response_InternalParse rt (m\<lparr>res_msg := kTextResponse x\<rparr>) r"
proof -
  have "length (TextResponse_InternalSerialize rt x) < pb_size_limit"
    using TextResponse_small [OF assms(1)] by (simp add: TextResponse_size [OF assms(1)] pb_size_limit_def)
  then have "parse_message rt (Response_field rt) res_unknown res_unknown_update m
      (rt_WriteMessage rt 4 (TextResponse_InternalSerialize rt x) @ r) =
    parse_message rt (Response_field rt) res_unknown res_unknown_update (m\<lparr>res_msg := kTextResponse x\<rparr>) r"
    using assms
    by (intro parse_message_sub [OF Response_shrinks, where inner = "TextResponse_InternalParse rt" and sub = TextResponse_SharedCtor
          and put = "\<lambda>x. m\<lparr>res_msg := kTextResponse x\<rparr>"])
      (simp_all add: Response_field_def Response_slot_defs TextResponse_roundtrip)
  then show ?thesis by (simp add: Response_InternalParse_def)
qed

lemma Response_parse_last_text_response [wire_simps]:
  "TextResponse_wf rt x \<Longrightarrow> res_msg m = Response_MSG_NOT_SET \<Longrightarrow>
    Response_InternalParse rt m (rt_WriteMessage rt 4 (TextResponse_InternalSerialize rt x)) =
    Ended (m\<lparr>res_msg := kTextResponse x\<rparr>) None"
  using Response_parse_text_response [where x = x and m = m and r = "[]"] by (simp add: Response_parse_Nil)

lemma Response_total: "Response_InternalParse rt m bs \<noteq> OutOfFuel"
  by (simp add: Response_InternalParse_def Response_shrinks parse_message_total)

lemma Response_roundtrip [wire_simps]:
  "Response_wf rt m \<Longrightarrow> Response_InternalParse rt Response_SharedCtor (Response_InternalSerialize rt m) = Ended m None"
  by (cases m; cases "res_msg m")
    (simp_all add: Response_wf_def Response_InternalSerialize_def Response_SharedCtor_def Response_slot_defs wire_simps del: One_nat_def)

lemma Response_size [wire_simps]:
  assumes "Response_wf rt m"
  shows "length (Response_InternalSerialize rt m) = Response_ByteSizeLong rt m"
proof (cases "res_msg m")
  case (kInputResponse x)
  with assms have "InputResponse_wf rt x" and "res_unknown m = []" by (simp_all add: Response_wf_def)
  with InputResponse_small [OF this(1)] kInputResponse show ?thesis
    by (simp add: Response_InternalSerialize_def Response_ByteSizeLong_def Response_slot_defs size_message InputResponse_size pb_size_limit_def)
next
  case (kRegResponse x)
  with assms have "RegResponse_wf rt x" and "res_unknown m = []" by (simp_all add: Response_wf_def)
  with RegResponse_small [OF this(1)] kRegResponse show ?thesis
    by (simp add: Response_InternalSerialize_def Response_ByteSizeLong_def Response_slot_defs size_message RegResponse_size pb_size_limit_def)
next
  case (kJoinRoomResponse x)
  with assms have "JoinRoomResponse_wf rt x" and "res_unknown m = []" by (simp_all add: Response_wf_def)
  with JoinRoomResponse_small [OF this(1)] kJoinRoomResponse show ?thesis
    by (simp add: Response_InternalSerialize_def Response_ByteSizeLong_def Response_slot_defs size_message JoinRoomResponse_size pb_size_limit_def)
next
  case (kTextResponse x)
  with assms have "TextResponse_wf rt x" and "res_unknown m = []" by (simp_all add: Response_wf_def)
  with TextResponse_small [OF this(1)] kTextResponse show ?thesis
    by (simp add: Response_InternalSerialize_def Response_ByteSizeLong_def Response_slot_defs size_message TextResponse_size pb_size_limit_def)
next
  case Response_MSG_NOT_SET
  with assms show ?thesis
    by (simp add: Response_wf_def Response_InternalSerialize_def Response_ByteSizeLong_def Response_slot_defs)
qed

lemma Response_small [wire_simps]: "Response_wf rt m \<Longrightarrow> Response_ByteSizeLong rt m < 1073741910"
proof (cases "res_msg m")
  case (kInputResponse x)
  moreover assume "Response_wf rt m"
  ultimately show ?thesis
    using InputResponse_small [of x] message_bound [of "InputResponse_ByteSizeLong rt x"]
    by (simp add: Response_wf_def Response_ByteSizeLong_def pb_size_limit_def)
next
  case (kRegResponse x)
  moreover assume "Response_wf rt m"
  ultimately show ?thesis
    using RegResponse_small [of x] message_bound [of "RegResponse_ByteSizeLong rt x"]
    by (simp add: Response_wf_def Response_ByteSizeLong_def pb_size_limit_def)
next
  case (kJoinRoomResponse x)
  moreover assume "Response_wf rt m"
  ultimately show ?thesis
    using JoinRoomResponse_small [of x] message_bound [of "JoinRoomResponse_ByteSizeLong rt x"]
    by (simp add: Response_wf_def Response_ByteSizeLong_def pb_size_limit_def)
next
  case (kTextResponse x)
  moreover assume "Response_wf rt m"
  ultimately show ?thesis
    using TextResponse_small [of x] message_bound [of "TextResponse_ByteSizeLong rt x"]
    by (simp add: Response_wf_def Response_ByteSizeLong_def pb_size_limit_def)
next
  case Response_MSG_NOT_SET
  moreover assume "Response_wf rt m"
  ultimately show ?thesis by (simp add: Response_wf_def Response_ByteSizeLong_def)
qed

end

end
