(* ===== verification/MessagesPb.thy ===== *)
theory MessagesPb
  imports RequestPb ResponsePb
begin

text \<open>
  The messages of \<open>messages.proto\<close>: the frame header with its three fixed-width fields, and the
  \<open>WrappedMessage\<close> that \<open>proto/build/messages.pb.cc\<close> also generates (no other code uses it).
\<close>

section \<open>Header\<close>

record Header =
  hdr_version :: uint32
  hdr_command :: uint32
  hdr_length :: uint64
  hdr_unknown :: bytes

definition Header_SharedCtor :: Header where
  "Header_SharedCtor = \<lparr>hdr_version = 0, hdr_command = 0, hdr_length = 0, hdr_unknown = []\<rparr>"

definition Header_copy :: "Header \<Rightarrow> Header" where
  "Header_copy from =
     Header_SharedCtor\<lparr>hdr_unknown := hdr_unknown from,
       hdr_version := hdr_version from,
       hdr_command := hdr_command from,
       hdr_length := hdr_length from\<rparr>"

definition Header_set_version :: "uint32 \<Rightarrow> Header \<Rightarrow> Header" where
  "Header_set_version v m = m\<lparr>hdr_version := v\<rparr>"

definition Header_clear_version :: "Header \<Rightarrow> Header" where
  "Header_clear_version m = m\<lparr>hdr_version := 0\<rparr>"

definition Header_set_command :: "uint32 \<Rightarrow> Header \<Rightarrow> Header" where
  "Header_set_command v m = m\<lparr>hdr_command := v\<rparr>"

definition Header_clear_command :: "Header \<Rightarrow> Header" where
  "Header_clear_command m = m\<lparr>hdr_command := 0\<rparr>"

definition Header_set_length :: "uint64 \<Rightarrow> Header \<Rightarrow> Header" where
  "Header_set_length v m = m\<lparr>hdr_length := v\<rparr>"

definition Header_clear_length :: "Header \<Rightarrow> Header" where
  "Header_clear_length m = m\<lparr>hdr_length := 0\<rparr>"

definition Header_Clear :: "Header \<Rightarrow> Header" where
  "Header_Clear m = m\<lparr>hdr_version := 0, hdr_command := 0, hdr_length := 0, hdr_unknown := []\<rparr>"

definition Header_field :: "pb_rt \<Rightarrow> uint32 \<Rightarrow> Header \<Rightarrow> bytes \<Rightarrow> Header field_result" where
  "Header_field rt tag m bs =
     (if drop_bit 3 tag = 1 \<and> (ucast tag :: byte) = 13 then fixed32_field rt hdr_version_update m bs
      else if drop_bit 3 tag = 2 \<and> (ucast tag :: byte) = 21 then fixed32_field rt hdr_command_update m bs
      else if drop_bit 3 tag = 3 \<and> (ucast tag :: byte) = 25 then fixed64_field rt hdr_length_update m bs
      else Unusual)"

definition Header_InternalParse :: "pb_rt \<Rightarrow> Header \<Rightarrow> bytes \<Rightarrow> Header parse_result" where
  "Header_InternalParse rt m bs = parse_message rt (Header_field rt) hdr_unknown hdr_unknown_update m bs"

definition Header_InternalSerialize :: "pb_rt \<Rightarrow> Header \<Rightarrow> bytes" where
  "Header_InternalSerialize rt m =
     (if hdr_version m \<noteq> 0 then rt_WriteFixed32 rt 1 (hdr_version m) else []) @
     (if hdr_command m \<noteq> 0 then rt_WriteFixed32 rt 2 (hdr_command m) else []) @
     (if hdr_length m \<noteq> 0 then rt_WriteFixed64 rt 3 (hdr_length m) else []) @
     hdr_unknown m"

definition Header_ByteSizeLong :: "pb_rt \<Rightarrow> Header \<Rightarrow> nat" where
  "Header_ByteSizeLong rt m =
     (if hdr_version m \<noteq> 0 then 1 + 4 else 0) +
     (if hdr_command m \<noteq> 0 then 1 + 4 else 0) +
     (if hdr_length m \<noteq> 0 then 1 + 8 else 0) +
     length (hdr_unknown m)"

definition Header_MergeFrom :: "Header \<Rightarrow> Header \<Rightarrow> Header" where
  "Header_MergeFrom from m = m\<lparr>hdr_unknown := hdr_unknown m @ hdr_unknown from,
     hdr_version := (if hdr_version from \<noteq> 0 then hdr_version from else hdr_version m),
     hdr_command := (if hdr_command from \<noteq> 0 then hdr_command from else hdr_command m),
     hdr_length := (if hdr_length from \<noteq> 0 then hdr_length from else hdr_length m)\<rparr>"

definition Header_CopyFrom :: "Header \<Rightarrow> Header \<Rightarrow> Header" where
  "Header_CopyFrom from m = Header_MergeFrom from (Header_Clear m)"

definition Header_InternalSwap :: "Header \<Rightarrow> Header \<Rightarrow> Header \<times> Header" where
  "Header_InternalSwap a b =
     (a\<lparr>hdr_version := hdr_version b, hdr_command := hdr_command b, hdr_length := hdr_length b, hdr_unknown := hdr_unknown b\<rparr>,
      b\<lparr>hdr_version := hdr_version a, hdr_command := hdr_command a, hdr_length := hdr_length a, hdr_unknown := hdr_unknown a\<rparr>)"

text \<open>What the wire can carry: UTF-8 strings of bounded length and no unknown fields.\<close>

definition Header_wf :: "pb_rt \<Rightarrow> Header \<Rightarrow> bool" where
  "Header_wf rt m \<longleftrightarrow> hdr_unknown m = []"

lemma Header_copy_id [simp]: "Header_copy m = m"
  by (cases m) (simp add: Header_copy_def Header_SharedCtor_def)

lemma Header_Clear_init [simp]: "Header_Clear m = Header_SharedCtor"
  by (cases m) (simp add: Header_Clear_def Header_SharedCtor_def)

lemma Header_merge_init [simp]: "Header_MergeFrom m Header_SharedCtor = m"
  by (cases m) (simp add: Header_MergeFrom_def Header_SharedCtor_def)

lemma Header_CopyFrom_eq [simp]: "Header_CopyFrom from m = from"
  by (simp add: Header_CopyFrom_def)

lemma Header_InternalSwap_eq [simp]: "Header_InternalSwap a b = (b, a)"
  by (cases a; cases b) (simp add: Header_InternalSwap_def)

context pb_runtime
begin

lemma Header_shrinks [wire_simps]: "shrinks (Header_field rt)"
  by (auto simp: shrinks_def Header_field_def split: if_splits dest: shrinks_intros)

lemma Header_parse_Nil [wire_simps]: "Header_InternalParse rt m [] = Ended m None"
  by (simp add: Header_InternalParse_def parse_message_Nil)

lemma Header_parse_version [wire_simps]:
  "Header_InternalParse rt m (rt_WriteFixed32 rt 1 v @ r) = Header_InternalParse rt (m\<lparr>hdr_version := v\<rparr>) r"
  unfolding Header_InternalParse_def
  by (rule parse_message_fixed32 [OF Header_shrinks]) (simp_all add: Header_field_def str_ok_def pb_size_limit_def)

lemma Header_parse_last_version [wire_simps]:
  "Header_InternalParse rt m (rt_WriteFixed32 rt 1 v) = Ended (m\<lparr>hdr_version := v\<rparr>) None"
  using Header_parse_version [where v = v and m = m and r = "[]"] by (simp add: Header_parse_Nil)

lemma Header_parse_command [wire_simps]:
  "Header_InternalParse rt m (rt_WriteFixed32 rt 2 v @ r) = Header_InternalParse rt (m\<lparr>hdr_command := v\<rparr>) r"
  unfolding Header_InternalParse_def
  by (rule parse_message_fixed32 [OF Header_shrinks]) (simp_all add: Header_field_def str_ok_def pb_size_limit_def)

lemma Header_parse_last_command [wire_simps]:
  "Header_InternalParse rt m (rt_WriteFixed32 rt 2 v) = Ended (m\<lparr>hdr_command := v\<rparr>) None"
  using Header_parse_command [where v = v and m = m and r = "[]"] by (simp add: Header_parse_Nil)

lemma Header_parse_length [wire_simps]:
  "Header_InternalParse rt m (rt_WriteFixed64 rt 3 v @ r) = Header_InternalParse rt (m\<lparr>hdr_length := v\<rparr>) r"
  unfolding Header_InternalParse_def
  by (rule parse_message_fixed64 [OF Header_shrinks]) (simp_all add: Header_field_def str_ok_def pb_size_limit_def)

lemma Header_parse_last_length [wire_simps]:
  "Header_InternalParse rt m (rt_WriteFixed64 rt 3 v) = Ended (m\<lparr>hdr_length := v\<rparr>) None"
  using Header_parse_length [where v = v and m = m and r = "[]"] by (simp add: Header_parse_Nil)

lemma Header_total: "Header_InternalParse rt m bs \<noteq> OutOfFuel"
  by (simp add: Header_InternalParse_def Header_shrinks parse_message_total)

lemma Header_roundtrip [wire_simps]:
  "Header_wf rt m \<Longrightarrow> Header_InternalParse rt Header_SharedCtor (Header_InternalSerialize rt m) = Ended m None"
  by (cases m) (simp add: Header_wf_def Header_InternalSerialize_def Header_SharedCtor_def wire_simps del: One_nat_def)

lemma Header_size [wire_simps]:
  "Header_wf rt m \<Longrightarrow> length (Header_InternalSerialize rt m) = Header_ByteSizeLong rt m"
  by (simp add: Header_wf_def str_ok_def pb_size_limit_def Header_InternalSerialize_def Header_ByteSizeLong_def
      size_fixed32 size_fixed64 size_int32 size_enum size_string)

end

section \<open>WrappedMessage\<close>

text \<open>The slot of the \<open>oneof\<close>: its case tag and the message it owns.\<close>

datatype WrappedMessage_msg = WrappedMessage_MSG_NOT_SET
  | kRequest Request
  | kResponse Response

record WrappedMessage =
  wrp_msg :: WrappedMessage_msg
  wrp_unknown :: bytes

definition WrappedMessage_SharedCtor :: WrappedMessage where
  "WrappedMessage_SharedCtor = \<lparr>wrp_msg = WrappedMessage_MSG_NOT_SET, wrp_unknown = []\<rparr>"

definition WrappedMessage_clear_msg :: "WrappedMessage \<Rightarrow> WrappedMessage" where
  "WrappedMessage_clear_msg m = m\<lparr>wrp_msg := WrappedMessage_MSG_NOT_SET\<rparr>"

definition WrappedMessage_has_request :: "WrappedMessage \<Rightarrow> bool" where
  "WrappedMessage_has_request m = (case wrp_msg m of kRequest x \<Rightarrow> True | _ \<Rightarrow> False)"

definition WrappedMessage_request :: "WrappedMessage \<Rightarrow> Request" where
  "WrappedMessage_request m = (case wrp_msg m of kRequest x \<Rightarrow> x | _ \<Rightarrow> Request_SharedCtor)"

definition WrappedMessage_mutable_request :: "WrappedMessage \<Rightarrow> WrappedMessage" where
  "WrappedMessage_mutable_request m =
     (if WrappedMessage_has_request m then m else (WrappedMessage_clear_msg m)\<lparr>wrp_msg := kRequest Request_SharedCtor\<rparr>)"

definition WrappedMessage_set_allocated_request :: "Request option \<Rightarrow> WrappedMessage \<Rightarrow> WrappedMessage" where
  "WrappedMessage_set_allocated_request ptr m =
     (case ptr of None \<Rightarrow> WrappedMessage_clear_msg m | Some x \<Rightarrow> (WrappedMessage_clear_msg m)\<lparr>wrp_msg := kRequest x\<rparr>)"

definition WrappedMessage_release_request :: "WrappedMessage \<Rightarrow> Request option \<times> WrappedMessage" where
  "WrappedMessage_release_request m =
     (if WrappedMessage_has_request m then (Some (WrappedMessage_request m), m\<lparr>wrp_msg := WrappedMessage_MSG_NOT_SET\<rparr>) else (None, m))"

definition WrappedMessage_clear_request :: "WrappedMessage \<Rightarrow> WrappedMessage" where
  "WrappedMessage_clear_request m = (if WrappedMessage_has_request m then m\<lparr>wrp_msg := WrappedMessage_MSG_NOT_SET\<rparr> else m)"

definition WrappedMessage_has_response :: "WrappedMessage \<Rightarrow> bool" where
  "WrappedMessage_has_response m = (case wrp_msg m of kResponse x \<Rightarrow> True | _ \<Rightarrow> False)"

definition WrappedMessage_response :: "WrappedMessage \<Rightarrow> Response" where
  "WrappedMessage_response m = (case wrp_msg m of kResponse x \<Rightarrow> x | _ \<Rightarrow> Response_SharedCtor)"

definition WrappedMessage_mutable_response :: "WrappedMessage \<Rightarrow> WrappedMessage" where
  "WrappedMessage_mutable_response m =
     (if WrappedMessage_has_response m then m else (WrappedMessage_clear_msg m)\<lparr>wrp_msg := kResponse Response_SharedCtor\<rparr>)"

definition WrappedMessage_set_allocated_response :: "Response option \<Rightarrow> WrappedMessage \<Rightarrow> WrappedMessage" where
  "WrappedMessage_set_allocated_response ptr m =
     (case ptr of None \<Rightarrow> WrappedMessage_clear_msg m | Some x \<Rightarrow> (WrappedMessage_clear_msg m)\<lparr>wrp_msg := kResponse x\<rparr>)"

definition WrappedMessage_release_response :: "WrappedMessage \<Rightarrow> Response option \<times> WrappedMessage" where
  "WrappedMessage_release_response m =
     (if WrappedMessage_has_response m then (Some (WrappedMessage_response m), m\<lparr>wrp_msg := WrappedMessage_MSG_NOT_SET\<rparr>) else (None, m))"

definition WrappedMessage_clear_response :: "WrappedMessage \<Rightarrow> WrappedMessage" where
  "WrappedMessage_clear_response m = (if WrappedMessage_has_response m then m\<lparr>wrp_msg := WrappedMessage_MSG_NOT_SET\<rparr> else m)"

definition WrappedMessage_has_msg :: "WrappedMessage \<Rightarrow> bool" where
  "WrappedMessage_has_msg m \<longleftrightarrow> wrp_msg m \<noteq> WrappedMessage_MSG_NOT_SET"

definition WrappedMessage_MergeFrom :: "WrappedMessage \<Rightarrow> WrappedMessage \<Rightarrow> WrappedMessage" where
  "WrappedMessage_MergeFrom from m =
     (let m0 = m\<lparr>wrp_unknown := wrp_unknown m @ wrp_unknown from\<rparr>
      in case wrp_msg from of
        kRequest x \<Rightarrow> let m1 = WrappedMessage_mutable_request m0 in m1\<lparr>wrp_msg := kRequest (Request_MergeFrom x (WrappedMessage_request m1))\<rparr>
      | kResponse x \<Rightarrow> let m1 = WrappedMessage_mutable_response m0 in m1\<lparr>wrp_msg := kResponse (Response_MergeFrom x (WrappedMessage_response m1))\<rparr>
      | WrappedMessage_MSG_NOT_SET \<Rightarrow> m0)"

definition WrappedMessage_copy :: "WrappedMessage \<Rightarrow> WrappedMessage" where
  "WrappedMessage_copy from =
     (let m0 = WrappedMessage_SharedCtor\<lparr>wrp_unknown := wrp_unknown from\<rparr>
      in case wrp_msg from of
        kRequest x \<Rightarrow> let m1 = WrappedMessage_mutable_request m0 in m1\<lparr>wrp_msg := kRequest (Request_MergeFrom x (WrappedMessage_request m1))\<rparr>
      | kResponse x \<Rightarrow> let m1 = WrappedMessage_mutable_response m0 in m1\<lparr>wrp_msg := kResponse (Response_MergeFrom x (WrappedMessage_response m1))\<rparr>
      | WrappedMessage_MSG_NOT_SET \<Rightarrow> m0)"

definition WrappedMessage_Clear :: "WrappedMessage \<Rightarrow> WrappedMessage" where
  "WrappedMessage_Clear m = (WrappedMessage_clear_msg m)\<lparr>wrp_unknown := []\<rparr>"

definition WrappedMessage_field :: "pb_rt \<Rightarrow> uint32 \<Rightarrow> WrappedMessage \<Rightarrow> bytes \<Rightarrow> WrappedMessage field_result" where
  "WrappedMessage_field rt tag m bs =
     (if drop_bit 3 tag = 1 \<and> (ucast tag :: byte) = 10 then
        (let m1 = WrappedMessage_mutable_request m
         in message_field rt (Request_InternalParse rt) (WrappedMessage_request m1) (\<lambda>x. m1\<lparr>wrp_msg := kRequest x\<rparr>) bs)
      else if drop_bit 3 tag = 2 \<and> (ucast tag :: byte) = 18 then
        (let m1 = WrappedMessage_mutable_response m
         in message_field rt (Response_InternalParse rt) (WrappedMessage_response m1) (\<lambda>x. m1\<lparr>wrp_msg := kResponse x\<rparr>) bs)
      else Unusual)"

definition WrappedMessage_InternalParse :: "pb_rt \<Rightarrow> WrappedMessage \<Rightarrow> bytes \<Rightarrow> WrappedMessage parse_result" where
  "WrappedMessage_InternalParse rt m bs = parse_message rt (WrappedMessage_field rt) wrp_unknown wrp_unknown_update m bs"

definition WrappedMessage_InternalSerialize :: "pb_rt \<Rightarrow> WrappedMessage \<Rightarrow> bytes" where
  "WrappedMessage_InternalSerialize rt m =
     (if WrappedMessage_has_request m then rt_WriteMessage rt 1 (Request_InternalSerialize rt (WrappedMessage_request m)) else []) @
     (if WrappedMessage_has_response m then rt_WriteMessage rt 2 (Response_InternalSerialize rt (WrappedMessage_response m)) else []) @
     wrp_unknown m"

definition WrappedMessage_ByteSizeLong :: "pb_rt \<Rightarrow> WrappedMessage \<Rightarrow> nat" where
  "WrappedMessage_ByteSizeLong rt m =
     (case wrp_msg m of
        kRequest x \<Rightarrow> 1 + rt_MessageSize rt (Request_ByteSizeLong rt x)
      | kResponse x \<Rightarrow> 1 + rt_MessageSize rt (Response_ByteSizeLong rt x)
      | WrappedMessage_MSG_NOT_SET \<Rightarrow> 0) +
     length (wrp_unknown m)"

definition WrappedMessage_CopyFrom :: "WrappedMessage \<Rightarrow> WrappedMessage \<Rightarrow> WrappedMessage" where
  "WrappedMessage_CopyFrom from m = WrappedMessage_MergeFrom from (WrappedMessage_Clear m)"

definition WrappedMessage_InternalSwap :: "WrappedMessage \<Rightarrow> WrappedMessage \<Rightarrow> WrappedMessage \<times> WrappedMessage" where
  "WrappedMessage_InternalSwap a b =
     (a\<lparr>wrp_msg := wrp_msg b, wrp_unknown := wrp_unknown b\<rparr>,
      b\<lparr>wrp_msg := wrp_msg a, wrp_unknown := wrp_unknown a\<rparr>)"

definition WrappedMessage_wf :: "pb_rt \<Rightarrow> WrappedMessage \<Rightarrow> bool" where
  "WrappedMessage_wf rt m \<longleftrightarrow> wrp_unknown m = [] \<and>
     (case wrp_msg m of
        kRequest x \<Rightarrow> Request_wf rt x
      | kResponse x \<Rightarrow> Response_wf rt x
      | WrappedMessage_MSG_NOT_SET \<Rightarrow> True)"

lemmas WrappedMessage_slot_defs = WrappedMessage_clear_msg_def WrappedMessage_has_request_def WrappedMessage_request_def WrappedMessage_mutable_request_def WrappedMessage_has_response_def WrappedMessage_response_def WrappedMessage_mutable_response_def

lemma WrappedMessage_Clear_init [simp]: "WrappedMessage_Clear m = WrappedMessage_SharedCtor"
  by (cases m) (simp add: WrappedMessage_Clear_def WrappedMessage_clear_msg_def WrappedMessage_SharedCtor_def)

lemma WrappedMessage_merge_init [simp]: "WrappedMessage_MergeFrom m WrappedMessage_SharedCtor = m"
  by (cases m; cases "wrp_msg m") (simp_all add: WrappedMessage_MergeFrom_def WrappedMessage_SharedCtor_def WrappedMessage_slot_defs)

lemma WrappedMessage_copy_id [simp]: "WrappedMessage_copy m = m"
  by (cases m; cases "wrp_msg m") (simp_all add: WrappedMessage_copy_def WrappedMessage_SharedCtor_def WrappedMessage_slot_defs)

lemma WrappedMessage_CopyFrom_eq [simp]: "WrappedMessage_CopyFrom from m = from"
  by (simp add: WrappedMessage_CopyFrom_def)

lemma WrappedMessage_InternalSwap_eq [simp]: "WrappedMessage_InternalSwap a b = (b, a)"
  by (cases a; cases b) (simp add: WrappedMessage_InternalSwap_def)

context pb_runtime
begin

lemma WrappedMessage_shrinks [wire_simps]: "shrinks (WrappedMessage_field rt)"
  by (auto simp: shrinks_def WrappedMessage_field_def Let_def message_field_ends Request_total Response_total
      split: if_splits dest: shrinks_intros)

lemma WrappedMessage_parse_Nil [wire_simps]: "WrappedMessage_InternalParse rt m [] = Ended m None"
  by (simp add: WrappedMessage_InternalParse_def parse_message_Nil)

lemma WrappedMessage_parse_request [wire_simps]:
  assumes "Request_wf rt x" and "wrp_msg m = WrappedMessage_MSG_NOT_SET"
  shows "WrappedMessage_InternalParse rt m (rt_WriteMessage rt 1 (Request_InternalSerialize rt x) @ r) =
    WrappedMessage_InternalParse rt (m\<lparr>wrp_msg := kRequest x\<rparr>) r"
proof -
  have "length (Request_InternalSerialize rt x) < pb_size_limit"
    using Request_small [OF assms(1)] by (simp add: Request_size [OF assms(1)] pb_size_limit_def)
  then have "parse_message rt (WrappedMessage_field rt) wrp_unknown wrp_unknown_update m
      (rt_WriteMessage rt 1 (Request_InternalSerialize rt x) @ r) =
    parse_message rt (WrappedMessage_field rt) wrp_unknown wrp_unknown_update (m\<lparr>wrp_msg := kRequest x\<rparr>) r"
    using assms
    by (intro parse_message_sub [OF WrappedMessage_shrinks, where inner = "Request_InternalParse rt" and sub = Request_SharedCtor
          and put = "\<lambda>x. m\<lparr>wrp_msg := kRequest x\<rparr>"])
      (simp_all add: WrappedMessage_field_def WrappedMessage_slot_defs Request_roundtrip)
  then show ?thesis by (simp add: WrappedMessage_InternalParse_def)
qed

lemma WrappedMessage_parse_last_request [wire_simps]:
  "Request_wf rt x \<Longrightarrow> wrp_msg m = WrappedMessage_MSG_NOT_SET \<Longrightarrow>
    WrappedMessage_InternalParse rt m (rt_WriteMessage rt 1 (Request_InternalSerialize rt x)) =
    Ended (m\<lparr>wrp_msg := kRequest x\<rparr>) None"
  using WrappedMessage_parse_request [where x = x and m = m and r = "[]"] by (simp add: WrappedMessage_parse_Nil)

lemma WrappedMessage_parse_response [wire_simps]:
  assumes "Response_wf rt x" and "wrp_msg m = WrappedMessage_MSG_NOT_SET"
  shows "WrappedMessage_InternalParse rt m (rt_WriteMessage rt 2 (Response_InternalSerialize rt x) @ r) =
    WrappedMessage_InternalParse rt (m\<lparr>wrp_msg := kResponse x\<rparr>) r"
proof -
  have "length (Response_InternalSerialize rt x) < pb_size_limit"
    using Response_small [OF assms(1)] by (simp add: Response_size [OF assms(1)] pb_size_limit_def)
  then have "parse_message rt (WrappedMessage_field rt) wrp_unknown wrp_unknown_update m
      (rt_WriteMessage rt 2 (Response_InternalSerialize rt x) @ r) =
    parse_message rt (WrappedMessage_field rt) wrp_unknown wrp_unknown_update (m\<lparr>wrp_msg := kResponse x\<rparr>) r"
    using assms
    by (intro parse_message_sub [OF WrappedMessage_shrinks, where inner = "Response_InternalParse rt" and sub = Response_SharedCtor
          and put = "\<lambda>x. m\<lparr>wrp_msg := kResponse x\<rparr>"])
      (simp_all add: WrappedMessage_field_def WrappedMessage_slot_defs Response_roundtrip)
  then show ?thesis by (simp add: WrappedMessage_InternalParse_def)
qed

lemma WrappedMessage_parse_last_response [wire_simps]:
  "Response_wf rt x \<Longrightarrow> wrp_msg m = WrappedMessage_MSG_NOT_SET \<Longrightarrow>
    WrappedMessage_InternalParse rt m (rt_WriteMessage rt 2 (Response_InternalSerialize rt x)) =
    Ended (m\<lparr>wrp_msg := kResponse x\<rparr>) None"
  using WrappedMessage_parse_response [where x = x and m = m and r = "[]"] by (simp add: WrappedMessage_parse_Nil)

lemma WrappedMessage_total: "WrappedMessage_InternalParse rt m bs \<noteq> OutOfFuel"
  by (simp add: WrappedMessage_InternalParse_def WrappedMessage_shrinks parse_message_total)

lemma WrappedMessage_roundtrip [wire_simps]:
  "WrappedMessage_wf rt m \<Longrightarrow> WrappedMessage_InternalParse rt WrappedMessage_SharedCtor (WrappedMessage_InternalSerialize rt m) = Ended m None"
  by (cases m; cases "wrp_msg m")
    (simp_all add: WrappedMessage_wf_def WrappedMessage_InternalSerialize_def WrappedMessage_SharedCtor_def WrappedMessage_slot_defs wire_simps del: One_nat_def)

lemma WrappedMessage_size [wire_simps]:
  assumes "WrappedMessage_wf rt m"
  shows "length (WrappedMessage_InternalSerialize rt m) = WrappedMessage_ByteSizeLong rt m"
proof (cases "wrp_msg m")
  case (kRequest x)
  with assms have "Request_wf rt x" and "wrp_unknown m = []" by (simp_all add: WrappedMessage_wf_def)
  with Request_small [OF this(1)] kRequest show ?thesis
    by (simp add: WrappedMessage_InternalSerialize_def WrappedMessage_ByteSizeLong_def WrappedMessage_slot_defs size_message Request_size pb_size_limit_def)
next
  case (kResponse x)
  with assms have "Response_wf rt x" and "wrp_unknown m = []" by (simp_all add: WrappedMessage_wf_def)
  with Response_small [OF this(1)] kResponse show ?thesis
    by (simp add: WrappedMessage_InternalSerialize_def WrappedMessage_ByteSizeLong_def WrappedMessage_slot_defs size_message Response_size pb_size_limit_def)
next
  case WrappedMessage_MSG_NOT_SET
  with assms show ?thesis
    by (simp add: WrappedMessage_wf_def WrappedMessage_InternalSerialize_def WrappedMessage_ByteSizeLong_def WrappedMessage_slot_defs)
qed

end

end
