(* ===== verification/CommandTable.thy ===== *)
theory CommandTable
  imports Prelude
begin

text \<open>
  \<open>protocol/command_table.h\<close>: the identifiers, block sizes and command codes both ends share, with
  the command names used in the logs, and the message records passed around inside the server.
\<close>

type_synonym identifier_t = int32

definition PROTOCOL_VERS :: uint32 where
  "PROTOCOL_VERS = 2"

definition SERVER_DEFAULT_PORT :: uint16 where
  "SERVER_DEFAULT_PORT = 7777"

definition Block_LoginName :: nat where
  "Block_LoginName = 16"

definition Block_Password :: nat where
  "Block_Password = 32"

definition Block_TextMessage :: nat where
  "Block_TextMessage = 255"

definition Block_InputOption :: nat where
  "Block_InputOption = Block_LoginName + Block_Password"

section \<open>Commands\<close>

text \<open>An \<open>enum class\<close> over \<open>uint16_t\<close> can hold any 16-bit value: the ones without an enumerator
  are \<open>OtherCommand\<close>.\<close>

datatype TypeCommand =
    Unknown
  | RegistrationRequest
  | RegistrationResponse
  | AuthorisationRequest
  | AutorisationResponse
  | EchoRequest
  | EchoResponse
  | JoinRoomRequestCmd
  | JoinRoomResponseCmd
  | LeaveRoomRequest
  | OtherCommand uint16

fun TypeCommand_value :: "TypeCommand \<Rightarrow> uint16" where
  "TypeCommand_value Unknown = 0xFFFF"
| "TypeCommand_value RegistrationRequest = 1"
| "TypeCommand_value RegistrationResponse = 2"
| "TypeCommand_value AuthorisationRequest = 3"
| "TypeCommand_value AutorisationResponse = 4"
| "TypeCommand_value EchoRequest = 5"
| "TypeCommand_value EchoResponse = 6"
| "TypeCommand_value JoinRoomRequestCmd = 7"
| "TypeCommand_value JoinRoomResponseCmd = 8"
| "TypeCommand_value LeaveRoomRequest = 9"
| "TypeCommand_value (OtherCommand v) = v"

text \<open>\<open>static_cast<TypeCommand>\<close> of a 32-bit header field keeps the low 16 bits.\<close>

definition TypeCommand_cast :: "uint32 \<Rightarrow> TypeCommand" where
  "TypeCommand_cast v =
     (let c = ucast v :: uint16
      in if c = 0xFFFF then Unknown
         else if c = 1 then RegistrationRequest
         else if c = 2 then RegistrationResponse
         else if c = 3 then AuthorisationRequest
         else if c = 4 then AutorisationResponse
         else if c = 5 then EchoRequest
         else if c = 6 then EchoResponse
         else if c = 7 then JoinRoomRequestCmd
         else if c = 8 then JoinRoomResponseCmd
         else if c = 9 then LeaveRoomRequest
         else OtherCommand c)"

text \<open>An enumerator, as the code writes them.\<close>

fun enumerator :: "TypeCommand \<Rightarrow> bool" where
  "enumerator (OtherCommand v) = False"
| "enumerator c = True"

lemma TypeCommand_cast_value [simp]:
  "enumerator c \<Longrightarrow> TypeCommand_cast (ucast (TypeCommand_value c)) = c"
  by (cases c) (simp_all add: TypeCommand_cast_def)

lemma TypeCommand_value_cast [simp]: "TypeCommand_value (TypeCommand_cast v) = ucast v"
  by (simp add: TypeCommand_cast_def Let_def)

lemma TypeCommand_value_nonzero [simp]: "enumerator c \<Longrightarrow> TypeCommand_value c \<noteq> 0"
  by (cases c) simp_all

section \<open>Command names\<close>

definition type_command_str :: "(TypeCommand \<times> string) list" where
  "type_command_str =
     [(RegistrationRequest, ''RegistrationRequest''),
      (RegistrationResponse, ''RegistrationResponse''),
      (AuthorisationRequest, ''AuthorisationRequest''),
      (AutorisationResponse, ''AutorisationResponse''),
      (EchoRequest, ''EchoRequest''),
      (EchoResponse, ''EchoResponse''),
      (JoinRoomRequestCmd, ''JoinRoomRequest''),
      (Unknown, ''Unknown'')]"

text \<open>The assertion \<open>type_command_str.at(Unknown) == "Unknown"\<close> of the fallback holds, so only
  its value is modelled.\<close>

definition get_command_str :: "TypeCommand \<Rightarrow> string" where
  "get_command_str command =
     (case map_of type_command_str command of
        Some s \<Rightarrow> s
      | None \<Rightarrow> (case map_of type_command_str Unknown of Some s \<Rightarrow> s | None \<Rightarrow> []))"

text \<open>The lookup of a command's name answers \<open>Unknown\<close> for exactly the commands that the table
  does not list, besides \<open>Unknown\<close> itself: the response to a join, the request to leave, and every
  number without an enumerator.\<close>

lemma get_command_str_names:
  "get_command_str c = ''Unknown'' \<longleftrightarrow>
     c \<in> {Unknown, JoinRoomResponseCmd, LeaveRoomRequest} \<or> \<not> enumerator c"
  by (cases c) (simp_all add: get_command_str_def type_command_str_def)

section \<open>Messages inside the server\<close>

record TextSendData =
  td_room_id :: int32
  td_login :: string
  td_text :: string

datatype InputCode = RegistrOK | AutorOK | BusyRegistr | IncorrectAutor

fun InputCode_value :: "InputCode \<Rightarrow> int" where
  "InputCode_value RegistrOK = 1"
| "InputCode_value AutorOK = 2"
| "InputCode_value BusyRegistr = 3"
| "InputCode_value IncorrectAutor = 4"

end
