(* ===== verification/PbStandard.thy ===== *)
theory PbStandard
  imports PbRuntime
begin

text \<open>
  A concrete runtime: the documented protobuf encoding (base-128 varints, little-endian fixed
  fields, length-delimited payloads, UTF-8), with deprecated groups rejected. It shows that the
  laws of \<open>pb_runtime\<close> can hold together, and it is what the concrete runs of the development
  evaluate with.
\<close>

section \<open>Varints\<close>

fun varint_enc :: "nat \<Rightarrow> bytes" where
  "varint_enc n = (if n < 128 then [word_of_nat n]
     else word_of_nat (128 + n mod 128) # varint_enc (n div 128))"

declare varint_enc.simps [simp del]

fun varint_dec :: "nat \<Rightarrow> bytes \<Rightarrow> (nat \<times> bytes) option" where
  "varint_dec (Suc k) (b # bs) =
     (if unat b < 128 then Some (unat b, bs)
      else map_option (\<lambda>(v, r). (unat b - 128 + 128 * v, r)) (varint_dec k bs))"
| "varint_dec _ _ = None"

lemma unat_small_byte: "n < 256 \<Longrightarrow> unat (word_of_nat n :: byte) = n"
  by (simp add: unat_of_nat)

lemma unat_high_byte: "unat (word_of_nat (128 + n mod 128) :: byte) = 128 + n mod 128"
  by (rule unat_small_byte) (use mod_less_divisor [of 128 n] in linarith)

lemma unat_high_byte_word [simp]: "unat (128 + word_of_nat (n mod 128) :: byte) = 128 + n mod 128"
  using unat_high_byte [of n] by simp

lemma varint_dec_enc: "n < 128 ^ k \<Longrightarrow> 0 < k \<Longrightarrow> varint_dec k (varint_enc n @ r) = Some (n, r)"
proof (induction n arbitrary: k rule: varint_enc.induct)
  case (1 n)
  from \<open>0 < k\<close> obtain k' where k: "k = Suc k'" by (cases k) auto
  show ?case
  proof (cases "n < 128")
    case True
    then show ?thesis
      by (subst varint_enc.simps) (simp add: k unat_small_byte)
  next
    case False
    with 1 k have "n div 128 < 128 ^ k'" by (simp add: less_mult_imp_div_less mult.commute)
    moreover from this False have "0 < k'" by (cases k') auto
    ultimately have "varint_dec k' (varint_enc (n div 128) @ r) = Some (n div 128, r)"
      using "1.IH" False by blast
    then show ?thesis
      using False by (subst varint_enc.simps) (simp add: k)
  qed
qed

lemma varint_enc_length: "n < 128 ^ k \<Longrightarrow> 0 < k \<Longrightarrow> length (varint_enc n) \<le> k"
proof (induction n arbitrary: k rule: varint_enc.induct)
  case (1 n)
  from \<open>0 < k\<close> obtain k' where k: "k = Suc k'" by (cases k) auto
  show ?case
  proof (cases "n < 128")
    case True
    then show ?thesis by (subst varint_enc.simps) (simp add: k)
  next
    case False
    with 1 k have "n div 128 < 128 ^ k'" by (simp add: less_mult_imp_div_less mult.commute)
    moreover from this False have "0 < k'" by (cases k') auto
    ultimately have "length (varint_enc (n div 128)) \<le> k'"
      using "1.IH" False by blast
    then show ?thesis
      using False by (subst varint_enc.simps) (simp add: k)
  qed
qed

lemma varint_dec_shrinks: "varint_dec k bs = Some (v, r) \<Longrightarrow> length r < length bs"
  by (induction k bs arbitrary: v r rule: varint_dec.induct)
    (auto split: if_splits intro: less_SucI)

lemma varint_enc_small: "n < 128 \<Longrightarrow> varint_enc n = [word_of_nat n]"
  by (subst varint_enc.simps) simp

section \<open>Little-endian fixed-width fields\<close>

fun le_bytes :: "nat \<Rightarrow> nat \<Rightarrow> bytes" where
  "le_bytes 0 n = []"
| "le_bytes (Suc k) n = word_of_nat (n mod 256) # le_bytes k (n div 256)"

fun le_value :: "bytes \<Rightarrow> nat" where
  "le_value [] = 0"
| "le_value (b # bs) = unat b + 256 * le_value bs"

lemma length_le_bytes [simp]: "length (le_bytes k n) = k"
  by (induction k arbitrary: n) auto

lemma le_value_bytes [simp]: "n < 256 ^ k \<Longrightarrow> le_value (le_bytes k n) = n"
proof (induction k arbitrary: n)
  case 0
  then show ?case by simp
next
  case (Suc k)
  then have "n div 256 < 256 ^ k" by (simp add: less_mult_imp_div_less mult.commute)
  then show ?case using Suc by (simp add: unat_small_byte)
qed

section \<open>UTF-8\<close>

definition utf8_cont :: "nat \<Rightarrow> bool" where
  "utf8_cont b \<longleftrightarrow> 128 \<le> b \<and> b < 192"

fun utf8_valid :: "nat list \<Rightarrow> bool" where
  "utf8_valid [] = True"
| "utf8_valid (b # bs) =
     (if b < 128 then utf8_valid bs
      else case bs of
        c # ds \<Rightarrow>
          if 194 \<le> b \<and> b < 224 then utf8_cont c \<and> utf8_valid ds
          else (case ds of
            d # es \<Rightarrow>
              if 224 \<le> b \<and> b < 240 then
                utf8_cont c \<and> utf8_cont d \<and> (b = 224 \<longrightarrow> 160 \<le> c) \<and> (b = 237 \<longrightarrow> c < 160) \<and>
                utf8_valid es
              else (case es of
                e # fs \<Rightarrow> 240 \<le> b \<and> b < 245 \<and> utf8_cont c \<and> utf8_cont d \<and> utf8_cont e \<and>
                  (b = 240 \<longrightarrow> 144 \<le> c) \<and> (b = 244 \<longrightarrow> c < 144) \<and> utf8_valid fs
              | [] \<Rightarrow> False)
          | [] \<Rightarrow> False)
      | [] \<Rightarrow> False)"

lemma utf8_valid_ascii: "list_all (\<lambda>b. b < 128) bs \<Longrightarrow> utf8_valid bs"
  by (induction bs) auto

section \<open>The runtime\<close>

definition std_key :: "nat \<Rightarrow> nat \<Rightarrow> bytes" where
  "std_key n w = varint_enc (8 * n + w)"

definition std_ReadTag :: "bytes \<Rightarrow> (uint32 \<times> bytes) option" where
  "std_ReadTag bs = map_option (\<lambda>(v, r). (word_of_nat v, r)) (varint_dec 5 bs)"

definition std_ReadVarint64 :: "bytes \<Rightarrow> uint64 \<times> bytes option" where
  "std_ReadVarint64 bs =
     (case varint_dec 10 bs of None \<Rightarrow> (0, None) | Some (v, r) \<Rightarrow> (word_of_nat v, Some r))"

definition std_ReadSize :: "bytes \<Rightarrow> (nat \<times> bytes) option" where
  "std_ReadSize bs =
     (case varint_dec 5 bs of
        None \<Rightarrow> None
      | Some (v, r) \<Rightarrow> if v < pb_size_limit then Some (v, r) else None)"

definition std_LoadFixed :: "nat \<Rightarrow> bytes \<Rightarrow> nat \<times> bytes option" where
  "std_LoadFixed k bs =
     (le_value (take k bs), if k \<le> length bs then Some (drop k bs) else None)"

definition std_ParseString :: "string \<Rightarrow> bytes \<Rightarrow> string \<times> bytes option" where
  "std_ParseString old bs =
     (case std_ReadSize bs of
        None \<Rightarrow> (old, None)
      | Some (n, r) \<Rightarrow> (string_of (take n r), if n \<le> length r then Some (drop n r) else None))"

definition std_skip :: "uint32 \<Rightarrow> bytes \<Rightarrow> bytes option" where
  "std_skip tag bs =
     (if tag AND 7 = 0 then snd (std_ReadVarint64 bs)
      else if tag AND 7 = 1 then snd (std_LoadFixed 8 bs)
      else if tag AND 7 = 2 then snd (std_ParseString [] bs)
      else if tag AND 7 = 5 then snd (std_LoadFixed 4 bs)
      else None)"

definition std_UnknownFieldParse :: "uint32 \<Rightarrow> bytes \<Rightarrow> bytes \<Rightarrow> bytes \<times> bytes option" where
  "std_UnknownFieldParse tag u bs =
     (case std_skip tag bs of
        None \<Rightarrow> (u, None)
      | Some r \<Rightarrow> (u @ varint_enc (unat tag) @ take (length bs - length r) bs, Some r))"

definition std_int32 :: "int32 \<Rightarrow> bytes" where
  "std_int32 i = varint_enc (unat (scast i :: uint64))"

definition std_delimited :: "bytes \<Rightarrow> bytes" where
  "std_delimited p = varint_enc (length p) @ p"

definition std_rt :: pb_rt where
  "std_rt = \<lparr>
     rt_ReadTag = std_ReadTag,
     rt_ReadVarint64 = std_ReadVarint64,
     rt_LoadFixed32 = map_prod word_of_nat id \<circ> std_LoadFixed 4,
     rt_LoadFixed64 = map_prod word_of_nat id \<circ> std_LoadFixed 8,
     rt_ReadSize = std_ReadSize,
     rt_ParseString = std_ParseString,
     rt_VerifyUTF8 = utf8_valid \<circ> map of_char,
     rt_UnknownFieldParse = std_UnknownFieldParse,
     rt_WriteFixed32 = (\<lambda>n v. std_key n 5 @ le_bytes 4 (unat v)),
     rt_WriteFixed64 = (\<lambda>n v. std_key n 1 @ le_bytes 8 (unat v)),
     rt_WriteInt32 = (\<lambda>n i. std_key n 0 @ std_int32 i),
     rt_WriteEnum = (\<lambda>n i. std_key n 0 @ std_int32 i),
     rt_WriteString = (\<lambda>n s. std_key n 2 @ std_delimited (bytes_of s)),
     rt_WriteMessage = (\<lambda>n p. std_key n 2 @ std_delimited p),
     rt_Int32Size = length \<circ> std_int32,
     rt_EnumSize = length \<circ> std_int32,
     rt_StringSize = (\<lambda>s. length (std_delimited (bytes_of s))),
     rt_MessageSize = (\<lambda>n. length (varint_enc n) + n)
   \<rparr>"

section \<open>It follows the documented format\<close>

lemma unat_bound64: "unat (w :: uint64) < 18446744073709551616"
  using unsigned_less [of w, where 'a = nat] by simp

lemma unat_bound32: "unat (v :: uint32) < 4294967296"
  using unsigned_less [of v, where 'a = nat] by simp

lemma std_zero_tag: "std_ReadTag (0 # bs) = Some (0, bs)"
proof -
  have "varint_dec 5 (0 # bs) = Some (0, bs)"
    using varint_dec.simps(1) [of 4 0 bs] by simp
  then show ?thesis by (simp add: std_ReadTag_def)
qed

lemma std_key_read: "8 * n + w < 128 \<Longrightarrow> std_ReadTag (std_key n w @ r) = Some (word_of_nat (8 * n + w), r)"
  by (simp add: std_ReadTag_def std_key_def varint_dec_enc)

lemma std_key_length: "8 * n + w < 128 \<Longrightarrow> length (std_key n w) = 1"
  by (simp add: std_key_def varint_enc_small)

lemma std_int32_read: "std_ReadVarint64 (std_int32 i @ r) = (scast i, Some r)"
proof -
  have "unat (scast i :: uint64) < 128 ^ 10"
    using unat_bound64 [of "scast i :: uint64"] by simp
  then show ?thesis
    by (simp add: std_ReadVarint64_def std_int32_def varint_dec_enc)
qed

lemma std_int32_length: "length (std_int32 i) \<le> 10"
proof -
  have "unat (scast i :: uint64) < 128 ^ 10"
    using unat_bound64 [of "scast i :: uint64"] by simp
  then show ?thesis by (simp add: std_int32_def varint_enc_length)
qed

lemma std_size_read: "n < pb_size_limit \<Longrightarrow> std_ReadSize (varint_enc n @ r) = Some (n, r)"
  by (simp add: std_ReadSize_def varint_dec_enc pb_size_limit_def)

lemma std_string_read:
  "length s < pb_size_limit \<Longrightarrow> std_ParseString old (std_delimited (bytes_of s) @ r) = (s, Some r)"
  by (simp add: std_ParseString_def std_delimited_def std_size_read)

lemma std_fixed32_read: "std_LoadFixed 4 (le_bytes 4 (unat (v :: uint32)) @ r) = (unat v, Some r)"
  using unat_bound32 [of v] by (simp add: std_LoadFixed_def)

lemma std_fixed64_read: "std_LoadFixed 8 (le_bytes 8 (unat (v :: uint64)) @ r) = (unat v, Some r)"
  using unat_bound64 [of v] by (simp add: std_LoadFixed_def)

lemma std_size_shrinks: "std_ReadSize bs = Some (n, r) \<Longrightarrow> length r \<le> length bs"
  by (auto simp: std_ReadSize_def dest: varint_dec_shrinks split: option.splits if_splits)

lemma std_string_shrinks: "std_ParseString old bs = (s, Some r) \<Longrightarrow> length r \<le> length bs"
  by (fastforce simp: std_ParseString_def dest: std_size_shrinks split: option.splits if_splits)

lemma std_varint_shrinks: "std_ReadVarint64 bs = (v, Some r) \<Longrightarrow> length r \<le> length bs"
  by (auto simp: std_ReadVarint64_def dest: varint_dec_shrinks split: option.splits)

lemma std_fixed_shrinks: "std_LoadFixed k bs = (v, Some r) \<Longrightarrow> length r \<le> length bs"
  by (auto simp: std_LoadFixed_def split: if_splits)

lemma std_skip_shrinks: "std_skip tag bs = Some r \<Longrightarrow> length r \<le> length bs"
  by (cases "std_ReadVarint64 bs"; cases "std_LoadFixed 8 bs"; cases "std_LoadFixed 4 bs";
      cases "std_ParseString [] bs")
    (auto simp: std_skip_def split: if_splits
      dest: std_varint_shrinks std_fixed_shrinks std_string_shrinks)

lemma std_string_size: "length s < pb_size_limit \<Longrightarrow>
    length (std_delimited (bytes_of s)) \<le> 5 + length s"
  by (simp add: std_delimited_def varint_enc_length pb_size_limit_def)

interpretation std: pb_runtime std_rt
proof unfold_locales
  fix n :: nat and v i :: "32 word" and w :: uint64 and r p :: bytes and s old :: string
  assume n: "0 < n" "n < 16"
  then have lt: "8 * n + 5 < 128" "8 * n + 1 < 128" "8 * n + 0 < 128" "8 * n + 2 < 128" by auto
  show "\<exists>bs. rt_ReadTag std_rt (rt_WriteFixed32 std_rt n v @ r) = Some (word_of_nat (8 * n + 5), bs) \<and>
      rt_LoadFixed32 std_rt bs = (v, Some r)"
    using std_key_read [OF lt(1)] std_fixed32_read by (simp add: std_rt_def)
  show "\<exists>bs. rt_ReadTag std_rt (rt_WriteFixed64 std_rt n w @ r) = Some (word_of_nat (8 * n + 1), bs) \<and>
      rt_LoadFixed64 std_rt bs = (w, Some r)"
    using std_key_read [OF lt(2)] std_fixed64_read by (simp add: std_rt_def)
  show "\<exists>bs. rt_ReadTag std_rt (rt_WriteInt32 std_rt n i @ r) = Some (word_of_nat (8 * n), bs) \<and>
      rt_ReadVarint64 std_rt bs = (scast i, Some r)"
    "\<exists>bs. rt_ReadTag std_rt (rt_WriteEnum std_rt n i @ r) = Some (word_of_nat (8 * n), bs) \<and>
      rt_ReadVarint64 std_rt bs = (scast i, Some r)"
    using std_key_read [OF lt(3)] std_int32_read by (simp_all add: std_rt_def)
  show "length (rt_WriteFixed32 std_rt n v) = 1 + 4"
    "length (rt_WriteFixed64 std_rt n w) = 1 + 8"
    "length (rt_WriteInt32 std_rt n i) = 1 + rt_Int32Size std_rt i"
    "length (rt_WriteEnum std_rt n i) = 1 + rt_EnumSize std_rt i"
    using lt by (simp_all add: std_rt_def std_key_length)
  show "\<exists>bs. rt_ReadTag std_rt (rt_WriteString std_rt n s @ r) = Some (word_of_nat (8 * n + 2), bs) \<and>
      rt_ParseString std_rt old bs = (s, Some r)" if "length s < pb_size_limit"
    using std_key_read [OF lt(4)] std_string_read [OF that] by (simp add: std_rt_def)
  show "\<exists>bs. rt_ReadTag std_rt (rt_WriteMessage std_rt n p @ r) = Some (word_of_nat (8 * n + 2), bs) \<and>
      rt_ReadSize std_rt bs = Some (length p, p @ r)" if "length p < pb_size_limit"
    using std_key_read [OF lt(4)] std_size_read [OF that]
    by (simp add: std_rt_def std_delimited_def)
  show "length (rt_WriteString std_rt n s) = 1 + rt_StringSize std_rt s"
    "length (rt_WriteMessage std_rt n p) = 1 + rt_MessageSize std_rt (length p)"
    using lt by (simp_all add: std_rt_def std_key_length std_delimited_def)
next
  show "list_all (\<lambda>c. (of_char c :: nat) < 128) s \<Longrightarrow> rt_VerifyUTF8 std_rt s" for s
    by (simp add: std_rt_def utf8_valid_ascii list.pred_map comp_def)
  show "rt_ReadTag std_rt (0 # bs) = Some (0, bs)" for bs
    by (simp add: std_rt_def std_zero_tag)
next
  fix bs bs' u u' :: bytes and t :: uint32 and i :: int32 and v :: uint32 and w :: uint64
    and s old :: string and n :: nat
  show "length s < pb_size_limit \<Longrightarrow> rt_StringSize std_rt s \<le> 5 + length s"
    by (simp add: std_rt_def std_string_size)
  show "n < pb_size_limit \<Longrightarrow> rt_MessageSize std_rt n \<le> 5 + n"
    by (simp add: std_rt_def varint_enc_length pb_size_limit_def)
  show "rt_Int32Size std_rt i \<le> 10" "rt_EnumSize std_rt i \<le> 10"
    by (simp_all add: std_rt_def std_int32_length)
  show "rt_ReadTag std_rt bs = Some (t, bs') \<Longrightarrow> length bs' < length bs"
    by (auto simp: std_rt_def std_ReadTag_def dest: varint_dec_shrinks)
  show "rt_ReadVarint64 std_rt bs = (w, Some bs') \<Longrightarrow> length bs' \<le> length bs"
    by (auto simp: std_rt_def dest: std_varint_shrinks)
  show "rt_LoadFixed32 std_rt bs = (v, Some bs') \<Longrightarrow> length bs' \<le> length bs"
    by (cases "std_LoadFixed 4 bs") (auto simp: std_rt_def dest: std_fixed_shrinks)
  show "rt_LoadFixed64 std_rt bs = (w, Some bs') \<Longrightarrow> length bs' \<le> length bs"
    by (cases "std_LoadFixed 8 bs") (auto simp: std_rt_def dest: std_fixed_shrinks)
  show "rt_ReadSize std_rt bs = Some (n, bs') \<Longrightarrow> length bs' \<le> length bs"
    by (auto simp: std_rt_def dest: std_size_shrinks)
  show "rt_ParseString std_rt old bs = (s, Some bs') \<Longrightarrow> length bs' \<le> length bs"
    by (auto simp: std_rt_def dest: std_string_shrinks)
  show "rt_UnknownFieldParse std_rt t u bs = (u', Some bs') \<Longrightarrow> length bs' \<le> length bs"
    by (auto simp: std_rt_def std_UnknownFieldParse_def dest: std_skip_shrinks split: option.splits)
qed

text \<open>ASCII text travels through it.\<close>

lemma std_str_ok:
  "list_all (\<lambda>c. (of_char c :: nat) < 128) s \<Longrightarrow> length s < 536870912 \<Longrightarrow> str_ok std_rt s"
  by (simp add: str_ok_def std.ascii_utf8)

end
