(* ===== verification/MsgFactory.thy ===== *)
theory MsgFactory
  imports MessagesPb CommandTable PbStandard
begin

text \<open>
  \<open>protocol/msgfactory.h\<close> and \<open>msgfactory.cpp\<close>: building requests, responses and headers, and
  laying a frame out as a header of \<open>SIZE_HEADER\<close> bytes followed by the message. The lemmas show
  what the receiver's two reads of such a frame give back.
\<close>

definition SIZE_HEADER :: nat where
  "SIZE_HEADER = 2 * (4 + 1) + (8 + 1)"

lemma SIZE_HEADER_eq: "SIZE_HEADER = 19"
  by (simp add: SIZE_HEADER_def)

section \<open>Requests\<close>

definition create_input_request :: "string \<Rightarrow> string \<Rightarrow> Request" where
  "create_input_request login password =
     (let in_request = InRequest_set_password password (InRequest_set_login login InRequest_SharedCtor)
      in Request_set_allocated_input_request (Some in_request) Request_SharedCtor)"

definition create_reg_request :: "string \<Rightarrow> string \<Rightarrow> Request" where
  "create_reg_request login password =
     (let in_request = RegRequest_set_password password (RegRequest_set_login login RegRequest_SharedCtor)
      in Request_set_allocated_register_request (Some in_request) Request_SharedCtor)"

definition join_room_request :: "int32 \<Rightarrow> Request" where
  "join_room_request room_id =
     (let jr_request = JoinRoomRequest_set_room_id room_id JoinRoomRequest_SharedCtor
      in Request_set_allocated_join_room_request (Some jr_request) Request_SharedCtor)"

definition create_text_request :: "string \<Rightarrow> int32 \<Rightarrow> string \<Rightarrow> Request" where
  "create_text_request login room_id text =
     (let text_request = TextRequest_set_text text (TextRequest_set_room_id room_id
        (TextRequest_set_login login TextRequest_SharedCtor))
      in Request_set_allocated_text_request (Some text_request) Request_SharedCtor)"

section \<open>Headers\<close>

definition create_header :: "TypeCommand \<Rightarrow> nat \<Rightarrow> Header" where
  "create_header command len =
     Header_set_command (ucast (TypeCommand_value command)) (Header_set_version 1
       (Header_set_length (word_of_nat len) Header_SharedCtor))"

section \<open>Responses\<close>

definition create_input_response :: "int32 \<Rightarrow> Response" where
  "create_input_response client_id =
     (let in_response = InputResponse_set_chat_id 0 (InputResponse_set_msg_id 0
            (InputResponse_set_client_id client_id InputResponse_SharedCtor));
          in_response = (if client_id \<noteq> -1 then InputResponse_set_status STATUS_OK in_response
            else InputResponse_set_status STATUS_FAIL in_response)
      in Response_set_allocated_input_response (Some in_response) Response_SharedCtor)"

definition create_reg_response :: "int32 \<Rightarrow> Response" where
  "create_reg_response client_id =
     (let reg_response = RegResponse_set_chat_id 0 (RegResponse_set_msg_id 0
            (RegResponse_set_client_id client_id RegResponse_SharedCtor));
          reg_response = (if client_id \<noteq> -1 then RegResponse_set_status STATUS_OK reg_response
            else RegResponse_set_status STATUS_FAIL reg_response)
      in Response_set_allocated_reg_response (Some reg_response) Response_SharedCtor)"

definition create_text_response :: "string \<Rightarrow> int32 \<Rightarrow> string \<Rightarrow> Response" where
  "create_text_response login room_id text =
     (let text_response = TextResponse_set_text text (TextResponse_set_room_id room_id
        (TextResponse_set_login login TextResponse_SharedCtor))
      in Response_set_allocated_text_response (Some text_response) Response_SharedCtor)"

definition create_join_room_response :: "int32 \<Rightarrow> bool \<Rightarrow> Response" where
  "create_join_room_response new_room_id flag =
     (let jr_response = JoinRoomResponse_set_room_id new_room_id JoinRoomResponse_SharedCtor;
          jr_response = (if flag then JoinRoomResponse_set_status STATUS_OK jr_response
            else JoinRoomResponse_set_status STATUS_FAIL jr_response)
      in Response_set_allocated_join_room_response (Some jr_response) Response_SharedCtor)"

section \<open>Frames\<close>

text \<open>\<open>SerializeToArray(data + off, capacity)\<close>: it refuses a message longer than the capacity and otherwise
  overwrites just as many bytes as the message has.\<close>

definition SerializeToArray :: "nat \<Rightarrow> nat \<Rightarrow> bytes \<Rightarrow> bytes \<Rightarrow> bytes" where
  "SerializeToArray off capacity msg buf =
     (if length msg \<le> capacity then take off buf @ msg @ drop (off + length msg) buf else buf)"

definition serialize_response :: "pb_rt \<Rightarrow> Header \<Rightarrow> Response \<Rightarrow> bytes" where
  "serialize_response rt header response =
     (let n = Response_ByteSizeLong rt response;
          bin_buffer = replicate (SIZE_HEADER + n) 0;
          header = Header_set_length (word_of_nat n) header;
          bin_buffer = SerializeToArray 0 SIZE_HEADER (Header_InternalSerialize rt header) bin_buffer
      in SerializeToArray SIZE_HEADER n (Response_InternalSerialize rt response) bin_buffer)"

definition serialize_request :: "pb_rt \<Rightarrow> Header \<Rightarrow> Request \<Rightarrow> bytes" where
  "serialize_request rt header request =
     (let n = Request_ByteSizeLong rt request;
          bin_buffer = replicate (SIZE_HEADER + n) 0;
          header = Header_set_length (word_of_nat n) header;
          bin_buffer = SerializeToArray 0 SIZE_HEADER (Header_InternalSerialize rt header) bin_buffer
      in SerializeToArray SIZE_HEADER n (Request_InternalSerialize rt request) bin_buffer)"

lemmas request_factory_defs = create_input_request_def create_reg_request_def join_room_request_def
  create_text_request_def Request_set_allocated_input_request_def
  Request_set_allocated_register_request_def Request_set_allocated_join_room_request_def
  Request_set_allocated_text_request_def InRequest_set_password_def InRequest_set_login_def
  RegRequest_set_password_def RegRequest_set_login_def JoinRoomRequest_set_room_id_def
  TextRequest_set_text_def TextRequest_set_room_id_def TextRequest_set_login_def
  InRequest_SharedCtor_def RegRequest_SharedCtor_def JoinRoomRequest_SharedCtor_def
  TextRequest_SharedCtor_def Request_SharedCtor_def Request_slot_defs Let_def

lemmas response_factory_defs = create_input_response_def create_reg_response_def
  create_text_response_def create_join_room_response_def
  Response_set_allocated_input_response_def Response_set_allocated_reg_response_def
  Response_set_allocated_join_room_response_def Response_set_allocated_text_response_def
  InputResponse_set_chat_id_def InputResponse_set_msg_id_def InputResponse_set_client_id_def
  InputResponse_set_status_def RegResponse_set_chat_id_def RegResponse_set_msg_id_def
  RegResponse_set_client_id_def RegResponse_set_status_def TextResponse_set_text_def
  TextResponse_set_room_id_def TextResponse_set_login_def JoinRoomResponse_set_room_id_def
  JoinRoomResponse_set_status_def InputResponse_SharedCtor_def RegResponse_SharedCtor_def
  TextResponse_SharedCtor_def JoinRoomResponse_SharedCtor_def Response_SharedCtor_def
  Response_slot_defs Let_def

lemma request_factory_wf [wire_simps]:
  "str_ok rt login \<Longrightarrow> str_ok rt password \<Longrightarrow> Request_wf rt (create_input_request login password)"
  "str_ok rt login \<Longrightarrow> str_ok rt password \<Longrightarrow> Request_wf rt (create_reg_request login password)"
  "Request_wf rt (join_room_request room)"
  "str_ok rt login \<Longrightarrow> str_ok rt text \<Longrightarrow> Request_wf rt (create_text_request login room text)"
  by (simp_all add: request_factory_defs Request_wf_def InRequest_wf_def RegRequest_wf_def
      JoinRoomRequest_wf_def TextRequest_wf_def)

lemma response_factory_wf [wire_simps]:
  "Response_wf rt (create_input_response i)"
  "Response_wf rt (create_reg_response i)"
  "str_ok rt login \<Longrightarrow> str_ok rt text \<Longrightarrow> Response_wf rt (create_text_response login room text)"
  "Response_wf rt (create_join_room_response room flag)"
  by (simp_all add: response_factory_defs Response_wf_def InputResponse_wf_def RegResponse_wf_def
      JoinRoomResponse_wf_def TextResponse_wf_def)

lemma request_factory_has [wire_simps]:
  "Request_has_msg (create_input_request login password)"
  "Request_has_msg (create_reg_request login password)"
  "Request_has_msg (join_room_request room)"
  "Request_has_msg (create_text_request login room text)"
  by (simp_all add: request_factory_defs Request_has_msg_def)

lemma response_factory_has [wire_simps]:
  "Response_has_msg (create_input_response i)"
  "Response_has_msg (create_reg_response i)"
  "Response_has_msg (create_text_response login room text)"
  "Response_has_msg (create_join_room_response room flag)"
  by (simp_all add: response_factory_defs Response_has_msg_def)

section \<open>What the receiver reads\<close>

text \<open>A header whose fields are all set fills its block exactly; otherwise zero bytes follow it.\<close>

definition header_full :: "Header \<Rightarrow> bool" where
  "header_full h \<longleftrightarrow>
     hdr_version h \<noteq> 0 \<and> hdr_command h \<noteq> 0 \<and> hdr_length h \<noteq> 0 \<and> hdr_unknown h = []"

lemma word_of_nat_nonzero64: "0 < n \<Longrightarrow> n < 18446744073709551616 \<Longrightarrow> (word_of_nat n :: uint64) \<noteq> 0"
  by (auto simp: word_of_nat_eq_0_iff dest: dvd_imp_le)

lemma Request_size_pos: "Request_has_msg r \<Longrightarrow> 0 < Request_ByteSizeLong rt r"
  by (cases "req_msg r") (simp_all add: Request_has_msg_def Request_ByteSizeLong_def)

lemma Response_size_pos: "Response_has_msg r \<Longrightarrow> 0 < Response_ByteSizeLong rt r"
  by (cases "res_msg r") (simp_all add: Response_has_msg_def Response_ByteSizeLong_def)

context pb_runtime
begin

lemma header_full_length: "header_full h \<Longrightarrow> length (Header_InternalSerialize rt h) = SIZE_HEADER"
  by (simp add: header_full_def Header_InternalSerialize_def SIZE_HEADER_eq size_fixed32 size_fixed64)

lemma header_parse:
  "hdr_unknown h = [] \<Longrightarrow>
    ParseFromArray (Header_InternalParse rt) Header_SharedCtor (Header_InternalSerialize rt h) = (True, h)"
  by (simp add: ParseFromArray_def Header_roundtrip Header_wf_def)

lemma frame_layout:
  assumes "length head = SIZE_HEADER"
  shows "SerializeToArray SIZE_HEADER (length body) body
    (SerializeToArray 0 SIZE_HEADER head (replicate (SIZE_HEADER + length body) 0)) = head @ body"
  using assms by (simp add: SerializeToArray_def)

lemma created_header:
  "Header_set_length v (create_header c len) =
    \<lparr>hdr_version = 1, hdr_command = ucast (TypeCommand_value c), hdr_length = v, hdr_unknown = []\<rparr>"
  by (simp add: create_header_def Header_set_length_def Header_set_command_def
      Header_set_version_def Header_SharedCtor_def)

lemma created_header_full:
  "\<lbrakk>enumerator c; 0 < n; n < 18446744073709551616\<rbrakk> \<Longrightarrow>
    header_full (Header_set_length (word_of_nat n) (create_header c len))"
  by (cases c) (simp_all add: header_full_def created_header word_of_nat_nonzero64)

text \<open>The two reads of a frame: the header block, then as many bytes as it announces.\<close>

lemma request_frame:
  assumes "Request_wf rt r" and "Request_has_msg r" and "enumerator c"
  shows "serialize_request rt (create_header c len) r =
    Header_InternalSerialize rt
      (Header_set_length (word_of_nat (Request_ByteSizeLong rt r)) (create_header c len)) @
    Request_InternalSerialize rt r"
    and "length (Header_InternalSerialize rt
      (Header_set_length (word_of_nat (Request_ByteSizeLong rt r)) (create_header c len))) = SIZE_HEADER"
proof -
  have "Request_ByteSizeLong rt r < 18446744073709551616"
    using Request_small [OF assms(1)] by simp
  then show *: "length (Header_InternalSerialize rt
      (Header_set_length (word_of_nat (Request_ByteSizeLong rt r)) (create_header c len))) = SIZE_HEADER"
    using assms by (intro header_full_length created_header_full Request_size_pos)
  show "serialize_request rt (create_header c len) r =
    Header_InternalSerialize rt
      (Header_set_length (word_of_nat (Request_ByteSizeLong rt r)) (create_header c len)) @
    Request_InternalSerialize rt r"
    using frame_layout [OF *, of "Request_InternalSerialize rt r"] Request_size [OF assms(1)]
    by (simp add: serialize_request_def Let_def)
qed

lemma response_frame:
  assumes "Response_wf rt r" and "Response_has_msg r" and "enumerator c"
  shows "serialize_response rt (create_header c len) r =
    Header_InternalSerialize rt
      (Header_set_length (word_of_nat (Response_ByteSizeLong rt r)) (create_header c len)) @
    Response_InternalSerialize rt r"
    and "length (Header_InternalSerialize rt
      (Header_set_length (word_of_nat (Response_ByteSizeLong rt r)) (create_header c len))) = SIZE_HEADER"
proof -
  have "Response_ByteSizeLong rt r < 18446744073709551616"
    using Response_small [OF assms(1)] by simp
  then show *: "length (Header_InternalSerialize rt
      (Header_set_length (word_of_nat (Response_ByteSizeLong rt r)) (create_header c len))) = SIZE_HEADER"
    using assms by (intro header_full_length created_header_full Response_size_pos)
  show "serialize_response rt (create_header c len) r =
    Header_InternalSerialize rt
      (Header_set_length (word_of_nat (Response_ByteSizeLong rt r)) (create_header c len)) @
    Response_InternalSerialize rt r"
    using frame_layout [OF *, of "Response_InternalSerialize rt r"] Response_size [OF assms(1)]
    by (simp add: serialize_response_def Let_def)
qed

text \<open>A header with an unset field leaves zero bytes in its block, and the parser stops at them.\<close>

lemma Header_zero: "Header_InternalParse rt m (0 # bs) = Ended m (Some 0)"
  unfolding Header_InternalParse_def by (rule parse_message_zero) (simp add: Header_field_def)

lemma Header_parse_zero_tail:
  assumes "hdr_unknown h = []"
  shows "Header_InternalParse rt Header_SharedCtor (Header_InternalSerialize rt h @ 0 # bs) =
    Ended h (Some 0)"
proof -
  have skip: "Header_InternalParse rt m ((if v \<noteq> 0 then rt_WriteFixed32 rt 1 v else []) @ r) =
      Header_InternalParse rt (if v \<noteq> 0 then m\<lparr>hdr_version := v\<rparr> else m) r"
    "Header_InternalParse rt m ((if v \<noteq> 0 then rt_WriteFixed32 rt 2 v else []) @ r) =
      Header_InternalParse rt (if v \<noteq> 0 then m\<lparr>hdr_command := v\<rparr> else m) r"
    "Header_InternalParse rt m ((if w \<noteq> 0 then rt_WriteFixed64 rt 3 w else []) @ r) =
      Header_InternalParse rt (if w \<noteq> 0 then m\<lparr>hdr_length := w\<rparr> else m) r" for m v w r
    using Header_parse_version Header_parse_command Header_parse_length by auto
  show ?thesis
    using assms
    by (cases h) (simp only: Header_InternalSerialize_def append.assoc skip Header_zero append.simps
        Header.simps Header_SharedCtor_def, auto)
qed

lemma header_not_full_rejected:
  assumes "hdr_unknown h = []" and "\<not> header_full h"
  shows "ParseFromArray (Header_InternalParse rt) Header_SharedCtor
    (SerializeToArray 0 SIZE_HEADER (Header_InternalSerialize rt h) (replicate SIZE_HEADER 0)) = (False, h)"
proof -
  have "length (Header_InternalSerialize rt h) < SIZE_HEADER"
    using assms by (auto simp: header_full_def Header_InternalSerialize_def SIZE_HEADER_eq
        size_fixed32 size_fixed64)
  then obtain k where "SIZE_HEADER - length (Header_InternalSerialize rt h) = Suc k"
    by (cases "SIZE_HEADER - length (Header_InternalSerialize rt h)") auto
  with \<open>length (Header_InternalSerialize rt h) < SIZE_HEADER\<close>
  have "SerializeToArray 0 SIZE_HEADER (Header_InternalSerialize rt h)
      (replicate SIZE_HEADER 0) = Header_InternalSerialize rt h @ 0 # replicate k 0"
    by (simp add: SerializeToArray_def)
  then show ?thesis
    using Header_parse_zero_tail [OF assms(1)] by (simp add: ParseFromArray_def)
qed

lemma request_frame_read:
  assumes "Request_wf rt r" and "Request_has_msg r" and "enumerator c"
  shows "\<exists>h. ParseFromArray (Header_InternalParse rt) Header_SharedCtor
        (take SIZE_HEADER (serialize_request rt (create_header c len) r)) = (True, h) \<and>
      TypeCommand_cast (hdr_command h) = c \<and>
      unat (hdr_length h) = length (drop SIZE_HEADER (serialize_request rt (create_header c len) r)) \<and>
      ParseFromArray (Request_InternalParse rt) Request_SharedCtor
        (drop SIZE_HEADER (serialize_request rt (create_header c len) r)) = (True, r)"
proof -
  let ?h = "Header_set_length (word_of_nat (Request_ByteSizeLong rt r)) (create_header c len)"
  have "unat (hdr_length ?h) = Request_ByteSizeLong rt r"
    using Request_small [OF assms(1)] by (simp add: created_header unat_of_nat)
  then show ?thesis
    using request_frame [OF assms, of len] header_parse [of ?h] assms
    by (intro exI [of _ ?h])
      (simp add: created_header Request_size ParseFromArray_def [of "Request_InternalParse rt"]
        Request_roundtrip)
qed

lemma response_frame_read:
  assumes "Response_wf rt r" and "Response_has_msg r" and "enumerator c"
  shows "\<exists>h. ParseFromArray (Header_InternalParse rt) Header_SharedCtor
        (take SIZE_HEADER (serialize_response rt (create_header c len) r)) = (True, h) \<and>
      TypeCommand_cast (hdr_command h) = c \<and>
      unat (hdr_length h) = length (drop SIZE_HEADER (serialize_response rt (create_header c len) r)) \<and>
      ParseFromArray (Response_InternalParse rt) Response_SharedCtor
        (drop SIZE_HEADER (serialize_response rt (create_header c len) r)) = (True, r)"
proof -
  let ?h = "Header_set_length (word_of_nat (Response_ByteSizeLong rt r)) (create_header c len)"
  have "unat (hdr_length ?h) = Response_ByteSizeLong rt r"
    using Response_small [OF assms(1)] by (simp add: created_header unat_of_nat)
  then show ?thesis
    using response_frame [OF assms, of len] header_parse [of ?h] assms
    by (intro exI [of _ ?h])
      (simp add: created_header Response_size ParseFromArray_def [of "Response_InternalParse rt"]
        Response_roundtrip)
qed

end

text \<open>C16: a request frame is \<open>SIZE_HEADER\<close> bytes and the message; the server's read of the first
  block gives a header with the command and the length of the rest, and its read of the rest gives
  the request that the client built.\<close>

theorem request_frame_roundtrip:
  assumes "pb_runtime rt" and "Request_wf rt r" and "Request_has_msg r" and "enumerator c"
  shows "\<exists>h. ParseFromArray (Header_InternalParse rt) Header_SharedCtor
        (take SIZE_HEADER (serialize_request rt (create_header c len) r)) = (True, h) \<and>
      TypeCommand_cast (hdr_command h) = c \<and>
      unat (hdr_length h) = length (drop SIZE_HEADER (serialize_request rt (create_header c len) r)) \<and>
      ParseFromArray (Request_InternalParse rt) Request_SharedCtor
        (drop SIZE_HEADER (serialize_request rt (create_header c len) r)) = (True, r)"
  using assms by (rule pb_runtime.request_frame_read)

theorem request_frame_roundtrip_witness:
  "ParseFromArray (Request_InternalParse std_rt) Request_SharedCtor
    (drop SIZE_HEADER (serialize_request std_rt (create_header EchoRequest 0)
      (create_text_request ''ann'' 5 ''hello''))) =
    (True, create_text_request ''ann'' 5 ''hello'')"
  using request_frame_roundtrip [OF std.pb_runtime_axioms, of "create_text_request ''ann'' 5 ''hello''"
      EchoRequest 0]
  by (auto simp: wire_simps std_str_ok)

text \<open>C17: a response frame reads back at the client in the same way.\<close>

theorem response_frame_roundtrip:
  assumes "pb_runtime rt" and "Response_wf rt r" and "Response_has_msg r" and "enumerator c"
  shows "\<exists>h. ParseFromArray (Header_InternalParse rt) Header_SharedCtor
        (take SIZE_HEADER (serialize_response rt (create_header c len) r)) = (True, h) \<and>
      TypeCommand_cast (hdr_command h) = c \<and>
      unat (hdr_length h) = length (drop SIZE_HEADER (serialize_response rt (create_header c len) r)) \<and>
      ParseFromArray (Response_InternalParse rt) Response_SharedCtor
        (drop SIZE_HEADER (serialize_response rt (create_header c len) r)) = (True, r)"
  using assms by (rule pb_runtime.response_frame_read)

theorem response_frame_roundtrip_witness:
  "ParseFromArray (Response_InternalParse std_rt) Response_SharedCtor
    (drop SIZE_HEADER (serialize_response std_rt (create_header JoinRoomResponseCmd 0)
      (create_join_room_response 5 True))) = (True, create_join_room_response 5 True)"
  using response_frame_roundtrip [OF std.pb_runtime_axioms, of "create_join_room_response 5 True"
      JoinRoomResponseCmd 0]
  by (auto simp: wire_simps)

text \<open>A header with an unset field cannot travel: \<open>SerializeToArray\<close> leaves the end of its
  block zero, and the receiver's parser refuses the block although every field arrived.\<close>

theorem partial_header_rejected:
  assumes "pb_runtime rt" and "hdr_unknown h = []"
    and "hdr_version h = 0 \<or> hdr_command h = 0 \<or> hdr_length h = 0"
  shows "ParseFromArray (Header_InternalParse rt) Header_SharedCtor
    (SerializeToArray 0 SIZE_HEADER (Header_InternalSerialize rt h) (replicate SIZE_HEADER 0)) = (False, h)"
  using pb_runtime.header_not_full_rejected [OF assms(1,2)] assms(3) by (auto simp: header_full_def)

theorem partial_header_rejected_witness:
  "ParseFromArray (Header_InternalParse std_rt) Header_SharedCtor
    (SerializeToArray 0 SIZE_HEADER (Header_InternalSerialize std_rt (create_header EchoRequest 0))
      (replicate SIZE_HEADER 0)) = (False, create_header EchoRequest 0)"
proof -
  have "create_header EchoRequest 0 =
      \<lparr>hdr_version = 1, hdr_command = 5, hdr_length = 0, hdr_unknown = []\<rparr>"
    by (simp add: create_header_def Header_set_length_def Header_set_command_def
        Header_set_version_def Header_SharedCtor_def)
  then show ?thesis
    using partial_header_rejected [OF std.pb_runtime_axioms, of "create_header EchoRequest 0"] by simp
qed

text \<open>The responses to a login and to a registration say OK exactly when the client identifier is
  not -1, carry that identifier, and fill no other slot of the response.\<close>

lemma response_status:
  "Response_has_input_response (create_input_response i) \<and>
   irs_client_id (Response_input_response (create_input_response i)) = i \<and>
   (irs_status (Response_input_response (create_input_response i)) = STATUS_OK \<longleftrightarrow> i \<noteq> -1) \<and>
   Response_has_reg_response (create_reg_response i) \<and>
   \<not> Response_has_input_response (create_reg_response i) \<and>
   rrs_client_id (Response_reg_response (create_reg_response i)) = i \<and>
   (rrs_status (Response_reg_response (create_reg_response i)) = STATUS_OK \<longleftrightarrow> i \<noteq> -1)"
  by (simp add: response_factory_defs STATUS_OK_def STATUS_FAIL_def)

text \<open>C29: the generated parsers of the messages that come from the network stop on every input, those
  of the header, of the request and of the response, and those of the messages inside a request or a
  response: their tag loops never run out of the fuel of one turn per byte. A parser inside that ran
  out of fuel would make the outer one run out of it.\<close>

theorem parsers_terminate:
  assumes "pb_runtime rt"
  shows "Header_InternalParse rt h bs \<noteq> OutOfFuel \<and> Request_InternalParse rt r bs \<noteq> OutOfFuel \<and>
    Response_InternalParse rt p bs \<noteq> OutOfFuel \<and>
    InRequest_InternalParse rt q1 bs \<noteq> OutOfFuel \<and> RegRequest_InternalParse rt q2 bs \<noteq> OutOfFuel \<and>
    JoinRoomRequest_InternalParse rt q3 bs \<noteq> OutOfFuel \<and> TextRequest_InternalParse rt q4 bs \<noteq> OutOfFuel \<and>
    InputResponse_InternalParse rt p1 bs \<noteq> OutOfFuel \<and> RegResponse_InternalParse rt p2 bs \<noteq> OutOfFuel \<and>
    JoinRoomResponse_InternalParse rt p3 bs \<noteq> OutOfFuel \<and> TextResponse_InternalParse rt p4 bs \<noteq> OutOfFuel"
  using pb_runtime.Header_total [OF assms] pb_runtime.Request_total [OF assms]
    pb_runtime.Response_total [OF assms] pb_runtime.InRequest_total [OF assms] pb_runtime.RegRequest_total [OF assms]
    pb_runtime.JoinRoomRequest_total [OF assms] pb_runtime.TextRequest_total [OF assms]
    pb_runtime.InputResponse_total [OF assms] pb_runtime.RegResponse_total [OF assms]
    pb_runtime.JoinRoomResponse_total [OF assms] pb_runtime.TextResponse_total [OF assms] by simp

theorem parsers_terminate_witness:
  "Request_InternalParse std_rt Request_SharedCtor [255, 255, 255] \<noteq> OutOfFuel \<and>
   TextRequest_InternalParse std_rt TextRequest_SharedCtor [10, 200, 1] \<noteq> OutOfFuel"
  using parsers_terminate [OF std.pb_runtime_axioms] by blast

text \<open>C39: \<open>ByteSizeLong\<close>, which sizes every send buffer and every announced length, is the number
  of bytes that the serializers write.\<close>

theorem byte_size_is_length:
  assumes "pb_runtime rt" and "Request_wf rt r" and "Response_wf rt p"
  shows "length (Request_InternalSerialize rt r) = Request_ByteSizeLong rt r \<and>
    length (Response_InternalSerialize rt p) = Response_ByteSizeLong rt p"
  using pb_runtime.Request_size [OF assms(1,2)] pb_runtime.Response_size [OF assms(1,3)] by simp

theorem byte_size_is_length_witness:
  "length (Request_InternalSerialize std_rt (join_room_request (-1))) =
    Request_ByteSizeLong std_rt (join_room_request (-1))"
  using byte_size_is_length [OF std.pb_runtime_axioms, of "join_room_request (-1)"
      "create_reg_response 1"] by (simp add: wire_simps)

end
