(* ===== verification/DateTime.thy ===== *)
theory DateTime
  imports Prelude
begin

text \<open>
  \<open>protocol/datetime.h\<close> and \<open>datetime.cpp\<close>: a date and time in six bytes, the year counted from
  2000. \<open>boost::posix_time\<close> and \<open>boost::format\<close> are third-party: a \<open>ptime\<close> is the six numbers its
  accessors return, the conversions and the directive \<open>%#02d\<close> are parameters.
\<close>

datatype DateTime = DateTime (hours: byte) (minutes: byte) (seconds: byte)
  (day: byte) (month: byte) (year: byte)

definition DateTime_default :: DateTime where
  "DateTime_default = DateTime 0 0 0 0 0 0"

record ptime =
  pt_hours :: int
  pt_minutes :: int
  pt_seconds :: int
  pt_day :: int
  pt_month :: int
  pt_year :: int

text \<open>\<open>static_cast<uint8_t>\<close> keeps the low 8 bits of each number.\<close>

definition DateTime_of_ptime :: "ptime \<Rightarrow> DateTime" where
  "DateTime_of_ptime p =
     DateTime (word_of_int (pt_hours p)) (word_of_int (pt_minutes p)) (word_of_int (pt_seconds p))
       (word_of_int (pt_day p)) (word_of_int (pt_month p)) (word_of_int (pt_year p - 2000))"

definition to_simple_date :: "(nat \<Rightarrow> string) \<Rightarrow> DateTime \<Rightarrow> string" where
  "to_simple_date fmt02 d =
     fmt02 (unat (day d)) @ ''.'' @ fmt02 (unat (month d)) @ ''.'' @
     to_string_nat (unat (year d) + 2000)"

definition to_simple_time :: "(nat \<Rightarrow> string) \<Rightarrow> DateTime \<Rightarrow> string" where
  "to_simple_time fmt02 d =
     fmt02 (unat (hours d)) @ '':'' @ fmt02 (unat (minutes d)) @ '':'' @ fmt02 (unat (seconds d))"

text \<open>\<open>mk\<close> is the construction of a \<open>ptime\<close> from a date and a duration, which throws on an
  impossible date; \<open>utc_to_local\<close> is Boost's adjustor.\<close>

definition from_universal_to_local ::
  "(int \<Rightarrow> int \<Rightarrow> int \<Rightarrow> int \<Rightarrow> int \<Rightarrow> int \<Rightarrow> ptime option) \<Rightarrow> (ptime \<Rightarrow> ptime) \<Rightarrow>
    DateTime \<Rightarrow> DateTime result" where
  "from_universal_to_local mk utc_to_local dt =
     (case mk (uint (year dt) + 2000) (uint (month dt)) (uint (day dt))
            (uint (hours dt)) (uint (minutes dt)) (uint (seconds dt)) of
        None \<Rightarrow> Inl InvalidArgument
      | Some pt \<Rightarrow> Inr (DateTime_of_ptime (utc_to_local pt)))"

definition DateTime_eq :: "DateTime \<Rightarrow> DateTime \<Rightarrow> bool" where
  "DateTime_eq lhs rhs \<longleftrightarrow>
     hours lhs = hours rhs \<and> minutes lhs = minutes rhs \<and> seconds lhs = seconds rhs \<and>
     day lhs = day rhs \<and> month lhs = month rhs \<and> year lhs = year rhs"

definition DateTime_less :: "DateTime \<Rightarrow> DateTime \<Rightarrow> bool" where
  "DateTime_less lhs rhs \<longleftrightarrow>
     year lhs < year rhs \<or> month lhs < month rhs \<or> day lhs < day rhs \<or>
     hours lhs < hours rhs \<or> minutes lhs < minutes rhs \<or> seconds lhs < seconds rhs"

section \<open>The chronological order\<close>

text \<open>What a comparison of dates should be: the six fields compared from the year down. The
  number with the fields as digits to base 256 has this order.\<close>

definition base256 :: "nat \<Rightarrow> byte \<Rightarrow> nat" where
  "base256 a b = a * 256 + unat b"

definition chronological :: "DateTime \<Rightarrow> nat" where
  "chronological d =
     base256 (base256 (base256 (base256 (base256 (unat (year d)) (month d)) (day d))
       (hours d)) (minutes d)) (seconds d)"

lemma base256_parts: "base256 a x div 256 = a" "base256 a x mod 256 = unat x"
  using unsigned_less [of x, where 'a = nat] by (simp_all add: base256_def)

lemma base256_inject [simp]: "base256 a x = base256 b y \<longleftrightarrow> a = b \<and> x = y"
  by (metis base256_parts word_unat_eq_iff)

lemma base256_mono: "a \<le> b \<Longrightarrow> x \<le> y \<Longrightarrow> base256 a x \<le> base256 b y"
  by (simp add: base256_def word_le_nat_alt)

lemma chronological_inject [simp]: "chronological a = chronological b \<longleftrightarrow> a = b"
  by (cases a; cases b) (auto simp: chronological_def word_unat_eq_iff)

instantiation DateTime :: linorder
begin

definition less_eq_DateTime :: "DateTime \<Rightarrow> DateTime \<Rightarrow> bool" where
  "less_eq_DateTime a b \<longleftrightarrow> chronological a \<le> chronological b"

definition less_DateTime :: "DateTime \<Rightarrow> DateTime \<Rightarrow> bool" where
  "less_DateTime a b \<longleftrightarrow> chronological a < chronological b"

instance
  by standard (auto simp: less_eq_DateTime_def less_DateTime_def)

end

lemma not_DateTime_less_iff:
  "\<not> DateTime_less a b \<longleftrightarrow>
     year b \<le> year a \<and> month b \<le> month a \<and> day b \<le> day a \<and>
     hours b \<le> hours a \<and> minutes b \<le> minutes a \<and> seconds b \<le> seconds a"
  by (auto simp: DateTime_less_def not_less)

text \<open>The operator is not an order: 31 January 2020 and 1 February 2020 are each before the
  other, because the fields are joined by \<open>||\<close> instead of being compared from the year down.\<close>

theorem DateTime_less_not_asymmetric:
  "DateTime_less (DateTime 0 0 0 31 1 20) (DateTime 0 0 0 1 2 20) \<and>
   DateTime_less (DateTime 0 0 0 1 2 20) (DateTime 0 0 0 31 1 20) \<and>
   DateTime 0 0 0 31 1 20 < DateTime 0 0 0 1 2 20"
  by (simp add: DateTime_less_def less_DateTime_def chronological_def base256_def)

text \<open>\<open>operator<\<close> holds whenever the left date is the earlier one, and between two different
  dates it always holds in at least one direction; but it can hold in both, as for 31 January and
  1 February 2020, so that it is no order.\<close>

theorem DateTime_less_chronological:
  "(a < b \<longrightarrow> DateTime_less a b) \<and> (a \<noteq> b \<longrightarrow> DateTime_less a b \<or> DateTime_less b a) \<and>
   \<not> DateTime_less a a \<and> (\<exists>a b. a < b \<and> DateTime_less b a)"
proof -
  have less: "DateTime_less a b" if lt: "a < b" for a b
  proof (rule ccontr)
    assume "\<not> DateTime_less a b"
    then have "chronological b \<le> chronological a"
      by (simp add: not_DateTime_less_iff chronological_def base256_mono word_le_nat_alt)
    with lt show False by (simp add: less_DateTime_def)
  qed
  show ?thesis
  proof (intro conjI)
    show "a < b \<longrightarrow> DateTime_less a b" by (simp add: less)
    show "a \<noteq> b \<longrightarrow> DateTime_less a b \<or> DateTime_less b a" using less by (metis neq_iff)
    show "\<not> DateTime_less a a" by (simp add: DateTime_less_def)
    show "\<exists>a b. a < b \<and> DateTime_less b a" using DateTime_less_not_asymmetric by blast
  qed
qed

theorem DateTime_less_chronological_witness:
  "DateTime_less (DateTime 1 2 3 4 5 6) (DateTime 1 2 3 4 5 7)"
  using DateTime_less_chronological [of "DateTime 1 2 3 4 5 6" "DateTime 1 2 3 4 5 7"]
  by (simp add: less_DateTime_def chronological_def base256_def)

lemma DateTime_eq_iff [simp]: "DateTime_eq a b \<longleftrightarrow> a = b"
  by (cases a; cases b) (auto simp: DateTime_eq_def)

section \<open>Rendering\<close>

text \<open>\<open>boost::format\<close>'s directive \<open>%#02d\<close>: at least two decimal digits, filled with zeros.\<close>

locale boost_format =
  fixes fmt02 :: "nat \<Rightarrow> string"
  assumes fmt_small: "n < 10 \<Longrightarrow> fmt02 n = [digit 0, digit n]"
    and fmt_large: "10 \<le> n \<Longrightarrow> fmt02 n = to_string_nat n"
begin

lemma fmt02_two_digits: "n < 100 \<Longrightarrow> fmt02 n = [digit (n div 10), digit (n mod 10)]"
proof (cases "n < 10")
  case True
  then show ?thesis by (simp add: fmt_small)
next
  case False
  moreover assume "n < 100"
  ultimately show ?thesis
    by (simp add: fmt_large to_string_nat.simps [of n] to_string_nat.simps [of "n div 10"])
qed

lemma digit_inject: "m < 10 \<Longrightarrow> n < 10 \<Longrightarrow> digit m = digit n \<longleftrightarrow> m = n"
  by (metis digit_value_digit)

lemma fmt02_inject:
  assumes "m < 100" and "n < 100"
  shows "fmt02 m = fmt02 n \<longleftrightarrow> m = n"
proof -
  have "m div 10 < 10" "n div 10 < 10" using assms by simp_all
  then have "fmt02 m = fmt02 n \<longleftrightarrow> m div 10 = n div 10 \<and> m mod 10 = n mod 10"
    using assms by (simp add: fmt02_two_digits digit_inject)
  also have "\<dots> \<longleftrightarrow> m = n"
    by (metis div_mult_mod_eq)
  finally show ?thesis .
qed

lemma fmt02_digits: "list_all is_digit (fmt02 n)"
  by (cases "n < 10") (simp_all add: fmt_small fmt_large to_string_nat_digits)

text \<open>The rendered date and time determine the fields they show.\<close>

lemma to_simple_date_inject:
  assumes "unat (day a) < 100" "unat (day b) < 100" "unat (month a) < 100" "unat (month b) < 100"
  shows "to_simple_date fmt02 a = to_simple_date fmt02 b \<longleftrightarrow>
    day a = day b \<and> month a = month b \<and> year a = year b"
  using assms fmt02_inject
  by (auto simp: to_simple_date_def fmt02_two_digits digit_inject word_unat_eq_iff)

lemma to_simple_time_inject:
  assumes "unat (hours a) < 100" "unat (hours b) < 100" "unat (minutes a) < 100"
    "unat (minutes b) < 100" "unat (seconds a) < 100" "unat (seconds b) < 100"
  shows "to_simple_time fmt02 a = to_simple_time fmt02 b \<longleftrightarrow>
    hours a = hours b \<and> minutes a = minutes b \<and> seconds a = seconds b"
  using assms fmt02_inject
  by (auto simp: to_simple_time_def fmt02_two_digits digit_inject word_unat_eq_iff)

end

text \<open>A concrete formatter, for the concrete runs.\<close>

definition std_fmt02 :: "nat \<Rightarrow> string" where
  "std_fmt02 n = (if n < 10 then [digit 0, digit n] else to_string_nat n)"

interpretation std_format: boost_format std_fmt02
  by unfold_locales (simp_all add: std_fmt02_def)

end
