(* ===== verification/Database.thy ===== *)
theory Database
  imports CommandTable DateTime
begin

text \<open>
  \<open>server/storage/database.h\<close> and \<open>database.cpp\<close>: logins and message history in an SQLite file.
  SQLite is third-party: the record \<open>sqlite\<close> holds the calls the code makes, the locale
  \<open>sqlite_laws\<close> what its documentation says they do on the statements the code builds.
\<close>

section \<open>The SQLite interface\<close>

text \<open>A handle \<open>'h\<close> stands for the open connection and what its file holds; \<open>None\<close> is a null
  \<open>db_ptr\<close>. A column is what \<open>sqlite3_column_blob\<close> (a null pointer is \<open>None\<close>) and
  \<open>sqlite3_column_int\<close> return. \<open>sq_query\<close> is \<open>prepare\<close>, the loop over \<open>step\<close> and the last return
  code; it is \<open>None\<close> when the statement does not compile.\<close>

type_synonym sql_row = "nat \<Rightarrow> string option \<times> int32"

record 'h sqlite =
  sq_open :: "string \<Rightarrow> int \<times> 'h"
  sq_exec :: "'h option \<Rightarrow> string \<Rightarrow> int \<times> string option \<times> 'h option"
  sq_query :: "'h option \<Rightarrow> string \<Rightarrow> (sql_row list \<times> int) option"

abbreviation SQLITE_OK :: int where "SQLITE_OK \<equiv> 0"
abbreviation SQLITE_MISUSE :: int where "SQLITE_MISUSE \<equiv> 21"
abbreviation SQLITE_DONE :: int where "SQLITE_DONE \<equiv> 101"

record 'h Database =
  db_name :: string
  db_ptr :: "'h option"

text \<open>\<open>std::string(const char *)\<close>.\<close>

definition std_string :: "string option \<Rightarrow> string result" where
  "std_string p = (case p of None \<Rightarrow> Inl NullString | Some s \<Rightarrow> Inr (cstr s))"

definition quote :: string where
  "quote = [CHR 0x27]"

section \<open>Statements\<close>

definition create_table_history :: string where
  "create_table_history = ''create table if not exists history '' @ ''(author varchar['' @
     to_string_nat Block_LoginName @ ''], '' @ ''room_id integer, '' @ ''datetime integer, '' @
     ''message varchar['' @ to_string_nat Block_TextMessage @ '']);''"

definition create_table_logins :: string where
  "create_table_logins = ''create table if not exists logins '' @ ''(login varchar['' @
     to_string_nat Block_LoginName @ ''], '' @ ''login_id integer, '' @
     ''password varchar['' @ to_string_nat Block_Password @ '']);''"

definition sql_insert_history :: "string \<Rightarrow> int32 \<Rightarrow> string \<Rightarrow> string \<Rightarrow> string" where
  "sql_insert_history login room_id str_datetime text =
     ''insert into history values('' @ quote @ login @ quote @ '', '' @ to_string_int (sint room_id) @
     '', strftime('' @ quote @ ''%s'' @ quote @ '','' @ quote @ str_datetime @ quote @ ''), '' @ quote @
     text @ quote @ '');''"

definition sql_select_history :: "int32 \<Rightarrow> string" where
  "sql_select_history roomid =
     ''select author, room_id, datetime(datetime, '' @ quote @ ''unixepoch'' @ quote @
     ''), message from history where room_id=='' @ to_string_int (sint roomid) @ '';''"

definition sql_insert_login :: "string \<Rightarrow> int32 \<Rightarrow> string \<Rightarrow> string" where
  "sql_insert_login login login_id password =
     ''insert into logins values('' @ quote @ login @ quote @ '', '' @ to_string_int (sint login_id) @
     '', '' @ quote @ password @ quote @ '');''"

definition sql_select_login :: "string \<Rightarrow> string" where
  "sql_select_login login = ''select * from logins where login=='' @ quote @ login @ quote @ '';''"

section \<open>Operations\<close>

text \<open>\<open>home\<close> is what \<open>getenv("HOME")\<close> returns. The directory that may have to be created is
  outside the model.\<close>

definition Database_ctor :: "'h sqlite \<Rightarrow> string option \<Rightarrow> 'h Database result" where
  "Database_ctor eng home =
     (case home of
        None \<Rightarrow> Inl NullString
      | Some dir \<Rightarrow>
          let dir_path = cstr dir @ ''/Appchat/'';
              name = ''file://'' @ dir_path @ ''history.db'';
              (rc, hdl) = sq_open eng (cstr name)
          in if rc \<noteq> SQLITE_OK then Inr \<lparr>db_name = name, db_ptr = None\<rparr>
             else case sq_exec eng (Some hdl) (cstr create_table_history) of (rc, err, ptr) \<Rightarrow>
               if rc \<noteq> SQLITE_OK then Inr \<lparr>db_name = name, db_ptr = None\<rparr>
               else case sq_exec eng ptr (cstr create_table_logins) of (rc, err, ptr) \<Rightarrow>
                 if rc \<noteq> SQLITE_OK then Inr \<lparr>db_name = name, db_ptr = None\<rparr>
                 else Inr \<lparr>db_name = name, db_ptr = ptr\<rparr>)"

text \<open>The stamp stored with every message is a constant of the code; only its rendering goes
  through \<open>boost::format\<close>.\<close>

definition history_stamp :: "(nat \<Rightarrow> string) \<Rightarrow> string" where
  "history_stamp fmt02 =
     to_string_nat (0 + 2000) @ ''-'' @ fmt02 1 @ ''-'' @ fmt02 1 @ '' '' @
     fmt02 9 @ '':'' @ fmt02 15 @ '':'' @ fmt02 12"

definition save_text_msg ::
  "'h sqlite \<Rightarrow> (nat \<Rightarrow> string) \<Rightarrow> TextSendData \<Rightarrow> 'h Database \<Rightarrow> 'h Database" where
  "save_text_msg eng fmt02 msg db =
     (let insert_query =
        sql_insert_history (td_login msg) (td_room_id msg) (history_stamp fmt02) (td_text msg)
      in case sq_exec eng (db_ptr db) (cstr insert_query) of (rc, err, ptr) \<Rightarrow>
           if rc \<noteq> SQLITE_OK then db\<lparr>db_ptr := None\<rparr> else db\<lparr>db_ptr := ptr\<rparr>)"

text \<open>One turn of the loop over the rows of a history query.\<close>

definition history_entry :: "sql_row \<Rightarrow> TextSendData result" where
  "history_entry row =
     and_then (std_string (fst (row 0))) (\<lambda>author.
     and_then (std_string (fst (row 2))) (\<lambda>dt.
     and_then (std_string (fst (row 3))) (\<lambda>message.
       Inr \<lparr>td_room_id = snd (row 1), td_login = author, td_text = message\<rparr>)))"

fun history_entries :: "sql_row list \<Rightarrow> TextSendData list result" where
  "history_entries [] = Inr []"
| "history_entries (row # rows) =
     and_then (history_entry row) (\<lambda>m. and_then (history_entries rows) (\<lambda>ms. Inr (m # ms)))"

text \<open>A statement that does not compile closes the database; \<open>step\<close> on the null statement that is
  left then returns no row.\<close>

definition get_history ::
  "'h sqlite \<Rightarrow> int32 \<Rightarrow> 'h Database \<Rightarrow> (TextSendData list \<times> 'h Database) result" where
  "get_history eng roomid db =
     (case sq_query eng (db_ptr db) (cstr (sql_select_history roomid)) of
        None \<Rightarrow> Inr ([], db\<lparr>db_ptr := None\<rparr>)
      | Some (rows, ret_code) \<Rightarrow> and_then (history_entries rows) (\<lambda>h. Inr (h, db)))"

text \<open>The error message is freed where the error is logged and again at the end, unless the
  database pointer is null.\<close>

definition add_logins ::
  "'h sqlite \<Rightarrow> string \<Rightarrow> int32 \<Rightarrow> string \<Rightarrow> 'h Database \<Rightarrow> 'h Database result" where
  "add_logins eng login login_id password db =
     (case sq_exec eng (db_ptr db) (cstr (sql_insert_login login login_id password)) of
        (rc, err_msg2, ptr) \<Rightarrow>
          if rc \<noteq> SQLITE_OK \<and> err_msg2 \<noteq> None \<and> ptr \<noteq> None then Inl DoubleFree
          else Inr (db\<lparr>db_ptr := ptr\<rparr>))"

definition get_loginid :: "'h sqlite \<Rightarrow> string \<Rightarrow> 'h Database \<Rightarrow> int32" where
  "get_loginid eng login db =
     (case sq_query eng (db_ptr db) (cstr (sql_select_login login)) of
        None \<Rightarrow> -1
      | Some (rows, ret_code) \<Rightarrow> foldl (\<lambda>result row. snd (row 1)) (-1) rows)"

fun check_rows :: "string \<Rightarrow> int32 \<Rightarrow> sql_row list \<Rightarrow> int32 result" where
  "check_rows password result [] = Inr result"
| "check_rows password result (row # rows) =
     and_then (std_string (fst (row 2))) (\<lambda>stored.
       check_rows password (if password = stored then snd (row 1) else result) rows)"

definition check_client :: "'h sqlite \<Rightarrow> string \<Rightarrow> string \<Rightarrow> 'h Database \<Rightarrow> int32 result" where
  "check_client eng login password db =
     (case sq_query eng (db_ptr db) (cstr (sql_select_login login)) of
        None \<Rightarrow> Inr (-1)
      | Some (rows, ret_code) \<Rightarrow> check_rows password (-1) rows)"

section \<open>What SQLite does on these statements\<close>

text \<open>Text that needs no escaping inside an SQL literal and no byte that ends a C string; with the
  bound, the statements built from it stay below \<open>SQLITE_MAX_SQL_LENGTH\<close> and the rows below
  \<open>SQLITE_MAX_LENGTH\<close> (a thousand million bytes each).\<close>

definition unquoted :: "string \<Rightarrow> bool" where
  "unquoted s \<longleftrightarrow> list_all (\<lambda>c. c \<noteq> CHR 0x27 \<and> c \<noteq> CHR 0x00) s"

definition plain :: "string \<Rightarrow> bool" where
  "plain s \<longleftrightarrow> unquoted s \<and> length s < 2 ^ 28"

text \<open>\<open>sqlite3_column_blob\<close> of a text value: a null pointer for the empty one.\<close>

definition blob :: "string \<Rightarrow> string option" where
  "blob s = (if s = [] then None else Some s)"

type_synonym entry = "string \<times> int32 \<times> string"

definition login_view :: "sql_row \<Rightarrow> string option \<times> int32 \<times> string option" where
  "login_view row = (fst (row 0), snd (row 1), fst (row 2))"

definition history_view :: "sql_row \<Rightarrow> string option \<times> int32 \<times> string option" where
  "history_view row = (fst (row 0), snd (row 1), fst (row 3))"

definition stored :: "entry \<Rightarrow> string option \<times> int32 \<times> string option" where
  "stored = (\<lambda>(a, i, b). (blob a, i, blob b))"

text \<open>
  \<open>logins\<close> and \<open>history\<close> read the two tables of an open file. \<open>intact\<close> is the state in which SQLite
  serves the statements: the file holds the two tables as the code creates them, in UTF-8, SQLite
  renders every stamp of the history, the file is readable and writable with room left on its medium,
  and no other process holds a lock on it. Room on the medium is not counted, like memory: the laws
  speak of SQLite as long as the file can grow. Outside \<open>intact\<close> (no tables, an I/O error, a full
  disk, a busy file) nothing is promised but for the null handle. The order in which a query without \<open>ORDER BY\<close>
  returns its rows is not specified.
\<close>

locale sqlite_laws =
  fixes eng :: "'h sqlite"
    and logins :: "'h \<Rightarrow> entry list"
    and history :: "'h \<Rightarrow> entry list"
    and intact :: "'h \<Rightarrow> bool"
  assumes insert_login: "\<lbrakk>intact h; plain l; plain p\<rbrakk> \<Longrightarrow>
      \<exists>h'. sq_exec eng (Some h) (sql_insert_login l i p) = (SQLITE_OK, None, Some h') \<and>
        logins h' = logins h @ [(l, i, p)] \<and> history h' = history h \<and> intact h'"
    and select_login: "\<lbrakk>intact h; plain l\<rbrakk> \<Longrightarrow>
      \<exists>rows. sq_query eng (Some h) (sql_select_login l) = Some (rows, SQLITE_DONE) \<and>
        mset (map login_view rows) = mset (map stored (filter (\<lambda>e. fst e = l) (logins h)))"
    and insert_history: "\<lbrakk>intact h; plain l; plain t\<rbrakk> \<Longrightarrow>
      \<exists>h'. sq_exec eng (Some h) (sql_insert_history l r ''2000-01-01 09:15:12'' t) =
          (SQLITE_OK, None, Some h') \<and>
        logins h' = logins h \<and> history h' = history h @ [(l, r, t)] \<and> intact h'"
    and select_history: "intact h \<Longrightarrow>
      \<exists>rows. sq_query eng (Some h) (sql_select_history r) = Some (rows, SQLITE_DONE) \<and>
        mset (map history_view rows) = mset (map stored (filter (\<lambda>e. fst (snd e) = r) (history h))) \<and>
        (\<forall>row \<in> set rows. fst (row 2) \<noteq> None)"
    and create_tables: "\<lbrakk>intact h; q \<in> {create_table_history, create_table_logins}\<rbrakk> \<Longrightarrow>
      \<exists>h'. sq_exec eng (Some h) q = (SQLITE_OK, None, Some h') \<and>
        logins h' = logins h \<and> history h' = history h \<and> intact h'"
    and null_handle: "sq_exec eng None q = (SQLITE_MISUSE, None, None)" "sq_query eng None q = None"

text \<open>
  A statement that ends inside a literal does not compile: the parser stops at a syntax error before
  that or at the unrecognised token, nothing is executed, and \<open>sqlite3_exec\<close> returns \<open>SQLITE_ERROR\<close>
  with a message. Only letters,
  digits, blanks and \<open>( ) , = *\<close> are allowed outside the literals, so that a quote there always opens
  one: no comment, no other form of quoting, no parameter name, and no \<open>;\<close> that would end a first
  statement. Two quotes inside a literal leave it and enter it again, which comes to the same.
\<close>

definition bare :: "char \<Rightarrow> bool" where
  "bare c \<longleftrightarrow> (let n = of_char c :: nat in 48 \<le> n \<and> n \<le> 57 \<or> 65 \<le> n \<and> n \<le> 90 \<or> 97 \<le> n \<and> n \<le> 122) \<or>
     c \<in> {CHR '' '', CHR ''('', CHR '')'', CHR '','', CHR ''='', CHR ''*''}"

fun open_literal :: "bool \<Rightarrow> string \<Rightarrow> bool" where
  "open_literal inside [] = inside"
| "open_literal inside (c # s) =
     (if c = CHR 0x27 then open_literal (\<not> inside) s
      else if inside then c \<noteq> CHR 0x00 \<and> open_literal True s
      else bare c \<and> open_literal False s)"

locale sqlite_syntax = sqlite_laws +
  assumes open_literal_fails: "\<lbrakk>intact h; open_literal False q; length q < 10 ^ 9\<rbrakk> \<Longrightarrow>
      \<exists>msg. sq_exec eng (Some h) q = (1, Some msg, Some h)"
    "\<lbrakk>intact h; open_literal False q; length q < 10 ^ 9\<rbrakk> \<Longrightarrow> sq_query eng (Some h) q = None"

section \<open>C strings\<close>

lemma unquoted_simps [simp]:
  "unquoted []" "unquoted (c # s) \<longleftrightarrow> c \<noteq> CHR 0x27 \<and> c \<noteq> CHR 0x00 \<and> unquoted s"
  "unquoted (s @ t) \<longleftrightarrow> unquoted s \<and> unquoted t"
  by (simp_all add: unquoted_def)

lemma plain_simps [simp]:
  "plain []" "plain (c # s) \<longleftrightarrow> unquoted (c # s) \<and> length (c # s) < 2 ^ 28"
  by (simp_all add: plain_def)

lemma plain_unquoted [simp]: "plain s \<Longrightarrow> unquoted s"
  by (simp add: plain_def)

definition no_nul :: "string \<Rightarrow> bool" where
  "no_nul s \<longleftrightarrow> CHR 0x00 \<notin> set s"

lemma no_nul_simps [simp]:
  "no_nul []" "no_nul (c # s) \<longleftrightarrow> c \<noteq> CHR 0x00 \<and> no_nul s" "no_nul (s @ t) \<longleftrightarrow> no_nul s \<and> no_nul t"
  by (auto simp: no_nul_def)

lemma unquoted_no_nul: "unquoted s \<Longrightarrow> no_nul s"
  by (auto simp: unquoted_def no_nul_def list_all_iff)

lemma plain_no_nul [simp]: "plain s \<Longrightarrow> no_nul s"
  by (simp add: unquoted_no_nul)

lemma cstr_id: "no_nul s \<Longrightarrow> cstr s = s"
  unfolding cstr_def no_nul_def by (induction s) auto

lemma digits_no_nul: "list_all is_digit s \<Longrightarrow> no_nul s"
  by (auto simp: no_nul_def list_all_iff is_digit_def)

lemma to_string_no_nul [simp]: "no_nul (to_string_nat n)" "no_nul (to_string_int i)"
  by (simp_all add: to_string_int_def digits_no_nul to_string_nat_digits)

lemma no_nul_quote [simp]: "no_nul quote"
  by (simp add: quote_def)

lemma cstr_statements [simp]:
  "no_nul l \<Longrightarrow> no_nul p \<Longrightarrow> cstr (sql_insert_login l i p) = sql_insert_login l i p"
  "no_nul l \<Longrightarrow> cstr (sql_select_login l) = sql_select_login l"
  "no_nul l \<Longrightarrow> no_nul d \<Longrightarrow> no_nul t \<Longrightarrow> cstr (sql_insert_history l r d t) = sql_insert_history l r d t"
  "cstr (sql_select_history r) = sql_select_history r"
  "cstr create_table_history = create_table_history"
  "cstr create_table_logins = create_table_logins"
  by (rule cstr_id, simp add: sql_insert_login_def sql_select_login_def sql_insert_history_def
      sql_select_history_def create_table_history_def create_table_logins_def)+

lemma digit_chars:
  "digit 0 = CHR ''0''" "digit 1 = CHR ''1''" "digit 2 = CHR ''2''" "digit 5 = CHR ''5''"
  "digit 9 = CHR ''9''" "digit (Suc 0) = CHR ''1''"
  by (simp_all add: digit_def char_of_def bit_0)

context boost_format
begin

lemma history_stamp_value: "history_stamp fmt02 = ''2000-01-01 09:15:12''"
  by (simp add: history_stamp_def fmt02_two_digits to_string_nat.simps digit_chars)

end

section \<open>Accounts\<close>

text \<open>The abstract content of the table of logins: who is registered, under which identifier and
  with which password.\<close>

definition account :: "entry list \<Rightarrow> string \<Rightarrow> (int32 \<times> string) option" where
  "account es l = map_of es l"

definition accounts_ok :: "entry list \<Rightarrow> bool" where
  "accounts_ok es \<longleftrightarrow> distinct (map fst es) \<and>
     list_all (\<lambda>(l, i, p). plain l \<and> plain p \<and> p \<noteq> []) es"

definition message_of :: "entry \<Rightarrow> TextSendData" where
  "message_of = (\<lambda>(l, r, t). \<lparr>td_room_id = r, td_login = l, td_text = t\<rparr>)"

definition history_ok :: "entry list \<Rightarrow> bool" where
  "history_ok es \<longleftrightarrow> list_all (\<lambda>(l, r, t). plain l \<and> l \<noteq> [] \<and> plain t \<and> t \<noteq> []) es"

lemma accounts_ok_snoc:
  "accounts_ok (es @ [(l, i, p)]) \<longleftrightarrow>
    accounts_ok es \<and> account es l = None \<and> plain l \<and> plain p \<and> p \<noteq> []"
  by (auto simp: accounts_ok_def account_def map_of_eq_None_iff)

lemma account_snoc:
  "account es l = None \<Longrightarrow> account (es @ [(l, i, p)]) = (account es)(l \<mapsto> (i, p))"
  by (auto simp: account_def fun_eq_iff map_add_def split: option.splits)

lemma history_ok_snoc [simp]:
  "history_ok (es @ [(l, r, t)]) \<longleftrightarrow> history_ok es \<and> plain l \<and> l \<noteq> [] \<and> plain t \<and> t \<noteq> []"
  by (auto simp: history_ok_def)

lemma accounts_filter:
  assumes "distinct (map fst es)"
  shows "filter (\<lambda>e. fst e = l) es = (case account es l of None \<Rightarrow> [] | Some (i, p) \<Rightarrow> [(l, i, p)])"
  using assms
proof (induction es)
  case (Cons e es)
  have "fst e \<notin> set (map fst es) \<Longrightarrow> filter (\<lambda>x. fst x = fst e) es = []"
    by (auto simp: filter_empty_conv image_iff)
  with Cons show ?case by (cases e) (auto simp: account_def)
qed (simp add: account_def)

lemma accounts_ok_account:
  "accounts_ok es \<Longrightarrow> account es l = Some (i, p) \<Longrightarrow> plain p \<and> p \<noteq> []"
  by (auto simp: accounts_ok_def account_def list_all_iff dest!: map_of_SomeD)

lemma mset_map_single: "image_mset f (mset xs) = {#y#} \<Longrightarrow> \<exists>x. xs = [x] \<and> f x = y"
  by (cases xs) (auto simp: add_mset_eq_single)

lemma cstr_plain [simp]: "plain s \<Longrightarrow> cstr s = s"
  by (simp add: cstr_id)

lemma std_string_blob: "plain s \<Longrightarrow> s \<noteq> [] \<Longrightarrow> std_string (blob s) = Inr s"
  by (simp add: std_string_def blob_def)

section \<open>History rows\<close>

definition row_message :: "string option \<times> int32 \<times> string option \<Rightarrow> TextSendData" where
  "row_message = (\<lambda>(a, r, t). \<lparr>td_room_id = r, td_login = cstr (the a), td_text = cstr (the t)\<rparr>)"

lemma history_entries_ok:
  assumes "\<forall>row \<in> set rows. fst (row 0) \<noteq> None \<and> fst (row 2) \<noteq> None \<and> fst (row 3) \<noteq> None"
  shows "history_entries rows = Inr (map (row_message \<circ> history_view) rows)"
  using assms
  by (induction rows)
    (auto simp: history_entry_def std_string_def row_message_def history_view_def)

lemma history_entry_null:
  "fst (row 0) = None \<or> fst (row 3) = None \<Longrightarrow> history_entry row = Inl NullString"
  by (auto simp: history_entry_def std_string_def split: option.splits)

lemma history_entries_null:
  "row \<in> set rows \<Longrightarrow> fst (row 0) = None \<or> fst (row 3) = None \<Longrightarrow>
    history_entries rows = Inl NullString"
proof (induction rows)
  case (Cons r rows)
  have "history_entry r = Inl NullString \<or> (\<exists>m. history_entry r = Inr m)"
    by (auto simp: history_entry_def std_string_def split: option.splits)
  then show ?case using Cons by (auto simp: history_entry_null)
qed simp

lemma mset_map_mem: "mset (map f xs) = mset (map g ys) \<Longrightarrow> y \<in> set ys \<Longrightarrow> \<exists>x \<in> set xs. f x = g y"
  by (metis (mono_tags, opaque_lifting) image_iff list.set_map mset_eq_setD)

lemma mset_map_comp:
  assumes "mset (map g xs) = mset (map h ys)"
  shows "mset (map (f \<circ> g) xs) = mset (map (f \<circ> h) ys)"
proof -
  have "mset (map (f \<circ> k) zs) = image_mset f (mset (map k zs))" for k zs
    by (simp add: multiset.map_comp)
  then show ?thesis using assms by metis
qed

context sqlite_laws
begin

lemma add_logins_open:
  assumes "db_ptr db = Some h" and "intact h" and "plain l" and "plain p"
  shows "\<exists>h'. add_logins eng l i p db = Inr (db\<lparr>db_ptr := Some h'\<rparr>) \<and>
    logins h' = logins h @ [(l, i, p)] \<and> history h' = history h \<and> intact h'"
  using insert_login [OF assms(2-4), of i] assms by (auto simp: add_logins_def)

lemma login_rows:
  assumes "db_ptr db = Some h" and "intact h" and "plain l" and "distinct (map fst (logins h))"
  shows "\<exists>rows. sq_query eng (db_ptr db) (sql_select_login l) = Some (rows, SQLITE_DONE) \<and>
    (case account (logins h) l of
       None \<Rightarrow> rows = []
     | Some (i, p) \<Rightarrow> \<exists>row. rows = [row] \<and> snd (row 1) = i \<and> fst (row 2) = blob p)"
  using select_login [OF assms(2,3)] assms(1)
  by (auto simp: accounts_filter [OF assms(4)] stored_def login_view_def
      split: option.splits dest!: mset_map_single)

lemma get_loginid_open:
  assumes "db_ptr db = Some h" and "intact h" and "plain l" and "accounts_ok (logins h)"
  shows "get_loginid eng l db = (case account (logins h) l of None \<Rightarrow> -1 | Some (i, p) \<Rightarrow> i)"
  using login_rows [of db h l] assms
  by (auto simp: get_loginid_def accounts_ok_def split: option.splits)

lemma check_client_open:
  assumes "db_ptr db = Some h" and "intact h" and "plain l" and "accounts_ok (logins h)"
  shows "check_client eng l pw db = Inr
    (case account (logins h) l of None \<Rightarrow> -1 | Some (i, p) \<Rightarrow> if pw = p then i else -1)"
proof -
  have "\<And>i p. account (logins h) l = Some (i, p) \<Longrightarrow> std_string (blob p) = Inr p"
    using accounts_ok_account [OF assms(4)] by (simp add: std_string_blob)
  then show ?thesis
    using login_rows [of db h l] assms
    by (auto simp: check_client_def accounts_ok_def split: option.splits)
qed

lemma save_text_msg_open:
  assumes "db_ptr db = Some h" and "intact h" and "plain l" and "plain t"
    and "history_stamp fmt02 = ''2000-01-01 09:15:12''"
  shows "\<exists>h'. save_text_msg eng fmt02 \<lparr>td_room_id = r, td_login = l, td_text = t\<rparr> db =
      db\<lparr>db_ptr := Some h'\<rparr> \<and>
    logins h' = logins h \<and> history h' = history h @ [(l, r, t)] \<and> intact h'"
  using insert_history [OF assms(2-4), of r] assms by (auto simp: save_text_msg_def)

lemma get_history_open:
  assumes "db_ptr db = Some h" and "intact h" and "history_ok (history h)"
  shows "\<exists>ms. get_history eng r db = Inr (ms, db) \<and>
    mset ms = mset (map message_of (filter (\<lambda>e. fst (snd e) = r) (history h)))"
proof -
  let ?es = "filter (\<lambda>e. fst (snd e) = r) (history h)"
  obtain rows where rows: "sq_query eng (Some h) (sql_select_history r) = Some (rows, SQLITE_DONE)"
    "mset (map history_view rows) = mset (map stored ?es)" "\<forall>row \<in> set rows. fst (row 2) \<noteq> None"
    using select_history [OF assms(2)] by blast
  have ok: "\<forall>(l, r, t) \<in> set ?es. plain l \<and> l \<noteq> [] \<and> plain t \<and> t \<noteq> []"
    using assms(3) by (auto simp: history_ok_def list_all_iff)
  have view: "\<exists>e \<in> set ?es. history_view row = stored e" if "row \<in> set rows" for row
    using mset_map_mem [OF rows(2) [symmetric], of row] that by metis
  have "fst (row 0) \<noteq> None \<and> fst (row 2) \<noteq> None \<and> fst (row 3) \<noteq> None" if "row \<in> set rows" for row
  proof -
    obtain l r' t where e: "(l, r', t) \<in> set ?es" "history_view row = stored (l, r', t)"
      using view [OF \<open>row \<in> set rows\<close>] by (metis prod_cases3)
    then have "l \<noteq> []" "t \<noteq> []" using ok by auto
    then show ?thesis
      using e(2) rows(3) that by (simp add: history_view_def stored_def blob_def)
  qed
  then have "\<forall>row \<in> set rows. fst (row 0) \<noteq> None \<and> fst (row 2) \<noteq> None \<and> fst (row 3) \<noteq> None"
    by blast
  then have "history_entries rows = Inr (map (row_message \<circ> history_view) rows)"
    by (rule history_entries_ok)
  moreover have "mset (map (row_message \<circ> history_view) rows) = mset (map (row_message \<circ> stored) ?es)"
    using rows(2) by (rule mset_map_comp)
  moreover have "map (row_message \<circ> stored) ?es = map message_of ?es"
    using ok by (auto simp: row_message_def stored_def message_of_def blob_def)
  ultimately show ?thesis
    using rows(1) assms(1) by (simp add: get_history_def)
qed

lemma get_history_null:
  assumes "db_ptr db = Some h" and "intact h" and "(l, r, []) \<in> set (history h)"
  shows "get_history eng r db = Inl NullString"
proof -
  let ?es = "filter (\<lambda>e. fst (snd e) = r) (history h)"
  obtain rows where rows: "sq_query eng (Some h) (sql_select_history r) = Some (rows, SQLITE_DONE)"
    "mset (map history_view rows) = mset (map stored ?es)"
    using select_history [OF assms(2)] by blast
  obtain row where "row \<in> set rows" "history_view row = stored (l, r, [])"
    using mset_map_mem [OF rows(2), of "(l, r, [])"] assms(3) by auto
  then show ?thesis
    using history_entries_null [of row rows] rows(1) assms(1)
    by (simp add: get_history_def history_view_def stored_def blob_def)
qed

lemma closed_database:
  assumes "db_ptr db = None"
  shows "add_logins eng l i p db = Inr db" "get_loginid eng l db = -1"
    "check_client eng l p db = Inr (-1)" "get_history eng r db = Inr ([], db)"
    "save_text_msg eng fmt02 m db = db"
  using assms by (cases db, simp add: null_handle add_logins_def get_loginid_def check_client_def
      get_history_def save_text_msg_def Let_def)+

end

section \<open>Statements that end inside a literal\<close>

lemma open_literal_inside: "unquoted s \<Longrightarrow> open_literal True (s @ t) \<longleftrightarrow> open_literal True t"
  by (induction s) auto

lemma open_literal_outside: "list_all bare s \<Longrightarrow> open_literal False (s @ t) \<longleftrightarrow> open_literal False t"
  by (induction s) (auto simp: bare_def)

lemma open_literal_quote [simp]: "open_literal b (quote @ s) \<longleftrightarrow> open_literal (\<not> b) s"
  by (simp add: quote_def)

lemma digits_unquoted: "list_all is_digit s \<Longrightarrow> unquoted s"
  by (induction s) (auto simp: is_digit_def)

lemma to_string_unquoted [simp]: "unquoted (to_string_int i)"
  by (simp add: to_string_int_def digits_unquoted to_string_nat_digits)

lemma quoted_login_open:
  assumes "plain l" and "plain p" and "list_all bare p"
  shows "open_literal False (sql_insert_login (l @ quote) i p)" "open_literal False (sql_select_login (l @ quote))"
proof -
  let ?mid = "'', '' @ to_string_int (sint i) @ '', ''"
  have "open_literal False (''insert into logins values('' @ s) = open_literal False s" for s
    by (rule open_literal_outside) (simp add: bare_def)
  moreover have "unquoted ?mid"
    by simp
  moreover have "sql_insert_login (l @ quote) i p =
      ''insert into logins values('' @ quote @ l @ quote @ quote @ ?mid @ quote @ p @ quote @ '');''"
    by (simp add: sql_insert_login_def)
  ultimately show "open_literal False (sql_insert_login (l @ quote) i p)"
    using assms by (simp add: open_literal_inside open_literal_outside del: append_assoc append_Cons)
  show "open_literal False (sql_select_login (l @ quote))"
    using assms(1) by (simp add: sql_select_login_def open_literal_inside bare_def)
qed

lemma quoted_login_length:
  assumes "plain l" and "plain p"
  shows "length (sql_insert_login (l @ quote) i p) < 10 ^ 9" "length (sql_select_login (l @ quote)) < 10 ^ 9"
  using assms length_to_string_int32 [of i]
  by (simp_all add: plain_def sql_insert_login_def sql_select_login_def quote_def)

context sqlite_syntax
begin

lemma quoted_login_refused:
  assumes "db_ptr db = Some h" and "intact h" and "plain l" and "plain p" and "list_all bare p"
  shows "get_loginid eng (l @ quote) db = -1" "add_logins eng (l @ quote) i p db = Inl DoubleFree"
  using open_literal_fails(1) [OF assms(2) quoted_login_open(1) quoted_login_length(1), of l p i]
    open_literal_fails(2) [OF assms(2) quoted_login_open(2) quoted_login_length(2), of l p p] assms
  by (auto simp: get_loginid_def add_logins_def)

end

end
