(* ===== verification/Channel.thy ===== *)
theory Channel
  imports Database
begin

text \<open>
  \<open>server/connection/isubscriber.h\<close>, \<open>server/channel/iroom.h\<close>, \<open>channel.h\<close> and \<open>channel.cpp\<close>: a
  room with its subscribers and its history. The subscribers are shared objects behind the
  interface \<open>ISubscriber\<close>: the record \<open>isubscriber\<close> is its table of virtual functions on a world
  \<open>'w\<close> of objects with pointers \<open>'p\<close>, and the locale \<open>subscriber_laws\<close> what a room relies on. The
  server's \<open>Connection\<close> interprets it.
\<close>

section \<open>The subscriber interface\<close>

record ('p, 'w) isubscriber =
  sub_client_id :: "'w \<Rightarrow> 'p \<Rightarrow> int32"
  sub_login :: "'w \<Rightarrow> 'p \<Rightarrow> string"
  sub_send :: "'p \<Rightarrow> string \<Rightarrow> string \<Rightarrow> int32 \<Rightarrow> 'w \<Rightarrow> 'w"
  sub_set_busy :: "'p \<Rightarrow> bool \<Rightarrow> 'w \<Rightarrow> 'w"
  sub_set_channel :: "'p \<Rightarrow> int32 \<Rightarrow> 'w \<Rightarrow> 'w"

section \<open>The channel\<close>

record 'p channel =
  subscribers :: "(int32 \<times> 'p) list"
  channel_id :: int32
  history_room :: "TextSendData list"

text \<open>The constructor loads the room's history; a null database pointer leaves it empty.\<close>

definition Channel_ctor ::
  "'h sqlite \<Rightarrow> int32 \<Rightarrow> 'h Database option \<Rightarrow> ('p channel \<times> 'h Database option) result" where
  "Channel_ctor eng room db =
     (case db of
        None \<Rightarrow> Inr (\<lparr>subscribers = [], channel_id = room, history_room = []\<rparr>, None)
      | Some d \<Rightarrow> and_then (get_history eng room d) (\<lambda>(h, d').
          Inr (\<lparr>subscribers = [], channel_id = room, history_room = h\<rparr>, Some d')))"

definition send_data :: "('p, 'w) isubscriber \<Rightarrow> 'p \<Rightarrow> TextSendData \<Rightarrow> 'w \<Rightarrow> 'w" where
  "send_data sub p data = sub_send sub p (td_login data) (td_text data) (td_room_id data)"

definition Channel_notification ::
  "('p, 'w) isubscriber \<Rightarrow> TextSendData \<Rightarrow> 'p channel \<times> 'w \<Rightarrow> 'p channel \<times> 'w" where
  "Channel_notification sub data = (\<lambda>(ch, w).
     let w = fold (\<lambda>(k, p). send_data sub p data) (subscribers ch) w
     in (ch\<lparr>history_room := history_room ch @ [data]\<rparr>, w))"

definition join_message :: "string \<Rightarrow> int32 \<Rightarrow> string" where
  "join_message login room = login @ '' joined to room_id='' @ to_string_int (sint room)"

definition leave_message :: "string \<Rightarrow> int32 \<Rightarrow> string" where
  "leave_message login room = login @ '' leave from room_id='' @ to_string_int (sint room)"

definition notice :: "int32 \<Rightarrow> string \<Rightarrow> string \<Rightarrow> TextSendData" where
  "notice room login text = \<lparr>td_room_id = room, td_login = login, td_text = text\<rparr>"

definition Channel_join ::
  "('p, 'w) isubscriber \<Rightarrow> 'p \<Rightarrow> 'p channel \<times> 'w \<Rightarrow> 'p channel \<times> 'w" where
  "Channel_join sub p = (\<lambda>(ch, w).
     let w = sub_set_busy sub p True w;
         message = join_message (sub_login sub w p) (channel_id ch);
         w = fold (send_data sub p) (history_room ch) w;
         ch = ch\<lparr>subscribers := um_try_emplace (sub_client_id sub w p) p (subscribers ch)\<rparr>
     in Channel_notification sub (notice (channel_id ch) (sub_login sub w p) message) (ch, w))"

text \<open>\<open>leave(subscriber_ptr)\<close> and \<open>leave(identifier_t)\<close>: the first erases before it notifies, the
  second after.\<close>

definition Channel_leave_ptr ::
  "('p, 'w) isubscriber \<Rightarrow> 'p \<Rightarrow> 'p channel \<times> 'w \<Rightarrow> 'p channel \<times> 'w" where
  "Channel_leave_ptr sub p = (\<lambda>(ch, w).
     let w = sub_set_busy sub p False w;
         ch = ch\<lparr>subscribers := AList.delete (sub_client_id sub w p) (subscribers ch)\<rparr>;
         message = leave_message (sub_login sub w p) (channel_id ch)
     in Channel_notification sub (notice (channel_id ch) (sub_login sub w p) message) (ch, w))"

definition Channel_leave_id ::
  "('p, 'w) isubscriber \<Rightarrow> int32 \<Rightarrow> 'p channel \<times> 'w \<Rightarrow> 'p channel \<times> 'w" where
  "Channel_leave_id sub client_id = (\<lambda>(ch, w).
     case map_of (subscribers ch) client_id of
       Some p \<Rightarrow>
         let message = leave_message (sub_login sub w p) (channel_id ch);
             (ch, w) = Channel_notification sub
               (notice (channel_id ch) (sub_login sub w p) message) (ch, w)
         in (ch\<lparr>subscribers := AList.delete client_id (subscribers ch)\<rparr>, w)
     | None \<Rightarrow> (ch, w))"

text \<open>The destructor calls \<open>leave\<close> from a loop over the map: the call erases the entry of the
  subscriber's current identifier. When that is the entry that the loop stands on, advancing the
  loop uses an invalid iterator.\<close>

function Channel_dtor_loop :: "('p, 'w) isubscriber \<Rightarrow> (int32 \<times> 'p) list \<Rightarrow> 'p channel \<times> 'w \<Rightarrow>
    ('p channel \<times> 'w) result" where
  "Channel_dtor_loop sub [] s = Inr s"
| "Channel_dtor_loop sub ((k, p) # rest) s =
     (let key = sub_client_id sub (sub_set_busy sub p False (snd s)) p;
          s = Channel_leave_ptr sub p s
      in if key = k then Inl UseAfterErase
         else Channel_dtor_loop sub (AList.delete key rest) s)"
  by pat_completeness auto
termination
  by (relation "measure (\<lambda>(sub, es, s). length es)")
    (auto simp: less_Suc_eq_le length_delete_le)

definition Channel_dtor :: "('p, 'w) isubscriber \<Rightarrow> 'p channel \<times> 'w \<Rightarrow> ('p channel \<times> 'w) result" where
  "Channel_dtor sub s = Channel_dtor_loop sub (subscribers (fst s)) s"

section \<open>What a room relies on\<close>

text \<open>\<open>inbox w p\<close> is what was handed to the subscriber \<open>p\<close> to be written, \<open>frame\<close> the form one
  message takes there.\<close>

locale subscriber_laws =
  fixes sub :: "('p, 'w) isubscriber"
    and inbox :: "'w \<Rightarrow> 'p \<Rightarrow> 'f list"
    and frame :: "string \<Rightarrow> string \<Rightarrow> int32 \<Rightarrow> 'f"
  assumes inbox_send: "inbox (sub_send sub p l t r w) q =
      (if q = p then inbox w p @ [frame l t r] else inbox w q)"
    and id_send: "sub_client_id sub (sub_send sub p l t r w) q = sub_client_id sub w q"
    and login_send: "sub_login sub (sub_send sub p l t r w) q = sub_login sub w q"
    and inbox_busy: "inbox (sub_set_busy sub p b w) q = inbox w q"
    and id_busy: "sub_client_id sub (sub_set_busy sub p b w) q = sub_client_id sub w q"
    and login_busy: "sub_login sub (sub_set_busy sub p b w) q = sub_login sub w q"
    and inbox_channel: "inbox (sub_set_channel sub p r w) q = inbox w q"
    and id_channel: "sub_client_id sub (sub_set_channel sub p r w) q = sub_client_id sub w q"
    and login_channel: "sub_login sub (sub_set_channel sub p r w) q = sub_login sub w q"
begin

definition data_frame :: "TextSendData \<Rightarrow> 'f" where
  "data_frame d = frame (td_login d) (td_text d) (td_room_id d)"

definition same_ids :: "'w \<Rightarrow> 'w \<Rightarrow> bool" where
  "same_ids w w' \<longleftrightarrow> sub_client_id sub w' = sub_client_id sub w \<and> sub_login sub w' = sub_login sub w"

lemmas laws = inbox_send id_send login_send inbox_busy id_busy login_busy inbox_channel id_channel
  login_channel

lemma send_data_simps [simp]:
  "inbox (send_data sub p d w) q = inbox w q @ (if q = p then [data_frame d] else [])"
  "sub_client_id sub (send_data sub p d w) = sub_client_id sub w"
  "sub_login sub (send_data sub p d w) = sub_login sub w"
  by (auto simp: send_data_def data_frame_def laws)

lemma send_history [simp]:
  "inbox (fold (send_data sub p) ds w) q = inbox w q @ (if q = p then map data_frame ds else [])"
  "sub_client_id sub (fold (send_data sub p) ds w) = sub_client_id sub w"
  "sub_login sub (fold (send_data sub p) ds w) = sub_login sub w"
  by (induction ds arbitrary: w) auto

lemma broadcast [simp]:
  "inbox (fold (\<lambda>(k, p). send_data sub p d) ss w) q =
     inbox w q @ replicate (count_list (map snd ss) q) (data_frame d)"
  "sub_client_id sub (fold (\<lambda>(k, p). send_data sub p d) ss w) = sub_client_id sub w"
  "sub_login sub (fold (\<lambda>(k, p). send_data sub p d) ss w) = sub_login sub w"
  by (induction ss arbitrary: w) (auto split: prod.splits)

lemma notification_simps [chan_simps]:
  "subscribers (fst (Channel_notification sub d s)) = subscribers (fst s)"
  "channel_id (fst (Channel_notification sub d s)) = channel_id (fst s)"
  "history_room (fst (Channel_notification sub d s)) = history_room (fst s) @ [d]"
  "inbox (snd (Channel_notification sub d s)) q =
     inbox (snd s) q @ replicate (count_list (map snd (subscribers (fst s))) q) (data_frame d)"
  "sub_client_id sub (snd (Channel_notification sub d s)) = sub_client_id sub (snd s)"
  "sub_login sub (snd (Channel_notification sub d s)) = sub_login sub (snd s)"
  by (auto simp: Channel_notification_def split: prod.splits)

lemma busy_simps [simp]:
  "inbox (sub_set_busy sub p b w) = inbox w"
  "sub_client_id sub (sub_set_busy sub p b w) = sub_client_id sub w"
  "sub_login sub (sub_set_busy sub p b w) = sub_login sub w"
  by (auto simp: laws fun_eq_iff)

lemma join_simps [chan_simps]:
  "subscribers (fst (Channel_join sub p (ch, w))) =
     um_try_emplace (sub_client_id sub w p) p (subscribers ch)"
  "channel_id (fst (Channel_join sub p (ch, w))) = channel_id ch"
  "history_room (fst (Channel_join sub p (ch, w))) = history_room ch @
     [notice (channel_id ch) (sub_login sub w p) (join_message (sub_login sub w p) (channel_id ch))]"
  "inbox (snd (Channel_join sub p (ch, w))) q = inbox w q @
     (if q = p then map data_frame (history_room ch) else []) @
     replicate (count_list (map snd (um_try_emplace (sub_client_id sub w p) p (subscribers ch))) q)
       (data_frame (notice (channel_id ch) (sub_login sub w p)
         (join_message (sub_login sub w p) (channel_id ch))))"
  "sub_client_id sub (snd (Channel_join sub p (ch, w))) = sub_client_id sub w"
  "sub_login sub (snd (Channel_join sub p (ch, w))) = sub_login sub w"
  by (simp_all add: Channel_join_def Let_def notification_simps)

lemma leave_id_simps [chan_simps]:
  "subscribers (fst (Channel_leave_id sub c (ch, w))) = AList.delete c (subscribers ch)"
  "channel_id (fst (Channel_leave_id sub c (ch, w))) = channel_id ch"
  "sub_client_id sub (snd (Channel_leave_id sub c (ch, w))) = sub_client_id sub w"
  "sub_login sub (snd (Channel_leave_id sub c (ch, w))) = sub_login sub w"
  by (auto simp: Channel_leave_id_def notification_simps Let_def delete_id map_of_eq_None_iff
      split: option.splits prod.splits)
    (metis notification_simps fst_conv snd_conv)+

lemma leave_id_inbox [chan_simps]:
  "inbox (snd (Channel_leave_id sub c (ch, w))) q = inbox w q @
     (case map_of (subscribers ch) c of None \<Rightarrow> []
      | Some p \<Rightarrow> replicate (count_list (map snd (subscribers ch)) q)
          (data_frame (notice (channel_id ch) (sub_login sub w p)
            (leave_message (sub_login sub w p) (channel_id ch)))))"
  by (auto simp: Channel_leave_id_def Channel_notification_def Let_def split: option.splits)

lemma leave_id_absent: "map_of (subscribers ch) c = None \<Longrightarrow> Channel_leave_id sub c (ch, w) = (ch, w)"
  by (simp add: Channel_leave_id_def)

lemma leave_ptr_simps [chan_simps]:
  "subscribers (fst (Channel_leave_ptr sub p (ch, w))) =
     AList.delete (sub_client_id sub w p) (subscribers ch)"
  "channel_id (fst (Channel_leave_ptr sub p (ch, w))) = channel_id ch"
  "inbox (snd (Channel_leave_ptr sub p (ch, w))) q = inbox w q @
     replicate (count_list (map snd (AList.delete (sub_client_id sub w p) (subscribers ch))) q)
       (data_frame (notice (channel_id ch) (sub_login sub w p)
         (leave_message (sub_login sub w p) (channel_id ch))))"
  "sub_client_id sub (snd (Channel_leave_ptr sub p (ch, w))) = sub_client_id sub w"
  by (simp_all add: Channel_leave_ptr_def Let_def notification_simps)

text \<open>Whatever the order of the map, the loop of the destructor fails at its first entry whose
  subscriber still has the identifier that it is listed under.\<close>

lemma dtor_fails:
  assumes "subscribers ch = (k, p) # rest" and "sub_client_id sub w p = k"
  shows "Channel_dtor sub (ch, w) = Inl UseAfterErase"
  using assms by (simp add: Channel_dtor_def Let_def)

end

end
