(* ===== verification/ChannelsManager.thy ===== *)
theory ChannelsManager
  imports Channel
begin

text \<open>
  \<open>server/channel/channels_manager.h\<close> and \<open>channels_manager.cpp\<close>: the registry of rooms, of the
  rooms that each client joined and of the clients' logins. The state of an operation is the manager
  and the world of subscribers; joining also threads the database, which a new room reads.
\<close>

section \<open>State and operations\<close>

record 'p channels_manager =
  channels :: "(int32 \<times> 'p channel) list"
  client_in_rooms :: "(int32 \<times> int32 list) list"
  clientid_to_login :: "(int32 \<times> string) list"

definition Manager_ctor :: "'p channels_manager" where
  "Manager_ctor = \<lparr>channels = [], client_in_rooms = [], clientid_to_login = []\<rparr>"

definition add_room :: "int32 \<Rightarrow> int32 \<Rightarrow> (int32 \<times> int32 list) list \<Rightarrow> (int32 \<times> int32 list) list" where
  "add_room client room m =
     (case map_of m client of
        None \<Rightarrow> um_try_emplace client [room] m
      | Some rooms \<Rightarrow> AList.update client (rooms @ [room]) m)"

definition Manager_join :: "('p, 'w) isubscriber \<Rightarrow> 'h sqlite \<Rightarrow> 'p \<Rightarrow> int32 \<Rightarrow> 'h Database option \<Rightarrow>
    'p channels_manager \<times> 'w \<Rightarrow> (bool \<times> 'h Database option \<times> 'p channels_manager \<times> 'w) result" where
  "Manager_join sub eng new_sub new_room_id db = (\<lambda>(m, w).
     let m = m\<lparr>client_in_rooms := add_room (sub_client_id sub w new_sub) new_room_id (client_in_rooms m)\<rparr>
     in and_then
          (case map_of (channels m) new_room_id of
             Some ch \<Rightarrow> Inr (ch, db)
           | None \<Rightarrow> Channel_ctor eng new_room_id db)
          (\<lambda>(ch, db).
             let (ch, w) = Channel_join sub new_sub (ch, w);
                 m = m\<lparr>channels := AList.update new_room_id ch (channels m)\<rparr>;
                 m = m\<lparr>clientid_to_login := um_try_emplace (sub_client_id sub w new_sub)
                       (sub_login sub w new_sub) (clientid_to_login m)\<rparr>;
                 w = sub_set_channel sub new_sub new_room_id w
             in Inr (True, db, m, w)))"

definition Manager_send_to_channel :: "('p, 'w) isubscriber \<Rightarrow> TextSendData \<Rightarrow>
    'p channels_manager \<times> 'w \<Rightarrow> 'p channels_manager \<times> 'w" where
  "Manager_send_to_channel sub data = (\<lambda>(m, w).
     case map_of (channels m) (td_room_id data) of
       Some ch \<Rightarrow>
         let (ch, w) = Channel_notification sub data (ch, w)
         in (m\<lparr>channels := AList.update (td_room_id data) ch (channels m)\<rparr>, w)
     | None \<Rightarrow> (m, w))"

text \<open>\<open>it_room->second->leave(client_id)\<close>, for a room that may be missing.\<close>

definition leave_room :: "('p, 'w) isubscriber \<Rightarrow> int32 \<Rightarrow> int32 \<Rightarrow>
    'p channels_manager \<times> 'w \<Rightarrow> 'p channels_manager \<times> 'w" where
  "leave_room sub client room = (\<lambda>(m, w).
     case map_of (channels m) room of
       Some ch \<Rightarrow>
         let (ch, w) = Channel_leave_id sub client (ch, w)
         in (m\<lparr>channels := AList.update room ch (channels m)\<rparr>, w)
     | None \<Rightarrow> (m, w))"

definition Manager_leave_from_all_channels :: "('p, 'w) isubscriber \<Rightarrow> int32 \<Rightarrow>
    'p channels_manager \<times> 'w \<Rightarrow> 'p channels_manager \<times> 'w" where
  "Manager_leave_from_all_channels sub a_client_id = (\<lambda>(m, w).
     let (m, w) = (case map_of (client_in_rooms m) a_client_id of
           Some rooms \<Rightarrow>
             let (m, w) = fold (leave_room sub a_client_id) rooms (m, w)
             in (m\<lparr>client_in_rooms := AList.delete a_client_id (client_in_rooms m)\<rparr>, w)
         | None \<Rightarrow> (m, w))
     in (m\<lparr>clientid_to_login := AList.delete a_client_id (clientid_to_login m)\<rparr>, w))"

definition Manager_leave :: "('p, 'w) isubscriber \<Rightarrow> int32 \<Rightarrow> int32 \<Rightarrow>
    'p channels_manager \<times> 'w \<Rightarrow> 'p channels_manager \<times> 'w" where
  "Manager_leave sub client_id room_id = (\<lambda>(m, w).
     case map_of (client_in_rooms m) client_id of
       None \<Rightarrow> (m, w)
     | Some rooms \<Rightarrow>
         (case map_of (channels m) room_id of
            Some ch \<Rightarrow>
              let (ch, w) = Channel_leave_id sub client_id (ch, w);
                  m = m\<lparr>channels := AList.update room_id ch (channels m)\<rparr>;
                  m = m\<lparr>client_in_rooms := AList.delete client_id (client_in_rooms m)\<rparr>;
                  m = m\<lparr>clientid_to_login := AList.delete client_id (clientid_to_login m)\<rparr>
              in (m, w)
          | None \<Rightarrow> (m, w)))"

section \<open>Membership\<close>

definition rooms_of :: "'p channels_manager \<Rightarrow> int32 \<Rightarrow> int32 set" where
  "rooms_of m c = (case map_of (client_in_rooms m) c of None \<Rightarrow> {} | Some rs \<Rightarrow> set rs)"

definition subscribed :: "'p channels_manager \<Rightarrow> int32 \<Rightarrow> int32 \<Rightarrow> 'p option" where
  "subscribed m room c =
     (case map_of (channels m) room of None \<Rightarrow> None | Some ch \<Rightarrow> map_of (subscribers ch) c)"

definition room_history :: "'p channels_manager \<Rightarrow> int32 \<Rightarrow> TextSendData list" where
  "room_history m room =
     (case map_of (channels m) room of None \<Rightarrow> [] | Some ch \<Rightarrow> history_room ch)"

definition room_subscribers :: "'p channels_manager \<Rightarrow> int32 \<Rightarrow> (int32 \<times> 'p) list" where
  "room_subscribers m room =
     (case map_of (channels m) room of None \<Rightarrow> [] | Some ch \<Rightarrow> subscribers ch)"

text \<open>The invariant: the maps have distinct keys, a room knows its own number, and whoever is
  subscribed to a room has that room in the list of rooms to leave.\<close>

definition channels_ok :: "'p channels_manager \<Rightarrow> bool" where
  "channels_ok m \<longleftrightarrow> um_ok (channels m) \<and>
     (\<forall>room ch. map_of (channels m) room = Some ch \<longrightarrow> channel_id ch = room \<and> um_ok (subscribers ch))"

definition manager_ok :: "'p channels_manager \<Rightarrow> bool" where
  "manager_ok m \<longleftrightarrow> channels_ok m \<and> um_ok (client_in_rooms m) \<and> um_ok (clientid_to_login m) \<and>
     (\<forall>room c p. subscribed m room c = Some p \<longrightarrow> room \<in> rooms_of m c)"

lemma channels_okD:
  assumes "channels_ok m"
  shows "um_ok (channels m)" "map_of (channels m) room = Some ch \<Longrightarrow> channel_id ch = room"
    "map_of (channels m) room = Some ch \<Longrightarrow> um_ok (subscribers ch)"
  using assms by (auto simp: channels_ok_def)

lemma channels_ok_update:
  assumes "channels_ok m" and "channels m' = AList.update room ch (channels m)"
    and "channel_id ch = room" and "um_ok (subscribers ch)"
  shows "channels_ok m'"
  using assms by (auto simp: channels_ok_def um_simps)

lemma manager_okD:
  assumes "manager_ok m"
  shows "channels_ok m" "um_ok (client_in_rooms m)" "um_ok (clientid_to_login m)"
    "subscribed m room c = Some p \<Longrightarrow> room \<in> rooms_of m c"
    "room \<notin> rooms_of m c \<Longrightarrow> subscribed m room c = None"
  using assms by (cases "subscribed m room c"; auto simp: manager_ok_def)+

lemma add_room_simps [um_simps]:
  "um_ok m \<Longrightarrow> um_ok (add_room c r m)"
  "map_of (add_room c r m) x =
     (if x = c then Some ((case map_of m c of None \<Rightarrow> [] | Some rs \<Rightarrow> rs) @ [r]) else map_of m x)"
  by (auto simp: add_room_def um_simps split: option.splits)

lemma manager_ok_ctor [simp]: "manager_ok Manager_ctor"
  by (simp add: manager_ok_def channels_ok_def Manager_ctor_def subscribed_def)

lemma Channel_ctor_simps:
  "Channel_ctor eng r db = Inr (ch, db') \<Longrightarrow> subscribers ch = [] \<and> channel_id ch = r"
  by (auto simp: Channel_ctor_def split: option.splits prod.splits)

section \<open>What the rooms never touch\<close>

text \<open>A predicate on the world that the three calls of the interface keep is kept by every operation
  of a channel and of the manager.\<close>

definition kept_by_calls :: "('p, 'w) isubscriber \<Rightarrow> ('w \<Rightarrow> bool) \<Rightarrow> bool" where
  "kept_by_calls sub I \<longleftrightarrow>
     (\<forall>p l t r w. I w \<longrightarrow> I (sub_send sub p l t r w)) \<and>
     (\<forall>p b w. I w \<longrightarrow> I (sub_set_busy sub p b w)) \<and>
     (\<forall>p r w. I w \<longrightarrow> I (sub_set_channel sub p r w))"

lemma kept_notification:
  assumes "kept_by_calls sub I" and "I w"
  shows "I (snd (Channel_notification sub d (ch, w)))"
proof -
  have "I (fold (\<lambda>(k, p). send_data sub p d) ss w)" for ss
    using assms(2)
    by (induction ss arbitrary: w)
      (use assms(1) in \<open>auto simp: kept_by_calls_def send_data_def split: prod.splits\<close>)
  then show ?thesis by (simp add: Channel_notification_def)
qed

lemma kept_channel_join:
  assumes "kept_by_calls sub I" and "I w"
  shows "I (snd (Channel_join sub p (ch, w)))"
proof -
  have "I (fold (send_data sub p) ds w')" if "I w'" for ds w'
    using that
    by (induction ds arbitrary: w') (use assms(1) in \<open>auto simp: kept_by_calls_def send_data_def\<close>)
  then show ?thesis
    using assms by (simp add: Channel_join_def Let_def kept_notification kept_by_calls_def)
qed

lemma kept_channel_leave:
  assumes "kept_by_calls sub I" and "I w"
  shows "I (snd (Channel_leave_id sub c (ch, w)))"
  using kept_notification [OF assms] assms(2)
  by (auto simp: Channel_leave_id_def Let_def split_beta split: option.split)

lemma kept_leave_room:
  assumes "kept_by_calls sub I" and "I (snd s)"
  shows "I (snd (leave_room sub c r s))"
  using kept_channel_leave [OF assms] assms(2)
  by (cases s) (auto simp: leave_room_def Let_def split_beta split: option.split)

lemma kept_leave_all:
  assumes "kept_by_calls sub I" and "I w"
  shows "I (snd (Manager_leave_from_all_channels sub c (m, w)))"
proof -
  have "I (snd (fold (leave_room sub c) rs s))" if "I (snd s)" for rs s
    using that by (induction rs arbitrary: s) (simp_all add: kept_leave_room [OF assms(1)])
  then show ?thesis
    using assms(2)
    by (auto simp: Manager_leave_from_all_channels_def Let_def split_beta split: option.split)
qed

lemma kept_send:
  assumes "kept_by_calls sub I" and "I w"
  shows "I (snd (Manager_send_to_channel sub d (m, w)))"
  using kept_notification [OF assms] assms(2)
  by (auto simp: Manager_send_to_channel_def Let_def split_beta split: option.split)

lemma kept_join:
  assumes "kept_by_calls sub I" and "I w"
    and "Manager_join sub eng p room db (m, w) = Inr (b, db', m', w')"
  shows "I w'"
proof -
  obtain ch where "w' = sub_set_channel sub p room (snd (Channel_join sub p (ch, w)))"
    using assms(3)
    by (cases "map_of (channels m) room") (auto simp: Manager_join_def Let_def split_beta)
  then show ?thesis
    using kept_channel_join [OF assms(1,2)] assms(1) by (simp add: kept_by_calls_def)
qed

context subscriber_laws
begin

text \<open>What a join does to the membership, in one fact.\<close>

lemma join_result:
  assumes "Manager_join sub eng p room db (m, w) = Inr (b, db', m', w')"
  shows "\<exists>ch. (case map_of (channels m) room of Some ch0 \<Rightarrow> ch = ch0 \<and> db' = db
      | None \<Rightarrow> Channel_ctor eng room db = Inr (ch, db')) \<and> b \<and>
    channels m' = AList.update room (fst (Channel_join sub p (ch, w))) (channels m) \<and>
    client_in_rooms m' = add_room (sub_client_id sub w p) room (client_in_rooms m) \<and>
    clientid_to_login m' = um_try_emplace (sub_client_id sub w p) (sub_login sub w p) (clientid_to_login m) \<and>
    w' = sub_set_channel sub p room (snd (Channel_join sub p (ch, w)))"
  using assms
  by (cases "map_of (channels m) room")
    (auto simp: Manager_join_def Let_def split_beta join_simps)

lemma join_membership:
  assumes "manager_ok m" and "Manager_join sub eng p room db (m, w) = Inr (b, db', m', w')"
  shows "manager_ok m'"
    and "subscribed m' r c = (if r = room \<and> c = sub_client_id sub w p \<and> subscribed m r c = None
      then Some p else subscribed m r c)"
    and "rooms_of m' c = rooms_of m c \<union> (if c = sub_client_id sub w p then {room} else {})"
proof -
  note ok = manager_okD [OF assms(1)]
  obtain ch where ch: "case map_of (channels m) room of Some ch0 \<Rightarrow> ch = ch0 \<and> db' = db
      | None \<Rightarrow> Channel_ctor eng room db = Inr (ch, db')"
    and m': "channels m' = AList.update room (fst (Channel_join sub p (ch, w))) (channels m)"
      "client_in_rooms m' = add_room (sub_client_id sub w p) room (client_in_rooms m)"
      "clientid_to_login m' = um_try_emplace (sub_client_id sub w p) (sub_login sub w p) (clientid_to_login m)"
    using join_result [OF assms(2)] by blast
  have sub_ch: "map_of (subscribers ch) c = subscribed m room c" "um_ok (subscribers ch)" "channel_id ch = room" for c
    using ch channels_okD(2,3) [OF ok(1), of room] Channel_ctor_simps [of eng room db ch db']
    by (auto simp: subscribed_def split: option.splits)
  have subs: "subscribed m' r c = (if r = room \<and> c = sub_client_id sub w p \<and> subscribed m r c = None
      then Some p else subscribed m r c)" for r c
    using sub_ch(1) by (auto simp: subscribed_def m' um_simps join_simps split: option.splits)
  have rooms: "rooms_of m' c = rooms_of m c \<union> (if c = sub_client_id sub w p then {room} else {})" for c
    by (auto simp: rooms_of_def m' um_simps split: option.splits)
  show "manager_ok m'"
    unfolding manager_ok_def
  proof (intro conjI allI impI)
    show "channels_ok m'"
      by (rule channels_ok_update [OF ok(1) m'(1)]) (use sub_ch in \<open>auto simp: join_simps um_simps\<close>)
  next
    fix r c q assume "subscribed m' r c = Some q"
    then show "r \<in> rooms_of m' c"
      using ok(4) [of r c] unfolding subs rooms by (auto split: if_splits)
  qed (use assms(1) in \<open>auto simp: manager_ok_def m' um_simps\<close>)
  show "subscribed m' r c = (if r = room \<and> c = sub_client_id sub w p \<and> subscribed m r c = None
      then Some p else subscribed m r c)" by (rule subs)
  show "rooms_of m' c = rooms_of m c \<union> (if c = sub_client_id sub w p then {room} else {})"
    by (rule rooms)
qed

lemma join_inbox:
  assumes "Manager_join sub eng p room db (m, w) = Inr (b, db', m', w')"
    and "map_of (channels m) room = Some ch" and "channel_id ch = room"
  shows "inbox w' q = inbox w q @ (if q = p then map data_frame (history_room ch) else []) @
     replicate (count_list (map snd (um_try_emplace (sub_client_id sub w p) p (subscribers ch))) q)
       (data_frame (notice room (sub_login sub w p) (join_message (sub_login sub w p) room)))"
  using join_result [OF assms(1)] assms(2,3) by (auto simp: laws join_simps)

lemma join_ids:
  assumes "Manager_join sub eng p room db (m, w) = Inr (b, db', m', w')"
  shows "sub_client_id sub w' = sub_client_id sub w" "sub_login sub w' = sub_login sub w" "b"
  using join_result [OF assms] by (auto simp: laws fun_eq_iff join_simps)

lemma send_simps [chan_simps]:
  "client_in_rooms (fst (Manager_send_to_channel sub d (m, w))) = client_in_rooms m"
  "clientid_to_login (fst (Manager_send_to_channel sub d (m, w))) = clientid_to_login m"
  "subscribed (fst (Manager_send_to_channel sub d (m, w))) r c = subscribed m r c"
  "room_subscribers (fst (Manager_send_to_channel sub d (m, w))) r = room_subscribers m r"
  "rooms_of (fst (Manager_send_to_channel sub d (m, w))) c = rooms_of m c"
  "sub_client_id sub (snd (Manager_send_to_channel sub d (m, w))) = sub_client_id sub w"
  "sub_login sub (snd (Manager_send_to_channel sub d (m, w))) = sub_login sub w"
  by (auto simp: Manager_send_to_channel_def subscribed_def room_subscribers_def rooms_of_def Let_def
      split_beta um_simps chan_simps split: option.splits)

lemma send_history_inbox:
  "room_history (fst (Manager_send_to_channel sub d (m, w))) r =
     room_history m r @ (if r = td_room_id d \<and> map_of (channels m) r \<noteq> None then [d] else [])"
  "inbox (snd (Manager_send_to_channel sub d (m, w))) q =
     inbox w q @ replicate (count_list (map snd (room_subscribers m (td_room_id d))) q) (data_frame d)"
  by (auto simp: Manager_send_to_channel_def room_history_def room_subscribers_def Let_def
      split_beta um_simps chan_simps split: option.splits)

lemma send_channels_ok:
  assumes "channels_ok m"
  shows "channels_ok (fst (Manager_send_to_channel sub d (m, w)))"
proof (cases "map_of (channels m) (td_room_id d)")
  case (Some ch)
  then show ?thesis
    using channels_okD [OF assms] Some
    by (intro channels_ok_update [OF assms, of _ "td_room_id d"
          "fst (Channel_notification sub d (ch, w))"])
      (auto simp: Manager_send_to_channel_def Let_def split_beta chan_simps)
qed (use assms in \<open>simp add: Manager_send_to_channel_def\<close>)

lemma send_ok: "manager_ok m \<Longrightarrow> manager_ok (fst (Manager_send_to_channel sub d (m, w)))"
  by (simp add: manager_ok_def send_simps send_channels_ok)

lemma leave_room_simps [chan_simps]:
  "client_in_rooms (fst (leave_room sub c r s)) = client_in_rooms (fst s)"
  "clientid_to_login (fst (leave_room sub c r s)) = clientid_to_login (fst s)"
  "subscribed (fst (leave_room sub c r s)) r' c' =
     (if r' = r \<and> c' = c then None else subscribed (fst s) r' c')"
  "sub_client_id sub (snd (leave_room sub c r s)) = sub_client_id sub (snd s)"
  "sub_login sub (snd (leave_room sub c r s)) = sub_login sub (snd s)"
  by (cases s; auto simp: leave_room_def subscribed_def Let_def split_beta um_simps chan_simps
      split: option.splits)+

lemma leave_room_channels: "channels_ok (fst s) \<Longrightarrow> channels_ok (fst (leave_room sub c r s))"
proof (cases "map_of (channels (fst s)) r")
  case (Some ch)
  assume ok: "channels_ok (fst s)"
  then show ?thesis
    using channels_okD [OF ok] Some
    by (intro channels_ok_update [OF ok, of _ r "fst (Channel_leave_id sub c (ch, snd s))"])
      (auto simp: leave_room_def Let_def split_beta chan_simps um_simps)
qed (simp add: leave_room_def split_beta)

lemma leave_rooms_simps [chan_simps]:
  "client_in_rooms (fst (fold (leave_room sub c) rs s)) = client_in_rooms (fst s)"
  "clientid_to_login (fst (fold (leave_room sub c) rs s)) = clientid_to_login (fst s)"
  "subscribed (fst (fold (leave_room sub c) rs s)) r' c' =
     (if r' \<in> set rs \<and> c' = c then None else subscribed (fst s) r' c')"
  "sub_client_id sub (snd (fold (leave_room sub c) rs s)) = sub_client_id sub (snd s)"
  "sub_login sub (snd (fold (leave_room sub c) rs s)) = sub_login sub (snd s)"
  by (induction rs arbitrary: s) (auto simp: leave_room_simps)

lemma leave_rooms_channels: "channels_ok (fst s) \<Longrightarrow> channels_ok (fst (fold (leave_room sub c) rs s))"
  by (induction rs arbitrary: s) (simp_all add: leave_room_channels)

lemma leave_all_fields:
  "channels (fst (Manager_leave_from_all_channels sub c (m, w))) =
     channels (fst (fold (leave_room sub c) (case map_of (client_in_rooms m) c of None \<Rightarrow> [] | Some rs \<Rightarrow> rs) (m, w)))"
  "client_in_rooms (fst (Manager_leave_from_all_channels sub c (m, w))) = AList.delete c (client_in_rooms m)"
  "clientid_to_login (fst (Manager_leave_from_all_channels sub c (m, w))) = AList.delete c (clientid_to_login m)"
  by (simp_all add: Manager_leave_from_all_channels_def Let_def split_beta leave_rooms_simps delete_absent
      split: option.split)

lemma leave_all_membership:
  assumes "manager_ok m"
  shows "subscribed (fst (Manager_leave_from_all_channels sub c (m, w))) r c' =
      (if c' = c then None else subscribed m r c')"
    and "rooms_of (fst (Manager_leave_from_all_channels sub c (m, w))) c' =
      (if c' = c then {} else rooms_of m c')"
    and "manager_ok (fst (Manager_leave_from_all_channels sub c (m, w)))"
proof -
  let ?m = "fst (Manager_leave_from_all_channels sub c (m, w))"
  let ?rs = "case map_of (client_in_rooms m) c of None \<Rightarrow> [] | Some rs \<Rightarrow> rs"
  have rs: "set ?rs = rooms_of m c"
    by (simp add: rooms_of_def split: option.split)
  have left: "subscribed m r c = None" if "r \<notin> rooms_of m c" for r
    using manager_okD(5) [OF assms that] .
  have "subscribed ?m r c' = subscribed (fst (fold (leave_room sub c) ?rs (m, w))) r c'" for r c'
    by (simp add: subscribed_def leave_all_fields)
  then show subs: "subscribed ?m r c' = (if c' = c then None else subscribed m r c')" for r c'
    using left [of r] by (simp add: chan_simps rs)
  show rooms: "rooms_of ?m c' = (if c' = c then {} else rooms_of m c')" for c'
    by (simp add: rooms_of_def leave_all_fields um_simps)
  have "channels_ok (fst (fold (leave_room sub c) ?rs (m, w)))"
    using leave_rooms_channels [of "(m, w)"] manager_okD(1) [OF assms] by simp
  then have chans: "channels_ok ?m"
    by (simp add: channels_ok_def leave_all_fields)
  have maps: "um_ok (client_in_rooms ?m)" "um_ok (clientid_to_login ?m)"
    using manager_okD(2,3) [OF assms] by (simp_all add: leave_all_fields um_simps)
  show "manager_ok ?m"
    unfolding manager_ok_def subs rooms
    using chans maps manager_okD(4) [OF assms] by auto
qed

lemma leave_all_ids [chan_simps]:
  "sub_client_id sub (snd (Manager_leave_from_all_channels sub c (m, w))) = sub_client_id sub w"
  "sub_login sub (snd (Manager_leave_from_all_channels sub c (m, w))) = sub_login sub w"
  by (auto simp: Manager_leave_from_all_channels_def Let_def split_beta chan_simps split: option.splits)

text \<open>Leaving one room through \<open>leave\<close> forgets every room of the client.\<close>

lemma leave_membership:
  assumes "map_of (client_in_rooms m) c \<noteq> None" and "map_of (channels m) room \<noteq> None"
  shows "subscribed (fst (Manager_leave sub c room (m, w))) r c' =
      (if r = room \<and> c' = c then None else subscribed m r c')"
    and "rooms_of (fst (Manager_leave sub c room (m, w))) c' = (if c' = c then {} else rooms_of m c')"
  using assms
  by (auto simp: Manager_leave_def Let_def split_beta subscribed_def rooms_of_def chan_simps um_simps
      split: option.splits)

end

end
