(* ===== verification/WriteQueue.thy ===== *)
theory WriteQueue
  imports Prelude
begin

text \<open>
  The discipline by which \<open>Connection\<close> (server) and \<open>Client\<close> write frames to their socket: a queue
  whose front is the frame being written, a push that starts a write only when the queue was empty,
  and a completion that pops the front and starts the next. The locale states the contract of the
  two operations and proves once what follows for every run of them.
\<close>

datatype 'f queue_event = Push 'f | Written

fun pushed :: "'f queue_event list \<Rightarrow> 'f list" where
  "pushed [] = []"
| "pushed (Push f # es) = f # pushed es"
| "pushed (Written # es) = pushed es"

lemma pushed_append [simp]: "pushed (es @ es') = pushed es @ pushed es'"
  by (induction es rule: pushed.induct) auto

locale write_queue =
  fixes waiting :: "'s \<Rightarrow> 'f list"
    and begun :: "'s \<Rightarrow> 'f list"
    and push :: "'f \<Rightarrow> 's \<Rightarrow> 's"
    and written :: "'s \<Rightarrow> 's"
  assumes push_idle: "waiting s = [] \<Longrightarrow> waiting (push f s) = [f] \<and> begun (push f s) = begun s @ [f]"
    and push_busy: "waiting s \<noteq> [] \<Longrightarrow> waiting (push f s) = waiting s @ [f] \<and> begun (push f s) = begun s"
    and written_pops: "waiting s = f # q \<Longrightarrow>
      waiting (written s) = q \<and> begun (written s) = begun s @ take 1 q"
begin

text \<open>The frames begun and the ones waiting behind the front, in order: what the peer will have
  received when the queue runs empty.\<close>

definition outbox :: "'s \<Rightarrow> 'f list" where
  "outbox s = begun s @ tl (waiting s)"

text \<open>A completion can only come while a write is in flight, that is while the queue has a front.\<close>

definition occur :: "'f queue_event \<Rightarrow> 's \<Rightarrow> 's" where
  "occur e s = (case e of Push f \<Rightarrow> push f s | Written \<Rightarrow> if waiting s = [] then s else written s)"

lemma outbox_push: "outbox (push f s) = outbox s @ [f]"
  using push_idle [of s f] push_busy [of s f] by (cases "waiting s") (auto simp: outbox_def)

lemma outbox_written: "waiting s \<noteq> [] \<Longrightarrow> outbox (written s) = outbox s"
  using written_pops [of s] by (cases "waiting s"; cases "tl (waiting s)") (auto simp: outbox_def)

lemma outbox_occur: "outbox (occur e s) = outbox s @ pushed [e]"
  by (cases e) (auto simp: occur_def outbox_push outbox_written)

lemma outbox_run: "outbox (fold occur es s) = outbox s @ pushed es"
proof (induction es arbitrary: s)
  case (Cons e es)
  then show ?case by (cases e) (auto simp: outbox_occur)
qed simp

text \<open>Of the frames begun, all but the front of the queue are completed: one write is in flight at
  a time.\<close>

definition in_order :: "'s \<Rightarrow> 'f list \<Rightarrow> bool" where
  "in_order s completed \<longleftrightarrow> begun s = completed @ take 1 (waiting s)"

lemma in_order_push: "in_order s cs \<Longrightarrow> in_order (push f s) cs"
  using push_idle [of s f] push_busy [of s f] by (cases "waiting s") (auto simp: in_order_def)

lemma in_order_written: "in_order s cs \<Longrightarrow> waiting s = f # q \<Longrightarrow> in_order (written s) (cs @ [f])"
  using written_pops [of s f q] by (auto simp: in_order_def)

lemma in_order_run: "in_order s cs \<Longrightarrow> \<exists>cs'. in_order (fold occur es s) (cs @ cs')"
proof (induction es arbitrary: s cs)
  case Nil
  then show ?case by (auto intro: exI [of _ "[]"])
next
  case (Cons e es)
  have "\<exists>ds. in_order (occur e s) (cs @ ds)"
  proof (cases e)
    case (Push f)
    then show ?thesis
      using in_order_push [OF Cons.prems, of f] by (intro exI [of _ "[]"]) (simp add: occur_def)
  next
    case Written
    then show ?thesis
    proof (cases "waiting s")
      case Nil
      with Written Cons.prems show ?thesis by (intro exI [of _ "[]"]) (simp add: occur_def)
    next
      case (Cons f q)
      with Written show ?thesis
        using in_order_written [OF Cons.prems Cons] by (intro exI [of _ "[f]"]) (simp add: occur_def)
    qed
  qed
  then obtain ds where "in_order (occur e s) (cs @ ds)" ..
  from Cons.IH [OF this] obtain cs' where "in_order (fold occur es (occur e s)) ((cs @ ds) @ cs')" ..
  then show ?case by (intro exI [of _ "ds @ cs'"]) simp
qed

text \<open>As many completions as there are frames in the queue write everything out.\<close>

lemma drain: "waiting ((written ^^ length (waiting s)) s) = [] \<and>
    begun ((written ^^ length (waiting s)) s) = outbox s"
proof (induction "waiting s" arbitrary: s)
  case Nil
  then show ?case by (simp add: outbox_def)
next
  case (Cons f q)
  then have w: "waiting s = f # q" by simp
  have "waiting (written s) = q" "outbox (written s) = outbox s"
    using written_pops [OF w] outbox_written [of s] w by auto
  then show ?case
    using Cons.hyps(1) [of "written s"] by (simp add: w funpow_Suc_right del: funpow.simps)
qed

end

end
