(* ===== verification/Connection.thy ===== *)
theory Connection
  imports MsgFactory ChannelsManager WriteQueue
begin

text \<open>
  \<open>server/connection/connection.h\<close> and the part of \<open>connection.cpp\<close> that works on one connection
  alone: its fields, its accessors, the queue of outgoing frames and the three direct responses. A
  connection is an object of the heap; \<open>connection_subscriber\<close> is its table of virtual functions
  as a channel sees it, and the interpretation below discharges the laws that channels rely on.
\<close>

section \<open>State\<close>

text \<open>The socket takes writes from the queue and, beside it, the direct writes of responses. A read
  is pending for a header, for the body that a header announced, or, in the single-threaded
  handlers, for the body of one kind of request.\<close>

datatype sent = Queued bytes | Direct bytes

datatype reading = NoRead | ReadHeader | ReadBody Header
  | ReadInput | ReadRegister | ReadJoinRoom | ReadText

record connection =
  cn_client_id :: int32
  cn_room_id :: int32
  cn_login :: string
  cn_password :: string
  cn_busy :: bool
  cn_open :: bool
  cn_buffer_header :: bytes
  cn_buffer_msg :: bytes
  cn_queue :: "bytes list"
  cn_writing :: bool
  cn_started :: "sent list"
  cn_reading :: reading

text \<open>The constructor leaves \<open>client_id\<close> and the header buffer uninitialised: their values are
  arguments.\<close>

definition Connection_ctor :: "int32 \<Rightarrow> bytes \<Rightarrow> connection" where
  "Connection_ctor garbage_id garbage_header =
     \<lparr>cn_client_id = garbage_id, cn_room_id = 0, cn_login = [], cn_password = [], cn_busy = True,
      cn_open = True, cn_buffer_header = garbage_header, cn_buffer_msg = [], cn_queue = [],
      cn_writing = False, cn_started = [], cn_reading = NoRead\<rparr>"

definition async_read_pb_header :: "connection \<Rightarrow> connection" where
  "async_read_pb_header c = c\<lparr>cn_reading := ReadHeader\<rparr>"

text \<open>What \<open>free_connection\<close> does after it left the channels.\<close>

definition close_and_reset :: "connection \<Rightarrow> connection" where
  "close_and_reset c =
     c\<lparr>cn_open := False, cn_client_id := -1, cn_login := ''unused'', cn_password := ''unused'',
       cn_busy := False, cn_room_id := 0\<rparr>"

section \<open>The queue of outgoing frames\<close>

definition sending_msgs_to_client :: "connection \<Rightarrow> connection" where
  "sending_msgs_to_client c =
     c\<lparr>cn_started := cn_started c @ [Queued (hd (cn_queue c))], cn_writing := True\<rparr>"

definition add_msg_send_queue :: "bytes \<Rightarrow> connection \<Rightarrow> connection" where
  "add_msg_send_queue bin_buffer c =
     (let process_write = cn_queue c \<noteq> [];
          c = c\<lparr>cn_queue := cn_queue c @ [bin_buffer]\<rparr>
      in if \<not> process_write then sending_msgs_to_client c else c)"

text \<open>The completion handler of a queued write without error.\<close>

definition queue_written :: "connection \<Rightarrow> connection" where
  "queue_written c =
     (let c = c\<lparr>cn_queue := tl (cn_queue c), cn_writing := False\<rparr>
      in if cn_queue c \<noteq> [] then sending_msgs_to_client c else c)"

definition text_frame :: "pb_rt \<Rightarrow> string \<Rightarrow> string \<Rightarrow> int32 \<Rightarrow> bytes" where
  "text_frame rt a_login text a_room_id =
     (let response = create_text_response a_login a_room_id text;
          header = create_header EchoResponse (Response_ByteSizeLong rt response)
      in serialize_response rt header response)"

definition send_msg_to_client :: "pb_rt \<Rightarrow> string \<Rightarrow> string \<Rightarrow> int32 \<Rightarrow> connection \<Rightarrow> connection" where
  "send_msg_to_client rt a_login text a_room_id c =
     add_msg_send_queue (text_frame rt a_login text a_room_id) c"

section \<open>Direct responses\<close>

definition input_frame :: "pb_rt \<Rightarrow> int32 \<Rightarrow> bytes" where
  "input_frame rt a_client_id =
     (let response = create_input_response a_client_id;
          header = create_header AutorisationResponse (Response_ByteSizeLong rt response)
      in serialize_response rt header response)"

definition reg_frame :: "pb_rt \<Rightarrow> int32 \<Rightarrow> bytes" where
  "reg_frame rt a_client_id =
     (let response = create_reg_response a_client_id;
          header = create_header RegistrationResponse (Response_ByteSizeLong rt response)
      in serialize_response rt header response)"

definition join_room_frame :: "pb_rt \<Rightarrow> int32 \<Rightarrow> bool \<Rightarrow> bytes" where
  "join_room_frame rt a_room_id flag =
     (let response = create_join_room_response a_room_id flag;
          header = create_header JoinRoomResponseCmd (Response_ByteSizeLong rt response)
      in serialize_response rt header response)"

definition start_direct :: "bytes \<Rightarrow> connection \<Rightarrow> connection" where
  "start_direct frame c = c\<lparr>cn_started := cn_started c @ [Direct frame]\<rparr>"

definition send_auto_response :: "pb_rt \<Rightarrow> int32 \<Rightarrow> connection \<Rightarrow> connection" where
  "send_auto_response rt a_client_id c = start_direct (input_frame rt a_client_id) c"

definition send_reg_response :: "pb_rt \<Rightarrow> int32 \<Rightarrow> connection \<Rightarrow> connection" where
  "send_reg_response rt a_client_id c = start_direct (reg_frame rt a_client_id) c"

definition send_join_room_response :: "pb_rt \<Rightarrow> int32 \<Rightarrow> bool \<Rightarrow> connection \<Rightarrow> connection" where
  "send_join_room_response rt a_room_id flag c = start_direct (join_room_frame rt a_room_id flag) c"

section \<open>The queue's contract\<close>

fun queued_of :: "sent \<Rightarrow> bytes option" where
  "queued_of (Queued f) = Some f"
| "queued_of (Direct f) = None"

definition queued_started :: "connection \<Rightarrow> bytes list" where
  "queued_started c = List.map_filter queued_of (cn_started c)"

lemma map_filter_simps' [simp]:
  "List.map_filter f (xs @ ys) = List.map_filter f xs @ List.map_filter f ys"
  by (simp add: List.map_filter_def)

lemma queued_started_simps [simp]:
  "queued_started (start_direct f c) = queued_started c"
  "queued_started (sending_msgs_to_client c) = queued_started c @ [hd (cn_queue c)]"
  by (simp_all add: queued_started_def start_direct_def sending_msgs_to_client_def List.map_filter_def)

lemma queued_started_update [simp]:
  "queued_started (c\<lparr>cn_queue := q\<rparr>) = queued_started c"
  "queued_started (c\<lparr>cn_writing := b\<rparr>) = queued_started c"
  "queued_started (c\<lparr>cn_busy := b\<rparr>) = queued_started c"
  "queued_started (c\<lparr>cn_room_id := r\<rparr>) = queued_started c"
  by (simp_all add: queued_started_def)

lemma sending_simps [simp]: "cn_queue (sending_msgs_to_client c) = cn_queue c"
  by (simp add: sending_msgs_to_client_def)

interpretation conn_queue: write_queue cn_queue queued_started add_msg_send_queue queue_written
proof (unfold_locales, goal_cases)
  case (3 s f q)
  then show ?case by (cases q) (simp_all add: queue_written_def Let_def)
qed (simp_all add: add_msg_send_queue_def Let_def)

lemma outbox_update [simp]:
  "conn_queue.outbox (c\<lparr>cn_busy := b\<rparr>) = conn_queue.outbox c"
  "conn_queue.outbox (c\<lparr>cn_room_id := r\<rparr>) = conn_queue.outbox c"
  by (simp_all add: conn_queue.outbox_def)

section \<open>The connection as a subscriber\<close>

type_synonym heap = "nat \<Rightarrow> connection"

definition connection_subscriber :: "pb_rt \<Rightarrow> (nat, heap) isubscriber" where
  "connection_subscriber rt =
     \<lparr>sub_client_id = (\<lambda>w p. cn_client_id (w p)),
      sub_login = (\<lambda>w p. cn_login (w p)),
      sub_send = (\<lambda>p l t r w. w(p := send_msg_to_client rt l t r (w p))),
      sub_set_busy = (\<lambda>p flag w. w(p := (w p)\<lparr>cn_busy := flag\<rparr>)),
      sub_set_channel = (\<lambda>p new_id_room w. w(p := (w p)\<lparr>cn_room_id := new_id_room\<rparr>))\<rparr>"

definition frames_to :: "heap \<Rightarrow> nat \<Rightarrow> bytes list" where
  "frames_to w p = conn_queue.outbox (w p)"

lemma queue_fields [simp]:
  "cn_client_id (add_msg_send_queue f c) = cn_client_id c"
  "cn_login (add_msg_send_queue f c) = cn_login c"
  "cn_room_id (add_msg_send_queue f c) = cn_room_id c"
  "cn_reading (add_msg_send_queue f c) = cn_reading c"
  "cn_open (add_msg_send_queue f c) = cn_open c"
  by (simp_all add: add_msg_send_queue_def sending_msgs_to_client_def Let_def)

interpretation conn: subscriber_laws "connection_subscriber rt" frames_to "text_frame rt"
  by unfold_locales
    (auto simp: connection_subscriber_def frames_to_def send_msg_to_client_def conn_queue.outbox_push)

end
