(* ===== verification/Server.thy ===== *)
theory Server
  imports Connection
begin

text \<open>
  The server: the handlers of \<open>server/connection/connection.cpp\<close> that reach the shared objects,
  \<open>connection_manager.cpp\<close>, \<open>server.h\<close> and \<open>startup_server.cpp\<close>. The state holds the heap of
  connections, the singleton \<open>ChannelsManager\<close>, the database, the static counter of
  \<open>generate_client_id\<close> and the queue of the thread pool. A handler is one step; a task of the pool
  runs whole, at any moment and in any order.
\<close>

section \<open>State\<close>

datatype task =
    DoAutorisation nat Request
  | DoRegistration nat Request
  | DoJoinRoom nat Request
  | DoTextMsg nat Request
  | SendAutoResponse nat int32
  | SendRegResponse nat int32
  | SendJoinRoomResponse nat int32 bool

record 'h server =
  conns :: heap
  pool :: "nat list"
  manager :: "nat channels_manager"
  database :: "'h Database option"
  next_id :: int32
  tasks :: "task list"

definition on_conn :: "nat \<Rightarrow> (connection \<Rightarrow> connection) \<Rightarrow> 'h server \<Rightarrow> 'h server" where
  "on_conn p f s = s\<lparr>conns := (conns s)(p := f (conns s p))\<rparr>"

definition post :: "task \<Rightarrow> 'h server \<Rightarrow> 'h server" where
  "post t s = s\<lparr>tasks := tasks s @ [t]\<rparr>"

section \<open>Connections\<close>

definition free_connection :: "pb_rt \<Rightarrow> nat \<Rightarrow> 'h server \<Rightarrow> 'h server" where
  "free_connection rt p s =
     (let (m, w) = Manager_leave_from_all_channels (connection_subscriber rt)
        (cn_client_id (conns s p)) (manager s, conns s)
      in on_conn p close_and_reset (s\<lparr>manager := m, conns := w\<rparr>))"

text \<open>Called only from the commented-out object pool.\<close>

definition reuse :: "pb_rt \<Rightarrow> nat \<Rightarrow> 'h server \<Rightarrow> 'h server" where
  "reuse rt p s =
     (let s = (if cn_busy (conns s p) then free_connection rt p s else s)
      in on_conn p (\<lambda>c. c\<lparr>cn_open := True, cn_busy := True\<rparr>) s)"

text \<open>The counter is a signed \<open>int\<close>, whose overflow C++ leaves undefined; the word wraps. Properties that
  depend on it bound the counter. The increment is one step here, two in the theory \<open>Threads\<close>.\<close>

definition generate_client_id :: "'h server \<Rightarrow> int32 \<times> 'h server" where
  "generate_client_id s = (let i = next_id s + 1 in (i, s\<lparr>next_id := i\<rparr>))"

section \<open>Reading\<close>

text \<open>\<open>alloc\<close> is the longest buffer that the process can get, below \<open>2 ^ 31\<close>; \<open>outcome\<close> is \<open>None\<close>
  for an error of the read and the block otherwise.\<close>

definition do_parse_pb_header ::
  "pb_rt \<Rightarrow> nat \<Rightarrow> nat \<Rightarrow> bytes option \<Rightarrow> 'h server \<Rightarrow> 'h server result" where
  "do_parse_pb_header rt alloc p outcome s =
     (case outcome of
        None \<Rightarrow> Inr (free_connection rt p (on_conn p (\<lambda>c. c\<lparr>cn_reading := NoRead\<rparr>) s))
      | Some block \<Rightarrow>
          let s = on_conn p (\<lambda>c. c\<lparr>cn_buffer_header := block\<rparr>) s;
              (flag, new_header) = ParseFromArray (Header_InternalParse rt) Header_SharedCtor block;
              n = unat (hdr_length new_header)
          in if \<not> flag then Inr (on_conn p async_read_pb_header s)
             else if alloc < n then Inl LengthError
             else Inr (on_conn p (\<lambda>c. c\<lparr>cn_buffer_msg := resize n (cn_buffer_msg c),
                    cn_reading := ReadBody new_header\<rparr>) s))"

text \<open>The code casts the size of the buffer to \<open>int\<close>. A body is at most \<open>alloc\<close> bytes, which stands for
  less than \<open>2 ^ 31\<close>, so the cast changes nothing.\<close>

definition parse_request :: "pb_rt \<Rightarrow> bytes \<Rightarrow> bool \<times> Request" where
  "parse_request rt buf = ParseFromArray (Request_InternalParse rt) Request_SharedCtor buf"

text \<open>Whether the request could be parsed is only logged.\<close>

definition process_msg :: "pb_rt \<Rightarrow> Header \<Rightarrow> nat \<Rightarrow> 'h server \<Rightarrow> 'h server" where
  "process_msg rt header p s =
     (let (parse, new_request) = parse_request rt (cn_buffer_msg (conns s p));
          s = (case TypeCommand_cast (hdr_command header) of
                 AuthorisationRequest \<Rightarrow> post (DoAutorisation p new_request) s
               | RegistrationRequest \<Rightarrow> post (DoRegistration p new_request) s
               | JoinRoomRequestCmd \<Rightarrow> post (DoJoinRoom p new_request) s
               | EchoRequest \<Rightarrow> post (DoTextMsg p new_request) s
               | _ \<Rightarrow> s)
      in on_conn p async_read_pb_header s)"

text \<open>The handler of the body ignores the error code: \<open>data\<close> is what arrived, possibly less than the
  buffer.\<close>

definition body_handler :: "pb_rt \<Rightarrow> Header \<Rightarrow> nat \<Rightarrow> bytes \<Rightarrow> 'h server \<Rightarrow> 'h server" where
  "body_handler rt new_header p data s =
     process_msg rt new_header p
       (on_conn p (\<lambda>c. c\<lparr>cn_buffer_msg := data @ drop (length data) (cn_buffer_msg c),
          cn_reading := NoRead\<rparr>) s)"

section \<open>Requests\<close>

definition do_autorisation ::
  "pb_rt \<Rightarrow> 'h sqlite \<Rightarrow> nat \<Rightarrow> Request \<Rightarrow> 'h server \<Rightarrow> 'h server result" where
  "do_autorisation rt eng p new_request s =
     (if Request_has_input_request new_request then
        let login = inp_login (Request_input_request new_request);
            password = inp_password (Request_input_request new_request);
            s = on_conn p (\<lambda>c. c\<lparr>cn_login := login, cn_password := password\<rparr>) s
        in case database s of
             None \<Rightarrow> Inl NullDeref
           | Some db \<Rightarrow> and_then (check_client eng login password db) (\<lambda>client_id.
               Inr (post (SendAutoResponse p client_id)
                 (on_conn p (\<lambda>c. c\<lparr>cn_client_id := client_id\<rparr>) s)))
      else Inr (free_connection rt p s))"

text \<open>The part of a registration that talks to the database: the new client identifier, or -1 for
  a login that is taken.\<close>

definition register_login ::
  "'h sqlite \<Rightarrow> string \<Rightarrow> string \<Rightarrow> 'h server \<Rightarrow> (int32 \<times> 'h server) result" where
  "register_login eng login password s =
     (case database s of
        None \<Rightarrow> Inl NullDeref
      | Some db \<Rightarrow>
          if get_loginid eng login db = -1 then
            let (client_id, s) = generate_client_id s
            in and_then (add_logins eng login client_id password db) (\<lambda>db.
                 Inr (client_id, s\<lparr>database := Some db\<rparr>))
          else Inr (-1, s))"

definition do_registration ::
  "pb_rt \<Rightarrow> 'h sqlite \<Rightarrow> nat \<Rightarrow> Request \<Rightarrow> 'h server \<Rightarrow> 'h server result" where
  "do_registration rt eng p new_request s =
     (if Request_has_register_request new_request then
        let login = reg_login (Request_register_request new_request);
            password = reg_password (Request_register_request new_request);
            s = on_conn p (\<lambda>c. c\<lparr>cn_login := login, cn_password := password\<rparr>) s
        in and_then (register_login eng login password s) (\<lambda>(client_id, s).
             Inr (post (SendRegResponse p client_id)
               (on_conn p (\<lambda>c. c\<lparr>cn_client_id := client_id\<rparr>) s)))
      else Inr (free_connection rt p s))"

definition join_channel ::
  "pb_rt \<Rightarrow> 'h sqlite \<Rightarrow> nat \<Rightarrow> int32 \<Rightarrow> 'h server \<Rightarrow> (bool \<times> 'h server) result" where
  "join_channel rt eng p new_roomid s =
     and_then (Manager_join (connection_subscriber rt) eng p new_roomid (database s) (manager s, conns s))
       (\<lambda>(flag, db, m, w). Inr (flag, s\<lparr>database := db, manager := m, conns := w\<rparr>))"

definition do_join_room ::
  "pb_rt \<Rightarrow> 'h sqlite \<Rightarrow> nat \<Rightarrow> Request \<Rightarrow> 'h server \<Rightarrow> 'h server result" where
  "do_join_room rt eng p new_request s =
     (if Request_has_join_room_request new_request then
        let new_roomid = jrq_room_id (Request_join_room_request new_request)
        in and_then (join_channel rt eng p new_roomid s) (\<lambda>(flag, s).
             Inr (post (SendJoinRoomResponse p (cn_room_id (conns s p)) flag) s))
      else Inr s)"

definition deliver_and_save ::
  "pb_rt \<Rightarrow> 'h sqlite \<Rightarrow> (nat \<Rightarrow> string) \<Rightarrow> TextSendData \<Rightarrow> 'h server \<Rightarrow> 'h server result" where
  "deliver_and_save rt eng fmt02 msg s =
     (let (m, w) = Manager_send_to_channel (connection_subscriber rt) msg (manager s, conns s);
          s = s\<lparr>manager := m, conns := w\<rparr>
      in case database s of
           None \<Rightarrow> Inl NullDeref
         | Some db \<Rightarrow> Inr (s\<lparr>database := Some (save_text_msg eng fmt02 msg db)\<rparr>))"

definition text_data :: "TextRequest \<Rightarrow> TextSendData" where
  "text_data r = \<lparr>td_room_id = txt_room_id r, td_login = txt_login r, td_text = txt_text r\<rparr>"

definition do_text_msg ::
  "pb_rt \<Rightarrow> 'h sqlite \<Rightarrow> (nat \<Rightarrow> string) \<Rightarrow> nat \<Rightarrow> Request \<Rightarrow> 'h server \<Rightarrow> 'h server result" where
  "do_text_msg rt eng fmt02 p new_request s =
     (if Request_has_text_request new_request
      then deliver_and_save rt eng fmt02 (text_data (Request_text_request new_request)) s
      else Inr s)"

section \<open>The thread pool\<close>

fun run_task ::
  "pb_rt \<Rightarrow> 'h sqlite \<Rightarrow> (nat \<Rightarrow> string) \<Rightarrow> task \<Rightarrow> 'h server \<Rightarrow> 'h server result" where
  "run_task rt eng fmt02 (DoAutorisation p r) s = do_autorisation rt eng p r s"
| "run_task rt eng fmt02 (DoRegistration p r) s = do_registration rt eng p r s"
| "run_task rt eng fmt02 (DoJoinRoom p r) s = do_join_room rt eng p r s"
| "run_task rt eng fmt02 (DoTextMsg p r) s = do_text_msg rt eng fmt02 p r s"
| "run_task rt eng fmt02 (SendAutoResponse p i) s = Inr (on_conn p (send_auto_response rt i) s)"
| "run_task rt eng fmt02 (SendRegResponse p i) s = Inr (on_conn p (send_reg_response rt i) s)"
| "run_task rt eng fmt02 (SendJoinRoomResponse p r flag) s =
     Inr (on_conn p (send_join_room_response rt r flag) s)"

section \<open>Writing\<close>

text \<open>The completion handler of a queued write: on an error the frame stays at the front.\<close>

definition queue_write_handler :: "pb_rt \<Rightarrow> nat \<Rightarrow> bool \<Rightarrow> 'h server \<Rightarrow> 'h server" where
  "queue_write_handler rt p ok s =
     (if ok then on_conn p queue_written s
      else free_connection rt p (on_conn p (\<lambda>c. c\<lparr>cn_writing := False\<rparr>) s))"

text \<open>The completion handlers of the three direct responses only log a success.\<close>

definition direct_write_handler :: "pb_rt \<Rightarrow> nat \<Rightarrow> bool \<Rightarrow> 'h server \<Rightarrow> 'h server" where
  "direct_write_handler rt p ok s = (if ok then s else free_connection rt p s)"

section \<open>Connection manager, server and start-up\<close>

text \<open>The pool only grows, so its length is a fresh pointer.\<close>

definition get_connection :: "int32 \<Rightarrow> bytes \<Rightarrow> 'h server \<Rightarrow> nat \<times> 'h server" where
  "get_connection garbage_id garbage_header s =
     (let p = length (pool s)
      in (p, s\<lparr>conns := (conns s)(p := Connection_ctor garbage_id garbage_header),
             pool := pool s @ [p]\<rparr>))"

definition close_all :: "'h server \<Rightarrow> 'h server" where
  "close_all s = (fold (\<lambda>p. on_conn p (\<lambda>c. c\<lparr>cn_busy := False\<rparr>)) (pool s) s)\<lparr>pool := []\<rparr>"

text \<open>The listing of the pool, one line per connection after a heading.\<close>

definition print_pool :: "'h server \<Rightarrow> string list" where
  "print_pool s = ''[connections]'' # map (\<lambda>p.
     let c = conns s p
     in if 0 <s cn_client_id c
        then ''obj: login='' @ cn_login c @ '', id='' @ to_string_int (sint (cn_client_id c)) @ '', status: '' @
          (if cn_busy c then ''busy'' else ''free'')
        else ''obj: current connection not init'') (pool s)"

text \<open>The handler of an accepted socket that is still connected: a new connection that starts to read.
  The constructor logs the address of the peer, which throws when the peer has gone already:
  \<open>accept_handler\<close> of the theory \<open>Startup\<close>.\<close>

definition scan_acception :: "bool \<Rightarrow> int32 \<Rightarrow> bytes \<Rightarrow> 'h server \<Rightarrow> 'h server" where
  "scan_acception error garbage_id garbage_header s =
     (if \<not> error then
        let (p, s) = get_connection garbage_id garbage_header s
        in on_conn p async_read_pb_header s
      else s)"

text \<open>A server at its start; the heap holds nothing of meaning yet.\<close>

definition Server_ctor :: "'h Database option \<Rightarrow> 'h server" where
  "Server_ctor db =
     \<lparr>conns = (\<lambda>p. Connection_ctor 0 []), pool = [], manager = Manager_ctor, database = db,
      next_id = 0, tasks = []\<rparr>"

text \<open>\<open>parsed\<close> is what Boost's option parser made of the command line: nothing when it threw, else
  whether help was asked for and the value of the port. The result is whether to start, and the
  port.\<close>

definition set_parametrs :: "(bool \<times> int) option \<Rightarrow> uint16 \<Rightarrow> bool \<times> uint16" where
  "set_parametrs parsed port =
     (case parsed of
        None \<Rightarrow> (False, port)
      | Some (help, value) \<Rightarrow> if help then (True, port) else (True, word_of_int value))"

definition server_main ::
  "'h sqlite \<Rightarrow> string option \<Rightarrow> (bool \<times> int) option \<Rightarrow> (uint16 \<times> 'h server) option result" where
  "server_main eng home parsed =
     (let (start, port) = set_parametrs parsed SERVER_DEFAULT_PORT
      in if start then and_then (Database_ctor eng home) (\<lambda>db. Inr (Some (port, Server_ctor (Some db))))
         else Inr None)"

end
