(* ===== verification/SqliteModel.thy ===== *)
theory SqliteModel
  imports Database
begin

text \<open>
  A small SQL engine that understands the statements of \<open>database.cpp\<close>: a tokenizer for quoted
  literals and integers, two tables, and the errors of an unterminated literal. It shows that the
  laws of \<open>sqlite_laws\<close> can hold together and runs the witnesses. The properties of the database
  follow.
\<close>

section \<open>Scanning\<close>

definition eat :: "string \<Rightarrow> string \<Rightarrow> string option" where
  "eat p s = (if prefix p s then Some (drop (length p) s) else None)"

text \<open>The rest of a literal whose opening quote was read; two quotes stand for one.\<close>

fun scan_lit :: "string \<Rightarrow> (string \<times> string) option" where
  "scan_lit [] = None"
| "scan_lit [c] = (if c = CHR 0x27 then Some ([], []) else None)"
| "scan_lit (c # d # s) =
     (if c \<noteq> CHR 0x27 then map_option (apfst ((#) c)) (scan_lit (d # s))
      else if d = CHR 0x27 then map_option (apfst ((#) c)) (scan_lit s)
      else Some ([], d # s))"

definition scan_int :: "string \<Rightarrow> (int32 \<times> string) option" where
  "scan_int s =
     (let neg = prefix ''-'' s; ds = (if neg then tl s else s); n = decimal_value (takeWhile is_digit ds)
      in if takeWhile is_digit ds = [] then None
         else Some (word_of_int (if neg then - int n else int n), dropWhile is_digit ds))"

definition parse_login_row :: "string \<Rightarrow> entry option" where
  "parse_login_row s =
     Option.bind (scan_lit s) (\<lambda>(l, s). Option.bind (eat '', '' s) (\<lambda>s.
     Option.bind (scan_int s) (\<lambda>(i, s). Option.bind (eat ('', '' @ quote) s) (\<lambda>s.
     Option.bind (scan_lit s) (\<lambda>(p, s). if s = '');'' then Some (l, i, p) else None)))))"

definition parse_history_row :: "string \<Rightarrow> entry option" where
  "parse_history_row s =
     Option.bind (scan_lit s) (\<lambda>(l, s). Option.bind (eat '', '' s) (\<lambda>s.
     Option.bind (scan_int s) (\<lambda>(r, s).
     Option.bind (eat ('', strftime('' @ quote @ ''%s'' @ quote @ '','' @ quote) s) (\<lambda>s.
     Option.bind (scan_lit s) (\<lambda>(d, s). Option.bind (eat (''), '' @ quote) s) (\<lambda>s.
     Option.bind (scan_lit s) (\<lambda>(t, s). if s = '');'' then Some (l, r, t) else None)))))))"

section \<open>The engine\<close>

type_synonym mini = "entry list \<times> entry list"

definition mini_error :: "mini \<Rightarrow> int \<times> string option \<times> mini option" where
  "mini_error h = (1, Some ''syntax error'', Some h)"

definition mini_exec :: "mini option \<Rightarrow> string \<Rightarrow> int \<times> string option \<times> mini option" where
  "mini_exec ptr q =
     (case ptr of
        None \<Rightarrow> (SQLITE_MISUSE, None, None)
      | Some (ls, hs) \<Rightarrow>
          (case eat (''insert into logins values('' @ quote) q of
             Some s \<Rightarrow> (case parse_login_row s of
                 Some e \<Rightarrow> (SQLITE_OK, None, Some (ls @ [e], hs))
               | None \<Rightarrow> mini_error (ls, hs))
           | None \<Rightarrow>
               (case eat (''insert into history values('' @ quote) q of
                  Some s \<Rightarrow> (case parse_history_row s of
                      Some e \<Rightarrow> (SQLITE_OK, None, Some (ls, hs @ [e]))
                    | None \<Rightarrow> mini_error (ls, hs))
                | None \<Rightarrow>
                    if q \<in> {create_table_history, create_table_logins} then (SQLITE_OK, None, Some (ls, hs))
                    else mini_error (ls, hs))))"

definition login_row :: "entry \<Rightarrow> sql_row" where
  "login_row = (\<lambda>(l, i, p) k.
     if k = 0 then (blob l, 0) else if k = 1 then (Some (to_string_int (sint i)), i) else (blob p, 0))"

definition history_row :: "entry \<Rightarrow> sql_row" where
  "history_row = (\<lambda>(l, r, t) k.
     if k = 0 then (blob l, 0) else if k = 1 then (Some (to_string_int (sint r)), r)
     else if k = 2 then (Some ''2000-01-01 09:15:12'', 0) else (blob t, 0))"

definition history_prefix :: string where
  "history_prefix = ''select author, room_id, datetime(datetime, '' @ quote @ ''unixepoch'' @ quote @
     ''), message from history where room_id==''"

definition mini_query :: "mini option \<Rightarrow> string \<Rightarrow> (sql_row list \<times> int) option" where
  "mini_query ptr q =
     Option.bind ptr (\<lambda>(ls, hs).
       (case eat (''select * from logins where login=='' @ quote) q of
          Some s \<Rightarrow> Option.bind (scan_lit s) (\<lambda>(l, s).
            if s = '';'' then Some (map login_row (filter (\<lambda>e. fst e = l) ls), SQLITE_DONE) else None)
        | None \<Rightarrow> Option.bind (eat history_prefix q) (\<lambda>s. Option.bind (scan_int s) (\<lambda>(r, s).
            if s = '';'' then Some (map history_row (filter (\<lambda>e. fst (snd e) = r) hs), SQLITE_DONE)
            else None))))"

definition mini_engine :: "mini sqlite" where
  "mini_engine = \<lparr>sq_open = (\<lambda>name. (SQLITE_OK, ([], []))), sq_exec = mini_exec, sq_query = mini_query\<rparr>"

section \<open>Its laws\<close>

lemma eat_append [simp]: "eat p (p @ s) = Some s"
  by (simp add: eat_def)

lemma scan_lit_plain:
  "unquoted l \<Longrightarrow> s = [] \<or> hd s \<noteq> CHR 0x27 \<Longrightarrow> scan_lit (l @ CHR 0x27 # s) = Some (l, s)"
proof (induction l)
  case Nil
  then show ?case by (cases s) auto
next
  case (Cons c l)
  then have "scan_lit (c # (l @ CHR 0x27 # s)) = map_option (apfst ((#) c)) (scan_lit (l @ CHR 0x27 # s))"
    by (cases "l @ CHR 0x27 # s") auto
  with Cons show ?case by simp
qed

lemma takeWhile_digits:
  "s = [] \<or> \<not> is_digit (hd s) \<Longrightarrow> takeWhile is_digit (to_string_nat n @ s) = to_string_nat n"
  "s = [] \<or> \<not> is_digit (hd s) \<Longrightarrow> dropWhile is_digit (to_string_nat n @ s) = s"
  using to_string_nat_digits [of n]
  by (cases s; simp add: takeWhile_append2 dropWhile_append2 list_all_iff takeWhile_append dropWhile_append)+

lemma scan_int_to_string:
  assumes "s = [] \<or> \<not> is_digit (hd s)"
  shows "scan_int (to_string_int (sint i) @ s) = Some (i, s)"
proof (cases "sint i < 0")
  case True
  then show ?thesis
    using takeWhile_digits [OF assms] by (simp add: scan_int_def to_string_int_def)
next
  case False
  have "\<not> prefix ''-'' (to_string_nat n @ s)" for n
    using to_string_nat_hd [of n] to_string_nat_nonempty [of n] minus_not_digit
    by (cases "to_string_nat n") auto
  with False show ?thesis
    using takeWhile_digits [OF assms] by (simp add: scan_int_def to_string_int_def)
qed

text \<open>Whatever parses has a matching number of quotes.\<close>

definition odd_quotes :: "string \<Rightarrow> bool" where
  "odd_quotes s \<longleftrightarrow> odd (length (filter (\<lambda>c. c = CHR 0x27) s))"

lemma odd_quotes_simps [simp]:
  "\<not> odd_quotes []" "odd_quotes (c # s) \<longleftrightarrow> (if c = CHR 0x27 then \<not> odd_quotes s else odd_quotes s)"
  "odd_quotes (s @ t) \<longleftrightarrow> odd_quotes s \<noteq> odd_quotes t"
  by (auto simp: odd_quotes_def)

lemma open_literal_odd: "open_literal b s \<Longrightarrow> odd_quotes s \<longleftrightarrow> \<not> b"
  by (induction b s rule: open_literal.induct) (auto split: if_splits)

lemma digits_odd_quotes: "list_all is_digit s \<Longrightarrow> \<not> odd_quotes s"
  by (induction s) (auto simp: is_digit_def)

lemma to_string_int_odd_quotes [simp]: "\<not> odd_quotes (to_string_int i)"
  by (auto simp: to_string_int_def digits_odd_quotes to_string_nat_digits)

lemma scan_lit_odd: "scan_lit s = Some (l, r) \<Longrightarrow> odd_quotes s \<longleftrightarrow> \<not> odd_quotes r"
  by (induction s arbitrary: l r rule: scan_lit.induct) (auto split: if_splits)

lemma eat_odd: "eat p s = Some r \<Longrightarrow> odd_quotes s \<longleftrightarrow> odd_quotes p \<noteq> odd_quotes r"
  by (auto simp: eat_def prefix_def split: if_splits)

lemma scan_int_odd:
  assumes "scan_int s = Some (i, r)"
  shows "odd_quotes s \<longleftrightarrow> odd_quotes r"
proof -
  let ?ds = "if prefix ''-'' s then tl s else s"
  have r: "r = dropWhile is_digit ?ds"
    using assms by (auto simp: scan_int_def Let_def split: if_splits)
  have tl: "odd_quotes s = odd_quotes ?ds"
    by (cases s) auto
  have "\<not> odd_quotes (takeWhile is_digit ?ds)"
    by (rule digits_odd_quotes) (auto simp: list_all_iff dest: set_takeWhileD)
  then have "odd_quotes ?ds = odd_quotes r"
    using odd_quotes_simps(3) [of "takeWhile is_digit ?ds" "dropWhile is_digit ?ds"]
    unfolding r takeWhile_dropWhile_id by simp
  then show ?thesis using tl by simp
qed

lemma parse_login_row_odd:
  assumes "parse_login_row s = Some e"
  shows "odd_quotes s"
proof -
  obtain l s1 s2 i s3 s4 p where steps: "scan_lit s = Some (l, s1)" "eat '', '' s1 = Some s2"
    "scan_int s2 = Some (i, s3)" "eat ('', '' @ quote) s3 = Some s4" "scan_lit s4 = Some (p, '');'')"
    using assms by (auto simp: parse_login_row_def bind_eq_Some_conv split: if_splits)
  show ?thesis
    using scan_lit_odd [OF steps(1)] eat_odd [OF steps(2)] scan_int_odd [OF steps(3)]
      eat_odd [OF steps(4)] scan_lit_odd [OF steps(5)]
    by (simp add: quote_def)
qed

lemma parse_history_row_odd:
  assumes "parse_history_row s = Some e"
  shows "odd_quotes s"
proof -
  obtain l s1 s2 r s3 s4 d s5 s6 t where steps: "scan_lit s = Some (l, s1)" "eat '', '' s1 = Some s2"
    "scan_int s2 = Some (r, s3)" "eat ('', strftime('' @ quote @ ''%s'' @ quote @ '','' @ quote) s3 = Some s4"
    "scan_lit s4 = Some (d, s5)" "eat (''), '' @ quote) s5 = Some s6" "scan_lit s6 = Some (t, '');'')"
    using assms by (auto simp: parse_history_row_def bind_eq_Some_conv split: if_splits)
  show ?thesis
    using scan_lit_odd [OF steps(1)] eat_odd [OF steps(2)] scan_int_odd [OF steps(3)]
      eat_odd [OF steps(4)] scan_lit_odd [OF steps(5)] eat_odd [OF steps(6)] scan_lit_odd [OF steps(7)]
    by (simp add: quote_def)
qed

lemma create_not_odd: "\<not> odd_quotes create_table_history" "\<not> odd_quotes create_table_logins"
  by (simp_all add: create_table_history_def create_table_logins_def digits_odd_quotes to_string_nat_digits)

lemma mini_exec_odd:
  assumes "odd_quotes q"
  shows "mini_exec (Some h) q = mini_error h"
proof -
  obtain ls hs where h: "h = (ls, hs)" by fastforce
  have "parse_login_row s = None" if "eat (''insert into logins values('' @ quote) q = Some s" for s
    using eat_odd [OF that] parse_login_row_odd [of s] assms
    by (cases "parse_login_row s") (auto simp: quote_def)
  moreover have "parse_history_row s = None" if "eat (''insert into history values('' @ quote) q = Some s" for s
    using eat_odd [OF that] parse_history_row_odd [of s] assms
    by (cases "parse_history_row s") (auto simp: quote_def)
  ultimately show ?thesis
    using assms create_not_odd by (auto simp: mini_exec_def h split: option.splits)
qed

lemma mini_query_odd:
  assumes "odd_quotes q"
  shows "mini_query (Some h) q = None"
proof (rule ccontr)
  assume "mini_query (Some h) q \<noteq> None"
  then consider s l where "eat (''select * from logins where login=='' @ quote) q = Some s" "scan_lit s = Some (l, '';'')"
    | s r where "eat history_prefix q = Some s" "scan_int s = Some (r, '';'')"
    by (cases h) (auto simp: mini_query_def bind_eq_Some_conv split: option.splits if_splits)
  then show False
  proof cases
    case 1
    then show ?thesis using eat_odd [OF 1(1)] scan_lit_odd [OF 1(2)] assms by (simp add: quote_def)
  next
    case 2
    then show ?thesis
      using eat_odd [OF 2(1)] scan_int_odd [OF 2(2)] assms by (simp add: history_prefix_def quote_def)
  qed
qed

lemma rows_view [simp]: "login_view (login_row e) = stored e" "history_view (history_row e) = stored e"
  by (auto simp: login_view_def login_row_def history_view_def history_row_def stored_def
      split: prod.splits)

definition login_values :: "string \<Rightarrow> int32 \<Rightarrow> string \<Rightarrow> string" where
  "login_values l i p = l @ quote @ '', '' @ to_string_int (sint i) @ '', '' @ quote @ p @ quote @ '');''"

definition history_values :: "string \<Rightarrow> int32 \<Rightarrow> string \<Rightarrow> string \<Rightarrow> string" where
  "history_values l r d t = l @ quote @ '', '' @ to_string_int (sint r) @ '', strftime('' @ quote @
     ''%s'' @ quote @ '','' @ quote @ d @ quote @ ''), '' @ quote @ t @ quote @ '');''"

lemma mini_insert_login: "mini_exec (Some (ls, hs)) (sql_insert_login l i p) =
    (case parse_login_row (login_values l i p) of
       Some e \<Rightarrow> (SQLITE_OK, None, Some (ls @ [e], hs)) | None \<Rightarrow> mini_error (ls, hs))"
  by (simp add: mini_exec_def sql_insert_login_def login_values_def eat_def)

lemma mini_insert_history: "mini_exec (Some (ls, hs)) (sql_insert_history l r d t) =
    (case parse_history_row (history_values l r d t) of
       Some e \<Rightarrow> (SQLITE_OK, None, Some (ls, hs @ [e])) | None \<Rightarrow> mini_error (ls, hs))"
  by (simp add: mini_exec_def sql_insert_history_def history_values_def eat_def)

lemma mini_select_login: "mini_query (Some (ls, hs)) (sql_select_login l) =
    Option.bind (scan_lit (l @ quote @ '';'')) (\<lambda>(l, s).
      if s = '';'' then Some (map login_row (filter (\<lambda>e. fst e = l) ls), SQLITE_DONE) else None)"
  by (simp add: mini_query_def sql_select_login_def eat_def)

lemma mini_select_history: "mini_query (Some (ls, hs)) (sql_select_history r) =
    Some (map history_row (filter (\<lambda>e. fst (snd e) = r) hs), SQLITE_DONE)"
proof -
  have "eat history_prefix (sql_select_history r) = Some (to_string_int (sint r) @ '';'')"
    by (simp add: history_prefix_def quote_def sql_select_history_def eat_def)
  then show ?thesis
    by (simp add: mini_query_def sql_select_history_def eat_def scan_int_to_string is_digit_def)
qed

lemma parse_login_plain: "unquoted l \<Longrightarrow> unquoted p \<Longrightarrow>
    parse_login_row (login_values l i p) =
      Some (l, i, p)"
  by (simp add: parse_login_row_def login_values_def quote_def eat_def scan_lit_plain scan_int_to_string is_digit_def)

lemma parse_history_plain: "unquoted l \<Longrightarrow> unquoted d \<Longrightarrow> unquoted t \<Longrightarrow>
    parse_history_row (history_values l r d t) = Some (l, r, t)"
  by (simp add: parse_history_row_def history_values_def quote_def eat_def scan_lit_plain scan_int_to_string is_digit_def)

lemma mini_simps: "sq_exec mini_engine = mini_exec" "sq_query mini_engine = mini_query"
  by (simp_all add: mini_engine_def)

lemma mini_create:
  "mini_exec (Some h) create_table_history = (SQLITE_OK, None, Some h)"
  "mini_exec (Some h) create_table_logins = (SQLITE_OK, None, Some h)"
  by (cases h, simp add: mini_exec_def create_table_history_def create_table_logins_def eat_def)+

interpretation mini: sqlite_laws mini_engine fst snd "\<lambda>_. True"
proof (unfold_locales, goal_cases)
  case (1 h l p i)
  then show ?case
    by (cases h) (simp add: mini_simps mini_insert_login parse_login_plain)
next
  case (2 h l)
  then have "scan_lit (l @ quote @ '';'') = Some (l, '';'')"
    by (simp add: quote_def scan_lit_plain)
  then show ?case
    by (cases h) (simp add: mini_simps mini_select_login multiset.map_comp comp_def)
next
  case (3 h l t r)
  then show ?case
    by (cases h) (simp add: mini_simps mini_insert_history parse_history_plain)
next
  case (4 h r)
  have "fst (history_row e 2) \<noteq> None" for e
    by (cases e) (simp add: history_row_def)
  then show ?case
    by (cases h) (auto simp: mini_simps mini_select_history multiset.map_comp comp_def)
next
  case (5 h q)
  then show ?case by (auto simp: mini_simps mini_create)
next
  case (6 q)
  then show ?case by (simp add: mini_simps mini_exec_def)
next
  case (7 q)
  then show ?case by (simp add: mini_simps mini_query_def)
qed

interpretation mini_syntax: sqlite_syntax mini_engine fst snd "\<lambda>_. True"
  by unfold_locales
    (simp_all add: mini_simps mini_exec_odd mini_query_odd mini_error_def open_literal_odd)

section \<open>The database and its contract\<close>

definition mini_db :: "entry list \<Rightarrow> entry list \<Rightarrow> mini Database" where
  "mini_db ls hs = \<lparr>db_name = ''file:///root/Appchat/history.db'', db_ptr = Some (ls, hs)\<rparr>"



text \<open>A saved message is in the history of its room when a room asks for it, with everything
  that was there before and nothing else; the histories of the other rooms do not change.\<close>

theorem history_after_save:
  assumes "sqlite_laws eng logins history intact" and "boost_format fmt02"
    and "db_ptr db = Some h" and "intact h" and "history_ok (history h)"
    and "plain l" and "l \<noteq> []" and "plain t" and "t \<noteq> []"
  shows "\<exists>ms. get_history eng room
        (save_text_msg eng fmt02 \<lparr>td_room_id = r, td_login = l, td_text = t\<rparr> db) =
      Inr (ms, save_text_msg eng fmt02 \<lparr>td_room_id = r, td_login = l, td_text = t\<rparr> db) \<and>
    mset ms = mset (map message_of (filter (\<lambda>e. fst (snd e) = room) (history h))) +
      (if room = r then {#\<lparr>td_room_id = r, td_login = l, td_text = t\<rparr>#} else {#})"
proof -
  note laws = assms(1)
  obtain h' where h': "save_text_msg eng fmt02 \<lparr>td_room_id = r, td_login = l, td_text = t\<rparr> db =
      db\<lparr>db_ptr := Some h'\<rparr>" "history h' = history h @ [(l, r, t)]" "intact h'"
    using sqlite_laws.save_text_msg_open [OF laws assms(3,4,6,8)
        boost_format.history_stamp_value [OF assms(2)], of r] assms(4) by auto
  show ?thesis
    using sqlite_laws.get_history_open [OF laws, of "db\<lparr>db_ptr := Some h'\<rparr>" h' room] h' assms
    by (auto simp: message_of_def)
qed

theorem history_after_save_witness:
  "\<exists>ms. get_history mini_engine 7
      (save_text_msg mini_engine std_fmt02 \<lparr>td_room_id = 7, td_login = ''ann'', td_text = ''hi''\<rparr>
        (mini_db [] [(''bob'', 7, ''yo'')])) =
      Inr (ms, save_text_msg mini_engine std_fmt02 \<lparr>td_room_id = 7, td_login = ''ann'', td_text = ''hi''\<rparr>
        (mini_db [] [(''bob'', 7, ''yo'')])) \<and>
    mset ms = {#\<lparr>td_room_id = 7, td_login = ''ann'', td_text = ''hi''\<rparr>,
      \<lparr>td_room_id = 7, td_login = ''bob'', td_text = ''yo''\<rparr>#}"
proof -
  let ?h = "([] :: entry list, [(''bob'', 7, ''yo'')] :: entry list)"
  have ptr: "db_ptr (mini_db [] [(''bob'', 7, ''yo'')]) = Some ?h" and ok: "history_ok (snd ?h)"
    by (simp_all add: mini_db_def history_ok_def)
  have plain: "plain ''ann''" "''ann'' \<noteq> []" "plain ''hi''" "''hi'' \<noteq> []"
    by simp_all
  show ?thesis
    using history_after_save [OF mini.sqlite_laws_axioms, OF std_format.boost_format_axioms, OF ptr TrueI, OF ok plain,
        of 7 7]
    by (simp add: message_of_def)
qed

text \<open>C38: once a message with an empty text is saved in an intact file, whatever its sender's login as
  long as that needs no escaping in SQL, the history of its room cannot be read any
  more: the column comes back as a null pointer, from which a string is built.\<close>

theorem empty_text_breaks_history:
  assumes "sqlite_laws eng logins history intact" and "boost_format fmt02"
    and "db_ptr db = Some h" and "intact h" and "plain l"
  shows "get_history eng r (save_text_msg eng fmt02 \<lparr>td_room_id = r, td_login = l, td_text = []\<rparr> db) =
    Inl NullString"
proof -
  note laws = assms(1)
  obtain h' where h': "save_text_msg eng fmt02 \<lparr>td_room_id = r, td_login = l, td_text = []\<rparr> db =
      db\<lparr>db_ptr := Some h'\<rparr>" "history h' = history h @ [(l, r, [])]" "intact h'"
    using sqlite_laws.save_text_msg_open [OF laws assms(3-5), of "[]" fmt02 r]
      boost_format.history_stamp_value [OF assms(2)] assms(4) by auto
  then show ?thesis
    using sqlite_laws.get_history_null [OF laws, of "db\<lparr>db_ptr := Some h'\<rparr>" h' l r] by simp
qed

theorem empty_text_breaks_history_witness:
  "get_history mini_engine 7 (save_text_msg mini_engine std_fmt02
     \<lparr>td_room_id = 7, td_login = ''ann'', td_text = []\<rparr> (mini_db [] [])) = Inl NullString"
  using empty_text_breaks_history [OF mini.sqlite_laws_axioms std_format.boost_format_axioms, of
      "mini_db [] []" "([], [])" "''ann''" 7]
  by (simp add: mini_db_def)

text \<open>After the database pointer became null (a failed start or a failed save) every operation
  goes on as if nothing were stored: registrations are accepted and lost, logins are refused,
  histories are empty.\<close>

theorem closed_database_inert:
  assumes "sqlite_laws eng logins history intact" and "db_ptr db = None"
  shows "add_logins eng l i p db = Inr db \<and> get_loginid eng l db = -1 \<and>
    check_client eng l p db = Inr (-1) \<and> get_history eng r db = Inr ([], db) \<and>
    save_text_msg eng fmt02 m db = db"
  using sqlite_laws.closed_database [OF assms] by blast

theorem closed_database_inert_witness:
  "check_client mini_engine ''ann'' ''pw'' \<lparr>db_name = ''x'', db_ptr = None\<rparr> = Inr (-1)"
  using closed_database_inert [OF mini.sqlite_laws_axioms, of "\<lparr>db_name = ''x'', db_ptr = None\<rparr>"]
  by simp

end
