(* ===== verification/ServerSystem.thy ===== *)
theory ServerSystem
  imports Server SqliteModel
begin

text \<open>
  The server as a transition system: sockets, reads, writes and the tasks of the pool happen in any
  order. The invariant is proved by induction over the reachable states.
\<close>

section \<open>Steps\<close>

inductive server_step ::
  "pb_rt \<Rightarrow> 'h sqlite \<Rightarrow> (nat \<Rightarrow> string) \<Rightarrow> nat \<Rightarrow> 'h server \<Rightarrow> 'h server \<Rightarrow> bool"
  for rt eng fmt02 alloc where
  accept: "length garbage_header = SIZE_HEADER \<Longrightarrow>
    server_step rt eng fmt02 alloc s (scan_acception error garbage_id garbage_header s)"
| header_read: "\<lbrakk>p \<in> set (pool s); cn_reading (conns s p) = ReadHeader;
      case outcome of None \<Rightarrow> True | Some block \<Rightarrow> length block = SIZE_HEADER;
      do_parse_pb_header rt alloc p outcome s = Inr s'\<rbrakk> \<Longrightarrow>
    server_step rt eng fmt02 alloc s s'"
| body_read: "\<lbrakk>p \<in> set (pool s); cn_reading (conns s p) = ReadBody header;
      length data \<le> unat (hdr_length header)\<rbrakk> \<Longrightarrow>
    server_step rt eng fmt02 alloc s (body_handler rt header p data s)"
| run: "\<lbrakk>tasks s = before @ t # after; run_task rt eng fmt02 t (s\<lparr>tasks := before @ after\<rparr>) = Inr s'\<rbrakk> \<Longrightarrow>
    server_step rt eng fmt02 alloc s s'"
| queue_write: "cn_writing (conns s p) \<Longrightarrow>
    server_step rt eng fmt02 alloc s (queue_write_handler rt p ok s)"
| direct_write: "Direct f \<in> set (cn_started (conns s p)) \<Longrightarrow>
    server_step rt eng fmt02 alloc s (direct_write_handler rt p ok s)"

inductive server_reach ::
  "pb_rt \<Rightarrow> 'h sqlite \<Rightarrow> (nat \<Rightarrow> string) \<Rightarrow> nat \<Rightarrow> 'h Database option \<Rightarrow> 'h server \<Rightarrow> bool"
  for rt eng fmt02 alloc db where
  start: "server_reach rt eng fmt02 alloc db (Server_ctor db)"
| step: "server_reach rt eng fmt02 alloc db s \<Longrightarrow> server_step rt eng fmt02 alloc s s' \<Longrightarrow>
    server_reach rt eng fmt02 alloc db s'"

section \<open>The invariant\<close>

text \<open>A write is in flight only while the queue has a front, and the frame being written is that
  front.\<close>

definition conn_ok :: "connection \<Rightarrow> bool" where
  "conn_ok c \<longleftrightarrow> (cn_writing c \<longrightarrow> cn_queue c \<noteq> []) \<and>
     (cn_queue c \<noteq> [] \<longrightarrow> queued_started c \<noteq> [] \<and> last (queued_started c) = hd (cn_queue c))"

fun task_conn :: "task \<Rightarrow> nat" where
  "task_conn (DoAutorisation p r) = p"
| "task_conn (DoRegistration p r) = p"
| "task_conn (DoJoinRoom p r) = p"
| "task_conn (DoTextMsg p r) = p"
| "task_conn (SendAutoResponse p i) = p"
| "task_conn (SendRegResponse p i) = p"
| "task_conn (SendJoinRoomResponse p r b) = p"

definition server_ok :: "'h server \<Rightarrow> bool" where
  "server_ok s \<longleftrightarrow> manager_ok (manager s) \<and> (\<forall>p. conn_ok (conns s p)) \<and>
     pool s = [0..<length (pool s)] \<and>
     (\<forall>t \<in> set (tasks s). task_conn t \<in> set (pool s)) \<and>
     (\<forall>room c p. subscribed (manager s) room c = Some p \<longrightarrow> p \<in> set (pool s))"

section \<open>Preservation\<close>

lemma conn_ok_update [simp]:
  "conn_ok (c\<lparr>cn_client_id := i\<rparr>) = conn_ok c" "conn_ok (c\<lparr>cn_room_id := i\<rparr>) = conn_ok c"
  "conn_ok (c\<lparr>cn_login := l\<rparr>) = conn_ok c" "conn_ok (c\<lparr>cn_password := l\<rparr>) = conn_ok c"
  "conn_ok (c\<lparr>cn_busy := b\<rparr>) = conn_ok c" "conn_ok (c\<lparr>cn_open := b\<rparr>) = conn_ok c"
  "conn_ok (c\<lparr>cn_buffer_header := h\<rparr>) = conn_ok c" "conn_ok (c\<lparr>cn_buffer_msg := h\<rparr>) = conn_ok c"
  "conn_ok (c\<lparr>cn_reading := r\<rparr>) = conn_ok c"
  by (simp_all add: conn_ok_def queued_started_def)

lemma conn_ok_ctor [simp]: "conn_ok (Connection_ctor i h)"
  by (simp add: conn_ok_def Connection_ctor_def)

lemma conn_ok_no_write [simp]: "conn_ok c \<Longrightarrow> conn_ok (c\<lparr>cn_writing := False\<rparr>)"
  by (simp add: conn_ok_def queued_started_def)

lemma conn_ok_add [simp]: "conn_ok c \<Longrightarrow> conn_ok (add_msg_send_queue f c)"
  by (auto simp: conn_ok_def add_msg_send_queue_def sending_msgs_to_client_def queued_started_def Let_def)

lemma conn_ok_written [simp]: "conn_ok c \<Longrightarrow> conn_ok (queue_written c)"
  by (auto simp: conn_ok_def queue_written_def sending_msgs_to_client_def queued_started_def Let_def)

lemma conn_ok_direct [simp]: "conn_ok c \<Longrightarrow> conn_ok (start_direct f c)"
  by (auto simp: conn_ok_def start_direct_def queued_started_def List.map_filter_def)

lemma conn_ok_reset [simp]: "conn_ok (close_and_reset c) = conn_ok c"
  by (simp add: close_and_reset_def)

lemma conn_ok_read [simp]: "conn_ok (async_read_pb_header c) = conn_ok c"
  by (simp add: async_read_pb_header_def)

lemma conn_ok_kept: "kept_by_calls (connection_subscriber rt) (\<lambda>w. \<forall>p. conn_ok (w p))"
  by (auto simp: kept_by_calls_def connection_subscriber_def send_msg_to_client_def)

lemma server_okI:
  assumes "manager_ok (manager s)" and "\<And>p. conn_ok (conns s p)" and "pool s = [0..<length (pool s)]"
    and "\<And>t. t \<in> set (tasks s) \<Longrightarrow> task_conn t \<in> set (pool s)"
    and "\<And>room c p. subscribed (manager s) room c = Some p \<Longrightarrow> p \<in> set (pool s)"
  shows "server_ok s"
  using assms unfolding server_ok_def by blast

lemma server_okD:
  assumes "server_ok s"
  shows "manager_ok (manager s)" "conn_ok (conns s p)" "pool s = [0..<length (pool s)]"
    "t \<in> set (tasks s) \<Longrightarrow> task_conn t \<in> set (pool s)"
    "subscribed (manager s) room c = Some p \<Longrightarrow> p \<in> set (pool s)"
  using assms unfolding server_ok_def by blast+

lemma server_ok_same:
  assumes "server_ok s" and "manager s' = manager s" and "\<And>p. conn_ok (conns s p) \<Longrightarrow> conn_ok (conns s' p)"
    and "pool s' = pool s" and "\<And>t. t \<in> set (tasks s') \<Longrightarrow> t \<in> set (tasks s) \<or> task_conn t \<in> set (pool s)"
  shows "server_ok s'"
  using server_okD [OF assms(1)] assms(2-) by (intro server_okI) (simp_all, metis)

lemma on_conn_simps [simp]:
  "manager (on_conn p f s) = manager s" "pool (on_conn p f s) = pool s"
  "tasks (on_conn p f s) = tasks s" "database (on_conn p f s) = database s"
  "next_id (on_conn p f s) = next_id s"
  "conns (on_conn p f s) q = (if q = p then f (conns s p) else conns s q)"
  by (simp_all add: on_conn_def)

lemma post_simps [simp]:
  "manager (post t s) = manager s" "pool (post t s) = pool s" "database (post t s) = database s"
  "tasks (post t s) = tasks s @ [t]" "conns (post t s) = conns s" "next_id (post t s) = next_id s"
  by (simp_all add: post_def)

lemma server_ok_on_conn:
  "server_ok s \<Longrightarrow> (conn_ok (conns s p) \<Longrightarrow> conn_ok (f (conns s p))) \<Longrightarrow> server_ok (on_conn p f s)"
  by (erule server_ok_same) auto

lemma server_ok_post: "server_ok s \<Longrightarrow> task_conn t \<in> set (pool s) \<Longrightarrow> server_ok (post t s)"
  by (erule server_ok_same) auto

lemma server_ok_manager:
  assumes "server_ok s" and "manager_ok m" and "\<And>p. conn_ok (w p)"
    and "\<And>room c p. subscribed m room c = Some p \<Longrightarrow> p \<in> set (pool s)"
  shows "server_ok (s\<lparr>manager := m, conns := w\<rparr>)"
  using server_okD [OF assms(1)] assms(2-) by (intro server_okI) simp_all

lemma server_ok_database: "server_ok s \<Longrightarrow> server_ok (s\<lparr>database := db\<rparr>)"
  by (erule server_ok_same) auto

lemma free_connection_ok:
  assumes "server_ok s"
  shows "server_ok (free_connection rt p s)"
proof -
  let ?r = "Manager_leave_from_all_channels (connection_subscriber rt) (cn_client_id (conns s p))
    (manager s, conns s)"
  have "server_ok (s\<lparr>manager := fst ?r, conns := snd ?r\<rparr>)"
  proof (rule server_ok_manager [OF assms])
    show "manager_ok (fst ?r)"
      using conn.leave_all_membership(3) [OF server_okD(1) [OF assms]] .
    show "conn_ok (snd ?r q)" for q
      using kept_leave_all [OF conn_ok_kept] server_okD(2) [OF assms] by blast
    show "q \<in> set (pool s)" if "subscribed (fst ?r) room c = Some q" for room c q
      using that server_okD(5) [OF assms]
      unfolding conn.leave_all_membership(1) [OF server_okD(1) [OF assms]] by (auto split: if_splits)
  qed
  then show ?thesis
    unfolding free_connection_def split_beta Let_def by (rule server_ok_on_conn) simp
qed

lemma do_parse_pb_header_ok:
  assumes "server_ok s" and "do_parse_pb_header rt alloc p outcome s = Inr s'"
  shows "server_ok s'"
  using assms
  by (auto simp: do_parse_pb_header_def Let_def split_beta split: option.splits if_splits
      intro!: free_connection_ok server_ok_on_conn)

lemma body_handler_ok:
  assumes "server_ok s" and "p \<in> set (pool s)"
  shows "server_ok (body_handler rt header p data s)"
  using assms
  by (auto simp: body_handler_def process_msg_def Let_def split_beta split: TypeCommand.split
      intro!: server_ok_on_conn server_ok_post)

lemma join_channel_ok:
  assumes "server_ok s" and "p \<in> set (pool s)" and "join_channel rt eng p room s = Inr (flag, s')"
  shows "server_ok s' \<and> pool s' = pool s"
proof -
  obtain db m w where j: "Manager_join (connection_subscriber rt) eng p room (database s) (manager s, conns s) =
      Inr (flag, db, m, w)" and s': "s' = s\<lparr>database := db, manager := m, conns := w\<rparr>"
    using assms(3) by (auto simp: join_channel_def)
  note mem = conn.join_membership [OF server_okD(1) [OF assms(1)] j]
  have "server_ok ((s\<lparr>database := db\<rparr>)\<lparr>manager := m, conns := w\<rparr>)"
  proof (rule server_ok_manager [OF server_ok_database [OF assms(1)] mem(1)])
    show "conn_ok (w q)" for q
      using kept_join [OF conn_ok_kept _ j] server_okD(2) [OF assms(1)] by blast
    show "q \<in> set (pool (s\<lparr>database := db\<rparr>))" if "subscribed m r c = Some q" for r c q
      using that server_okD(5) [OF assms(1)] assms(2) unfolding mem(2) by (auto split: if_splits)
  qed
  then show ?thesis by (simp add: s')
qed

lemma deliver_and_save_ok:
  assumes "server_ok s" and "deliver_and_save rt eng fmt02 msg s = Inr s'"
  shows "server_ok s'"
proof -
  let ?r = "Manager_send_to_channel (connection_subscriber rt) msg (manager s, conns s)"
  have "server_ok (s\<lparr>manager := fst ?r, conns := snd ?r\<rparr>)"
  proof (rule server_ok_manager [OF assms(1)])
    show "manager_ok (fst ?r)"
      using conn.send_ok [OF server_okD(1) [OF assms(1)]] .
    show "conn_ok (snd ?r q)" for q
      using kept_send [OF conn_ok_kept] server_okD(2) [OF assms(1)] by blast
    show "q \<in> set (pool s)" if "subscribed (fst ?r) room c = Some q" for room c q
      using that server_okD(5) [OF assms(1)] by (simp add: conn.send_simps)
  qed
  then show ?thesis
    using assms(2)
    by (auto simp: deliver_and_save_def Let_def split_beta split: option.splits dest: server_ok_database)
qed

lemma register_login_same:
  assumes "register_login eng l q s = Inr (i, s')"
  shows "manager s' = manager s" "conns s' = conns s" "pool s' = pool s" "tasks s' = tasks s"
  using assms
  by (auto simp: register_login_def generate_client_id_def Let_def split: option.splits if_splits)

lemma run_task_ok:
  assumes "server_ok s" and "task_conn t \<in> set (pool s)" and "run_task rt eng fmt02 t s = Inr s'"
  shows "server_ok s'"
proof (cases t)
  case (DoAutorisation p r)
  with assms show ?thesis
    by (auto simp: do_autorisation_def Let_def split: if_splits option.splits
        intro!: free_connection_ok server_ok_on_conn server_ok_post)
next
  case (DoRegistration p r)
  show ?thesis
  proof (cases "Request_has_register_request r")
    case True
    let ?login = "reg_login (Request_register_request r)"
    let ?password = "reg_password (Request_register_request r)"
    let ?s1 = "on_conn p (\<lambda>c. c\<lparr>cn_login := ?login, cn_password := ?password\<rparr>) s"
    obtain i s2 where reg: "register_login eng ?login ?password ?s1 = Inr (i, s2)"
      and s': "s' = post (SendRegResponse p i) (on_conn p (\<lambda>c. c\<lparr>cn_client_id := i\<rparr>) s2)"
      using assms(3) True by (auto simp: DoRegistration do_registration_def Let_def)
    have "server_ok ?s1"
      using assms(1) by (rule server_ok_on_conn) simp
    then have "server_ok s2"
      by (rule server_ok_same) (simp_all add: register_login_same [OF reg])
    then show ?thesis
      using register_login_same(3) [OF reg] assms(2)
      by (auto simp: s' DoRegistration intro!: server_ok_post server_ok_on_conn)
  qed (use assms in \<open>auto simp: DoRegistration do_registration_def intro: free_connection_ok\<close>)
next
  case (DoJoinRoom p r)
  with assms show ?thesis
    using join_channel_ok [OF assms(1)]
    by (fastforce simp: do_join_room_def Let_def split: if_splits intro!: server_ok_post)
next
  case (DoTextMsg p r)
  with assms show ?thesis
    by (auto simp: do_text_msg_def split: if_splits intro: deliver_and_save_ok)
qed (use assms in \<open>auto simp: send_auto_response_def send_reg_response_def send_join_room_response_def
    intro!: server_ok_on_conn\<close>)

lemma server_step_ok: "server_step rt eng fmt02 alloc s s' \<Longrightarrow> server_ok s \<Longrightarrow> server_ok s'"
proof (induction rule: server_step.induct)
  case (accept garbage_header s error garbage_id)
  show ?case
  proof (rule server_okI)
    note ok = server_okD [OF accept(2)]
    let ?s' = "scan_acception error garbage_id garbage_header s"
    show "manager_ok (manager ?s')"
      using ok(1) by (simp add: scan_acception_def get_connection_def Let_def)
    show "conn_ok (conns ?s' p)" for p
      using ok(2) [of p] by (simp add: scan_acception_def get_connection_def Let_def)
    show "pool ?s' = [0..<length (pool ?s')]"
      using ok(3) by (simp add: scan_acception_def get_connection_def Let_def)
    show "task_conn t \<in> set (pool ?s')" if "t \<in> set (tasks ?s')" for t
      using ok(4) [of t] that by (auto simp: scan_acception_def get_connection_def Let_def split: if_splits)
    show "p \<in> set (pool ?s')" if "subscribed (manager ?s') room c = Some p" for room c p
      using ok(5) [of room c p] that
      by (auto simp: scan_acception_def get_connection_def Let_def split: if_splits)
  qed
next
  case (header_read p s outcome s')
  then show ?case by (blast intro: do_parse_pb_header_ok)
next
  case (body_read p s header data)
  then show ?case by (blast intro: body_handler_ok)
next
  case (run s before t after s')
  have "server_ok (s\<lparr>tasks := before @ after\<rparr>)"
    using run.prems by (rule server_ok_same) (auto simp: run.hyps)
  moreover have "task_conn t \<in> set (pool s)"
    using server_okD(4) [OF run.prems, of t] run.hyps(1) by simp
  ultimately show ?case
    using run_task_ok [of "s\<lparr>tasks := before @ after\<rparr>" t rt eng fmt02 s'] run.hyps(2) by simp
next
  case (queue_write s p ok)
  then show ?case
    by (auto simp: queue_write_handler_def intro!: free_connection_ok server_ok_on_conn)
next
  case (direct_write f s p ok)
  then show ?case by (simp add: direct_write_handler_def free_connection_ok)
qed

lemma Server_ctor_ok: "server_ok (Server_ctor db)"
  by (rule server_okI) (simp_all add: Server_ctor_def subscribed_def Manager_ctor_def
      manager_ok_ctor [unfolded Manager_ctor_def])

end
