(* ===== verification/ServerProps.thy ===== *)
theory ServerProps
  imports ServerSystem
begin

text \<open>
  What the server promises: logins and registrations against the table of accounts, the delivery of
  messages and histories, the reading loop, and the failures that the code allows. Each property has
  a concrete run beside it.
\<close>

lemma request_slots [simp]:
  "Request_has_input_request (create_input_request l p)"
  "Request_input_request (create_input_request l p) = \<lparr>inp_login = l, inp_password = p, inp_unknown = []\<rparr>"
  "Request_has_register_request (create_reg_request l p)"
  "Request_register_request (create_reg_request l p) = \<lparr>reg_login = l, reg_password = p, reg_unknown = []\<rparr>"
  "Request_has_join_room_request (join_room_request r)"
  "Request_join_room_request (join_room_request r) = \<lparr>jrq_room_id = r, jrq_unknown = []\<rparr>"
  "Request_has_text_request (create_text_request l r t)"
  "Request_text_request (create_text_request l r t) =
     \<lparr>txt_login = l, txt_room_id = r, txt_text = t, txt_unknown = []\<rparr>"
  by (simp_all add: request_factory_defs)

lemma on_conn_comp: "on_conn p f (on_conn p g s) = on_conn p (\<lambda>c. f (g c)) s"
  by (simp add: on_conn_def)

abbreviation open_db :: "'h server \<Rightarrow> 'h \<Rightarrow> 'h Database \<Rightarrow> bool" where
  "open_db s h db \<equiv> database s = Some db \<and> db_ptr db = Some h"

section \<open>Accounts\<close>

text \<open>What a login request should answer.\<close>

definition login_answer :: "entry list \<Rightarrow> string \<Rightarrow> string \<Rightarrow> int32" where
  "login_answer es l p = (case account es l of None \<Rightarrow> -1 | Some (i, q) \<Rightarrow> if p = q then i else -1)"

lemma do_autorisation_answer:
  assumes "sqlite_laws eng logins history intact" and "open_db s h db"
    and "accounts_ok (logins h)" and "plain l" and "plain pw" and "intact h"
  shows "do_autorisation rt eng p (create_input_request l pw) s =
    Inr (post (SendAutoResponse p (login_answer (logins h) l pw))
      (on_conn p (\<lambda>c. c\<lparr>cn_login := l, cn_password := pw, cn_client_id := login_answer (logins h) l pw\<rparr>) s))"
proof -
  have "check_client eng l pw db = Inr (login_answer (logins h) l pw)"
    using sqlite_laws.check_client_open [OF assms(1) _ assms(6,4,3), of db pw] assms(2)
    by (simp add: login_answer_def)
  then show ?thesis
    using assms(2) by (simp add: do_autorisation_def on_conn_comp)
qed

text \<open>A login request sets the connection's login, password and identifier, the latter to the
  account's when the password is right and to -1 otherwise, posts the response that says so, and
  changes nothing else.\<close>

theorem authorisation_answer:
  assumes "sqlite_laws eng logins history intact" and "open_db s h db"
    and "accounts_ok (logins h)" and "plain l" and "plain pw" and "intact h"
  shows "do_autorisation rt eng p (create_input_request l pw) s =
    Inr (post (SendAutoResponse p (login_answer (logins h) l pw))
      (on_conn p (\<lambda>c. c\<lparr>cn_login := l, cn_password := pw, cn_client_id := login_answer (logins h) l pw\<rparr>) s))"
  using assms by (rule do_autorisation_answer)

definition demo_server :: "entry list \<Rightarrow> entry list \<Rightarrow> mini server" where
  "demo_server ls hs = Server_ctor (Some (mini_db ls hs))"

lemma demo_open: "open_db (demo_server ls hs) (ls, hs) (mini_db ls hs)"
  by (simp add: demo_server_def Server_ctor_def mini_db_def)

theorem authorisation_answer_witness:
  "do_autorisation std_rt mini_engine 0 (create_input_request ''ann'' ''pw'') (demo_server [(''ann'', 5, ''pw'')] []) =
    Inr (post (SendAutoResponse 0 5) (on_conn 0 (\<lambda>c. c\<lparr>cn_login := ''ann'', cn_password := ''pw'',
      cn_client_id := 5\<rparr>) (demo_server [(''ann'', 5, ''pw'')] [])))"
proof -
  have "accounts_ok (fst ([(''ann'', 5 :: int32, ''pw'')], [] :: entry list))"
    by (simp add: accounts_ok_def)
  then show ?thesis
    using authorisation_answer [OF mini.sqlite_laws_axioms, OF demo_open, of "[(''ann'', 5, ''pw'')]" "[]"
        "''ann''" "''pw''" std_rt 0]
    by (simp add: login_answer_def account_def)
qed

lemma register_login_new:
  assumes "sqlite_laws eng logins history intact" and "open_db s h db" and "accounts_ok (logins h)"
    and "plain l" and "plain pw" and "pw \<noteq> []" and "account (logins h) l = None" and "intact h"
  shows "\<exists>h'. register_login eng l pw s = Inr (next_id s + 1,
      s\<lparr>next_id := next_id s + 1, database := Some (db\<lparr>db_ptr := Some h'\<rparr>)\<rparr>) \<and>
    logins h' = logins h @ [(l, next_id s + 1, pw)] \<and> accounts_ok (logins h') \<and>
    history h' = history h \<and> intact h'"
proof -
  have "get_loginid eng l db = -1"
    using sqlite_laws.get_loginid_open [OF assms(1) _ assms(8,4,3), of db] assms(2,7) by simp
  then show ?thesis
    using sqlite_laws.add_logins_open [OF assms(1) _ assms(8,4,5), of db "next_id s + 1"] assms
    by (auto simp: register_login_def generate_client_id_def Let_def accounts_ok_snoc)
qed

lemma register_login_taken:
  assumes "sqlite_laws eng logins history intact" and "open_db s h db" and "accounts_ok (logins h)"
    and "plain l" and "account (logins h) l = Some (i, q)" and "i \<noteq> -1"
    and "intact h"
  shows "register_login eng l pw s = Inr (-1, s)"
  using sqlite_laws.get_loginid_open [OF assms(1) _ assms(7,4,3), of db] assms
  by (simp add: register_login_def)

lemma do_registration_taken:
  assumes "sqlite_laws eng logins history intact" and "database s = Some db" and "db_ptr db = Some h"
    and "accounts_ok (logins h)" and "plain l" and "account (logins h) l = Some (i, q)" and "i \<noteq> -1"
    and "intact h"
  shows "do_registration rt eng p (create_reg_request l pw) s =
    Inr (post (SendRegResponse p (-1))
      (on_conn p (\<lambda>c. c\<lparr>cn_login := l, cn_password := pw, cn_client_id := -1\<rparr>) s))"
proof -
  have "register_login eng l pw (on_conn p (\<lambda>c. c\<lparr>cn_login := l, cn_password := pw\<rparr>) s) =
      Inr (-1, on_conn p (\<lambda>c. c\<lparr>cn_login := l, cn_password := pw\<rparr>) s)"
    by (rule register_login_taken [OF assms(1) _ assms(4-8), where db = db]) (simp add: assms(2,3))
  then show ?thesis by (simp add: do_registration_def on_conn_comp)
qed

lemma sint_succ: "0 \<le> sint n \<Longrightarrow> sint n < 2147483647 \<Longrightarrow> sint (n + 1 :: int32) = sint n + 1"
  by (simp add: sint_word_ariths signed_take_bit_int_eq_self)



text \<open>Identifiers of accounts lie between 1 and the counter and differ.\<close>

definition ids_ok :: "entry list \<Rightarrow> int32 \<Rightarrow> bool" where
  "ids_ok es n \<longleftrightarrow> distinct (map (\<lambda>e. fst (snd e)) es) \<and> 0 \<le> sint n \<and>
     (\<forall>e \<in> set es. 1 \<le> sint (fst (snd e)) \<and> sint (fst (snd e)) \<le> sint n)"

lemma ids_ok_snoc:
  assumes "ids_ok es n" and "sint n < 2147483647"
  shows "ids_ok (es @ [(l, n + 1, q)]) (n + 1)"
proof -
  have n: "sint (n + 1) = sint n + 1"
    using assms by (intro sint_succ) (simp_all add: ids_ok_def)
  then have "n + 1 \<notin> (\<lambda>e. fst (snd e)) ` set es"
    using assms(1) by (fastforce simp: ids_ok_def)
  then show ?thesis
    using assms(1) n by (fastforce simp: ids_ok_def)
qed

text \<open>As long as the identifiers of the stored accounts are distinct and at most the counter,
  a registration keeps them so: within one run, no two clients get the same identifier.\<close>

theorem registration_keeps_ids_distinct:
  assumes "sqlite_laws eng logins history intact" and "open_db s h db" and "accounts_ok (logins h)"
    and "plain l" and "plain pw" and "pw \<noteq> []" and "ids_ok (logins h) (next_id s)"
    and "sint (next_id s) < 2147483647" and "intact h"
  shows "\<exists>s' h' db'. do_registration rt eng p (create_reg_request l pw) s = Inr s' \<and>
    open_db s' h' db' \<and> accounts_ok (logins h') \<and> ids_ok (logins h') (next_id s')"
proof (cases "account (logins h) l")
  case None
  let ?s0 = "on_conn p (\<lambda>c. c\<lparr>cn_login := l, cn_password := pw\<rparr>) s"
  obtain h' where h': "register_login eng l pw ?s0 = Inr (next_id s + 1,
      ?s0\<lparr>next_id := next_id s + 1, database := Some (db\<lparr>db_ptr := Some h'\<rparr>)\<rparr>)"
    "logins h' = logins h @ [(l, next_id s + 1, pw)]" "accounts_ok (logins h')"
    using register_login_new [OF assms(1), of ?s0 db h l pw] assms(2-6,9) None by auto
  then show ?thesis
    using ids_ok_snoc [OF assms(7,8)]
    by (auto simp: do_registration_def intro!: exI [of _ h'])
next
  case (Some iq)
  obtain i q where iq: "iq = (i, q)" by (cases iq)
  have "(l, i, q) \<in> set (logins h)"
    using Some by (auto simp: iq account_def dest: map_of_SomeD)
  then have "1 \<le> sint i"
    using assms(7) by (fastforce simp: ids_ok_def)
  then have "i \<noteq> -1" by auto
  with do_registration_taken [OF assms(1) _ _ assms(3,4) Some [unfolded iq] _ assms(9)] assms(2,3,7)
  show ?thesis by simp
qed

theorem registration_keeps_ids_distinct_witness:
  "\<exists>s' h' db'. do_registration std_rt mini_engine 0 (create_reg_request ''bob'' ''x'')
      ((demo_server [(''ann'', 1, ''pw'')] [])\<lparr>next_id := 1\<rparr>) = Inr s' \<and>
    open_db s' h' db' \<and> ids_ok (fst h') (next_id s')"
proof -
  have "open_db ((demo_server [(''ann'', 1, ''pw'')] [])\<lparr>next_id := 1\<rparr>) ([(''ann'', 1, ''pw'')], [])
      (mini_db [(''ann'', 1, ''pw'')] [])"
    by (simp add: demo_server_def Server_ctor_def mini_db_def)
  from registration_keeps_ids_distinct [OF mini.sqlite_laws_axioms, OF this, of "''bob''" "''x''" std_rt 0]
  show ?thesis
    by (auto simp: accounts_ok_def ids_ok_def)
qed

text \<open>The counter starts at 0 with every run while the accounts stay in the database: the first
  registration after a restart gives out identifier 1 again, which then belongs to two accounts.\<close>

theorem restart_reuses_identifier:
  assumes "sqlite_laws eng logins history intact" and "db_ptr db = Some h" and "accounts_ok (logins h)"
    and "account (logins h) old = Some (1, q)" and "account (logins h) l = None"
    and "plain l" and "plain pw" and "pw \<noteq> []" and "intact h"
  shows "\<exists>s' h' db'. do_registration rt eng p (create_reg_request l pw) (Server_ctor (Some db)) = Inr s' \<and>
    open_db s' h' db' \<and> account (logins h') old = Some (1, q) \<and> account (logins h') l = Some (1, pw)"
proof -
  let ?s0 = "on_conn p (\<lambda>c. c\<lparr>cn_login := l, cn_password := pw\<rparr>) (Server_ctor (Some db))"
  have id0: "next_id ?s0 = 0" "database ?s0 = Some db"
    by (simp_all add: Server_ctor_def)
  obtain h' where h': "register_login eng l pw ?s0 = Inr (1,
      ?s0\<lparr>next_id := 1, database := Some (db\<lparr>db_ptr := Some h'\<rparr>)\<rparr>)"
    "logins h' = logins h @ [(l, 1, pw)]"
    using register_login_new [OF assms(1), of ?s0 db h l pw] assms(2-9) id0 by auto
  then show ?thesis
    using assms(4,5) by (auto simp: do_registration_def account_snoc intro!: exI [of _ h'])
qed

theorem restart_reuses_identifier_witness:
  "\<exists>s' h' db'. do_registration std_rt mini_engine 0 (create_reg_request ''bob'' ''x'')
      (Server_ctor (Some (mini_db [(''ann'', 1, ''pw'')] []))) = Inr s' \<and>
    open_db s' h' db' \<and> account (fst h') ''ann'' = Some (1, ''pw'') \<and> account (fst h') ''bob'' = Some (1, ''x'')"
proof -
  have "db_ptr (mini_db [(''ann'', 1, ''pw'')] []) = Some ([(''ann'', 1, ''pw'')], [])"
    by (simp add: mini_db_def)
  from restart_reuses_identifier [OF mini.sqlite_laws_axioms, OF this, of "''ann''" "''pw''" "''bob''" "''x''" std_rt 0]
  show ?thesis
    by (simp add: accounts_ok_def account_def)
qed

text \<open>C37: the registration of a login that ends in a quote, with a password of letters and digits:
  both of its statements end inside a literal and do not compile, so the lookup takes the login for
  a new one, the insert fails, and the error message of the failed call is freed twice.\<close>

theorem quoted_registration_double_free:
  assumes "sqlite_syntax eng logins history intact" and "open_db s h db" and "intact h"
    and "plain l" and "plain pw" and "list_all bare pw"
  shows "get_loginid eng (l @ quote) db = -1 \<and> add_logins eng (l @ quote) (next_id s + 1) pw db = Inl DoubleFree \<and>
    do_registration rt eng p (create_reg_request (l @ quote) pw) s = Inl DoubleFree"
proof -
  have db: "database s = Some db" "db_ptr db = Some h"
    using assms(2) by simp_all
  note refused = sqlite_syntax.quoted_login_refused [OF assms(1) db(2) assms(3-6)]
  then show ?thesis
    using db(1) by (simp add: do_registration_def register_login_def generate_client_id_def Let_def)
qed

theorem quoted_registration_double_free_witness:
  "do_registration std_rt mini_engine 0 (create_reg_request (''ann'' @ quote) ''pw1'') (demo_server [] []) =
    Inl DoubleFree"
  using quoted_registration_double_free [OF mini_syntax.sqlite_syntax_axioms, OF demo_open, where l = "''ann''" and pw = "''pw1''"]
  by (simp add: bare_def)

end
