(* ===== verification/Delivery.thy ===== *)
theory Delivery
  imports ServerProps
begin

text \<open>
  Rooms at the level of the server: what a message, a join and a disconnect put into the outgoing
  queues of the connections and do to the membership, and where the membership goes wrong.
\<close>

lemma conn_data_frame [simp]:
  "subscriber_laws.data_frame (text_frame rt) d = text_frame rt (td_login d) (td_text d) (td_room_id d)"
  by (simp add: conn.data_frame_def)

lemma conn_sub_simps [simp]:
  "sub_client_id (connection_subscriber rt) w p = cn_client_id (w p)"
  "sub_login (connection_subscriber rt) w p = cn_login (w p)"
  "sub_set_channel (connection_subscriber rt) p r w = w(p := (w p)\<lparr>cn_room_id := r\<rparr>)"
  by (simp_all add: connection_subscriber_def)

text \<open>The frames of a room's notices.\<close>

definition join_notice :: "pb_rt \<Rightarrow> string \<Rightarrow> int32 \<Rightarrow> bytes" where
  "join_notice rt login room = text_frame rt login (join_message login room) room"

definition leave_notice :: "pb_rt \<Rightarrow> string \<Rightarrow> int32 \<Rightarrow> bytes" where
  "leave_notice rt login room = text_frame rt login (leave_message login room) room"

definition message_frame :: "pb_rt \<Rightarrow> TextSendData \<Rightarrow> bytes" where
  "message_frame rt d = text_frame rt (td_login d) (td_text d) (td_room_id d)"

definition copies :: "'h server \<Rightarrow> int32 \<Rightarrow> nat \<Rightarrow> nat" where
  "copies s room q = count_list (map snd (room_subscribers (manager s) room)) q"

lemma do_text_msg_delivers:
  assumes "sqlite_laws eng logins history intact" and "boost_format fmt02" and "open_db s h db"
    and "plain l" and "plain t" and "intact h"
  shows "\<exists>s' h'. do_text_msg rt eng fmt02 p (create_text_request l r t) s = Inr s' \<and>
    (\<forall>q. frames_to (conns s') q = frames_to (conns s) q @ replicate (copies s r q) (text_frame rt l t r)) \<and>
    room_history (manager s') r = room_history (manager s) r @
      (if map_of (channels (manager s)) r \<noteq> None
       then [\<lparr>td_room_id = r, td_login = l, td_text = t\<rparr>] else []) \<and>
    database s' = Some (db\<lparr>db_ptr := Some h'\<rparr>) \<and> history h' = history h @ [(l, r, t)] \<and>
    logins h' = logins h \<and> intact h'"
proof -
  let ?d = "\<lparr>td_room_id = r, td_login = l, td_text = t\<rparr>"
  let ?r = "Manager_send_to_channel (connection_subscriber rt) ?d (manager s, conns s)"
  obtain h' where h': "save_text_msg eng fmt02 ?d db = db\<lparr>db_ptr := Some h'\<rparr>"
    "history h' = history h @ [(l, r, t)]" "logins h' = logins h" "intact h'"
    using sqlite_laws.save_text_msg_open [OF assms(1) _ assms(6,4,5)
        boost_format.history_stamp_value [OF assms(2)], of db r] assms(3) by auto
  have "do_text_msg rt eng fmt02 p (create_text_request l r t) s =
      Inr (s\<lparr>manager := fst ?r, conns := snd ?r, database := Some (db\<lparr>db_ptr := Some h'\<rparr>)\<rparr>)"
    using assms(3) h'(1)
    by (simp add: do_text_msg_def deliver_and_save_def text_data_def split_beta Let_def)
  then show ?thesis
    using h'(2-4) conn.send_history_inbox(1) [of rt ?d "manager s" "conns s" r]
      conn.send_history_inbox(2) [of rt ?d "manager s" "conns s"]
    by (intro exI [of _ "s\<lparr>manager := fst ?r, conns := snd ?r, database := Some (db\<lparr>db_ptr := Some h'\<rparr>)\<rparr>"]
        exI [of _ h']) (simp add: copies_def)
qed

text \<open>C23: a text message puts one frame with the sender's words into the outgoing queue of every
  connection for each of its subscriptions to the room, in no other queue, whatever the order of the
  map; it is appended to the room's history and saved in the database. The sender need not be a
  subscriber, nor logged in: the handler reads nothing of its connection. Login and text need no
  escaping in SQL and the database file is intact.\<close>

theorem text_message_delivery:
  assumes "sqlite_laws eng logins history intact" and "boost_format fmt02" and "open_db s h db"
    and "plain l" and "plain t" and "intact h"
  shows "\<exists>s' h'. do_text_msg rt eng fmt02 p (create_text_request l r t) s = Inr s' \<and>
    (\<forall>q. frames_to (conns s') q = frames_to (conns s) q @ replicate (copies s r q) (text_frame rt l t r)) \<and>
    room_history (manager s') r = room_history (manager s) r @
      (if map_of (channels (manager s)) r \<noteq> None
       then [\<lparr>td_room_id = r, td_login = l, td_text = t\<rparr>] else []) \<and>
    database s' = Some (db\<lparr>db_ptr := Some h'\<rparr>) \<and> history h' = history h @ [(l, r, t)]"
  using do_text_msg_delivers [OF assms] by blast

text \<open>A room 7 with the client 1 of connection 0 in it.\<close>

definition demo_room :: "mini server" where
  "demo_room = (demo_server [(''ann'', 1, ''pw'')] [])
     \<lparr>pool := [0, 1],
      conns := (\<lambda>p. if p = 0 then (Connection_ctor 1 [])\<lparr>cn_login := ''ann'', cn_room_id := 7\<rparr>
        else Connection_ctor (-1) []),
      manager := \<lparr>channels = [(7, \<lparr>subscribers = [(1, 0)], channel_id = 7, history_room = []\<rparr>)],
        client_in_rooms = [(1, [7])], clientid_to_login = [(1, ''ann'')]\<rparr>\<rparr>"

lemma demo_room_open: "open_db demo_room ([(''ann'', 1, ''pw'')], []) (mini_db [(''ann'', 1, ''pw'')] [])"
  by (simp add: demo_room_def demo_server_def Server_ctor_def mini_db_def)

lemma demo_room_manager:
  "manager_ok (manager demo_room)" "subscribed (manager demo_room) 7 1 = Some 0"
  by (simp_all add: demo_room_def manager_ok_def channels_ok_def subscribed_def rooms_of_def um_ok_def)

lemma demo_room_conns: "cn_client_id (conns demo_room 0) = 1" "cn_client_id (conns demo_room 1) = -1"
  "cn_login (conns demo_room 0) = ''ann''"
  by (simp_all add: demo_room_def Connection_ctor_def)

theorem text_message_delivery_witness:
  "\<exists>s'. do_text_msg std_rt mini_engine std_fmt02 1 (create_text_request ''eve'' 7 ''hi'') demo_room = Inr s' \<and>
    frames_to (conns s') 0 = frames_to (conns demo_room) 0 @ [text_frame std_rt ''eve'' ''hi'' 7] \<and>
    frames_to (conns s') 1 = frames_to (conns demo_room) 1"
proof -
  have "copies demo_room 7 0 = 1" "copies demo_room 7 1 = 0"
    by (simp_all add: copies_def room_subscribers_def demo_room_def)
  then show ?thesis
    using text_message_delivery [OF mini.sqlite_laws_axioms std_format.boost_format_axioms,
        OF demo_room_open, of "''eve''" "''hi''" std_rt 1 7]
    by fastforce
qed

section \<open>Joining\<close>

lemma join_channel_eq:
  assumes "Manager_join (connection_subscriber rt) eng p r (database s) (manager s, conns s) =
    Inr (flag, db, m, w)"
  shows "do_join_room rt eng p (join_room_request r) s =
    Inr (post (SendJoinRoomResponse p r True) (s\<lparr>database := db, manager := m, conns := w\<rparr>))"
  using assms conn.join_result [OF assms] by (auto simp: do_join_room_def join_channel_def)

text \<open>A client that joins an existing room gets the whole history of the room in its order and
  then, like every other subscriber, the notice that it joined; it is subscribed under its
  identifier, its connection remembers the room, and a positive response is posted.\<close>

theorem join_existing_room:
  assumes "manager_ok (manager s)" and "map_of (channels (manager s)) r = Some ch"
    and "map_of (subscribers ch) (cn_client_id (conns s p)) = None"
  shows "\<exists>s'. do_join_room rt eng p (join_room_request r) s = Inr s' \<and>
    (\<forall>q. frames_to (conns s') q = frames_to (conns s) q @
      (if q = p then map (message_frame rt) (history_room ch) else []) @
      replicate (copies s r q + (if q = p then 1 else 0)) (join_notice rt (cn_login (conns s p)) r)) \<and>
    subscribed (manager s') r (cn_client_id (conns s p)) = Some p \<and>
    cn_room_id (conns s' p) = r \<and> tasks s' = tasks s @ [SendJoinRoomResponse p r True]"
proof -
  let ?sub = "connection_subscriber rt"
  obtain flag db m w where j: "Manager_join ?sub eng p r (database s) (manager s, conns s) = Inr (flag, db, m, w)"
    using assms(2) by (simp add: Manager_join_def Let_def split_beta)
  note mem = conn.join_membership [OF assms(1) j]
  have id: "channel_id ch = r"
    using channels_okD(2) [OF manager_okD(1) [OF assms(1)] assms(2)] .
  have subs: "map snd (um_try_emplace (cn_client_id (conns s p)) p (subscribers ch)) =
      map snd (room_subscribers (manager s) r) @ [p]"
    using assms(2,3) by (simp add: um_try_emplace_def room_subscribers_def)
  have frames: "frames_to w q = frames_to (conns s) q @
      (if q = p then map (message_frame rt) (history_room ch) else []) @
      replicate (copies s r q + (if q = p then 1 else 0)) (join_notice rt (cn_login (conns s p)) r)" for q
    using conn.join_inbox [OF j assms(2) id, of q]
    by (simp add: subs copies_def join_notice_def notice_def message_frame_def [abs_def] replicate_add
        comp_def conn.data_frame_def [abs_def])
  have "cn_room_id (w p) = r"
    using conn.join_result [OF j] by auto
  moreover have "subscribed m r (cn_client_id (conns s p)) = Some p"
    using assms(2,3) unfolding mem(2) by (simp add: subscribed_def)
  ultimately show ?thesis
    using join_channel_eq [OF j] frames by auto
qed

theorem join_existing_room_witness:
  "\<exists>s'. do_join_room std_rt mini_engine 1 (join_room_request 7) demo_room = Inr s' \<and>
    subscribed (manager s') 7 (-1) = Some 1"
  using join_existing_room [OF demo_room_manager(1), of 7
      "\<lparr>subscribers = [(1, 0)], channel_id = 7, history_room = []\<rparr>" 1 std_rt mini_engine]
  by (fastforce simp: demo_room_conns demo_room_def Connection_ctor_def)

lemma join_opens_room:
  assumes "sqlite_laws eng logins history intact" and "open_db s h db" and "intact h"
    and "history_ok (history h)" and "map_of (channels (manager s)) r = None"
  shows "\<exists>s' ms. do_join_room rt eng p (join_room_request r) s = Inr s' \<and>
    mset ms = mset (map message_of (filter (\<lambda>e. fst (snd e) = r) (history h))) \<and>
    frames_to (conns s') p = frames_to (conns s) p @ map (message_frame rt) ms @
      [join_notice rt (cn_login (conns s p)) r] \<and>
    (\<forall>q. q \<noteq> p \<longrightarrow> frames_to (conns s') q = frames_to (conns s) q)"
proof -
  let ?sub = "connection_subscriber rt"
  obtain ms where ms: "get_history eng r db = Inr (ms, db)"
    "mset ms = mset (map message_of (filter (\<lambda>e. fst (snd e) = r) (history h)))"
    using sqlite_laws.get_history_open [OF assms(1) _ assms(3,4)] assms(2) by blast
  let ?ch = "\<lparr>subscribers = [], channel_id = r, history_room = ms\<rparr> :: nat channel"
  have ctor: "Channel_ctor eng r (database s) = Inr (?ch, Some db)"
    using assms(2) ms(1) by (simp add: Channel_ctor_def)
  obtain flag db' m w where j: "Manager_join ?sub eng p r (database s) (manager s, conns s) = Inr (flag, db', m, w)"
    using assms(5) ctor by (simp add: Manager_join_def Let_def split_beta)
  have w: "w = sub_set_channel ?sub p r (snd (Channel_join ?sub p (?ch, conns s)))"
    using conn.join_result [OF j] assms(5) ctor by auto
  have "frames_to w q = frames_to (conns s) q @ (if q = p then map (message_frame rt) ms else []) @
      replicate (if q = p then 1 else 0) (join_notice rt (cn_login (conns s p)) r)" for q
    unfolding w conn.inbox_channel conn.join_simps(4)
    by (simp add: um_try_emplace_def join_notice_def notice_def message_frame_def [abs_def]
        comp_def conn.data_frame_def [abs_def])
  then show ?thesis
    using join_channel_eq [OF j] ms(2) by auto
qed

text \<open>The first client in a room, after a restart in particular, gets the messages that the
  database holds for the room, all of them and only them, followed by the notice.\<close>

theorem join_new_room_loads_history:
  assumes "sqlite_laws eng logins history intact" and "open_db s h db" and "intact h"
    and "history_ok (history h)" and "map_of (channels (manager s)) r = None"
  shows "\<exists>s' ms. do_join_room rt eng p (join_room_request r) s = Inr s' \<and>
    mset ms = mset (map message_of (filter (\<lambda>e. fst (snd e) = r) (history h))) \<and>
    frames_to (conns s') p = frames_to (conns s) p @ map (message_frame rt) ms @
      [join_notice rt (cn_login (conns s p)) r] \<and>
    (\<forall>q. q \<noteq> p \<longrightarrow> frames_to (conns s') q = frames_to (conns s) q)"
  using assms by (rule join_opens_room)

theorem join_new_room_loads_history_witness:
  "\<exists>s' ms. do_join_room std_rt mini_engine 0 (join_room_request 7) (demo_server [] [(''bob'', 7, ''yo'')]) = Inr s' \<and>
    mset ms = {#\<lparr>td_room_id = 7, td_login = ''bob'', td_text = ''yo''\<rparr>#} \<and>
    frames_to (conns s') 0 = frames_to (conns (demo_server [] [(''bob'', 7, ''yo'')])) 0 @
      map (message_frame std_rt) ms @ [join_notice std_rt [] 7]"
proof -
  have ok: "history_ok (snd ([] :: entry list, [(''bob'', 7 :: int32, ''yo'')]))"
    by (simp add: history_ok_def)
  have none: "map_of (channels (manager (demo_server [] [(''bob'', 7, ''yo'')]))) 7 = None"
    "cn_login (conns (demo_server [] [(''bob'', 7, ''yo'')]) 0) = []"
    by (simp_all add: demo_server_def Server_ctor_def Manager_ctor_def Connection_ctor_def)
  show ?thesis
    using join_new_room_loads_history [OF mini.sqlite_laws_axioms, OF demo_open, OF TrueI ok none(1), of std_rt 0]
    by (fastforce simp: message_of_def none(2))
qed

section \<open>Leaving\<close>

lemma free_connection_effect:
  assumes "manager_ok (manager s)"
  shows "subscribed (manager (free_connection rt p s)) room c =
      (if c = cn_client_id (conns s p) then None else subscribed (manager s) room c) \<and>
    rooms_of (manager (free_connection rt p s)) (cn_client_id (conns s p)) = {} \<and>
    cn_client_id (conns (free_connection rt p s) q) = (if q = p then -1 else cn_client_id (conns s q)) \<and>
    \<not> cn_open (conns (free_connection rt p s) p) \<and> \<not> cn_busy (conns (free_connection rt p s) p)"
proof -
  let ?r = "Manager_leave_from_all_channels (connection_subscriber rt) (cn_client_id (conns s p))
    (manager s, conns s)"
  have ids: "cn_client_id (snd ?r q) = cn_client_id (conns s q)" for q
    using fun_cong [OF conn.leave_all_ids(1)] by (metis conn_sub_simps(1))
  show ?thesis
    by (simp add: free_connection_def split_beta Let_def close_and_reset_def ids
        conn.leave_all_membership [OF assms])
qed

text \<open>C24: freeing a connection ends every subscription under its identifier and no other, forgets
  the rooms of the identifier, and leaves a closed, idle connection without one.\<close>

theorem free_connection_leaves:
  assumes "manager_ok (manager s)"
  shows "subscribed (manager (free_connection rt p s)) room c =
      (if c = cn_client_id (conns s p) then None else subscribed (manager s) room c) \<and>
    rooms_of (manager (free_connection rt p s)) (cn_client_id (conns s p)) = {} \<and>
    cn_client_id (conns (free_connection rt p s) q) = (if q = p then -1 else cn_client_id (conns s q)) \<and>
    \<not> cn_open (conns (free_connection rt p s) p) \<and> \<not> cn_busy (conns (free_connection rt p s) p)"
  using assms by (rule free_connection_effect)

theorem free_connection_leaves_witness:
  "subscribed (manager demo_room) 7 1 = Some 0 \<and>
   subscribed (manager (free_connection std_rt 0 demo_room)) 7 1 = None"
  using free_connection_leaves [OF demo_room_manager(1), of std_rt 0 7 1 0]
  by (simp add: demo_room_manager demo_room_conns)

text \<open>A client that joined a room and then logs in with another result leaves its old
  subscription behind when it disconnects: the room goes on sending to a closed connection.\<close>

theorem relogin_keeps_old_subscription:
  assumes "manager_ok (manager s)" and "subscribed (manager s) room (cn_client_id (conns s p)) = Some p"
    and "do_autorisation rt eng p (create_input_request l pw) s = Inr s1"
    and "cn_client_id (conns s1 p) \<noteq> cn_client_id (conns s p)"
  shows "subscribed (manager (free_connection rt p s1)) room (cn_client_id (conns s p)) = Some p \<and>
    \<not> cn_open (conns (free_connection rt p s1) p)"
proof -
  have "manager s1 = manager s"
    using assms(3) by (auto simp: do_autorisation_def Let_def split: option.splits)
  then show ?thesis
    using free_connection_effect [of s1 rt p room "cn_client_id (conns s p)" p] assms by simp
qed

theorem relogin_keeps_old_subscription_witness:
  "\<exists>s1. do_autorisation std_rt mini_engine 0 (create_input_request ''bob'' ''x'') demo_room = Inr s1 \<and>
    subscribed (manager (free_connection std_rt 0 s1)) 7 1 = Some 0 \<and>
    \<not> cn_open (conns (free_connection std_rt 0 s1) 0)"
proof -
  have "accounts_ok (fst ([(''ann'', 1 :: int32, ''pw'')], [] :: entry list))"
    by (simp add: accounts_ok_def)
  then obtain s1 where s1: "do_autorisation std_rt mini_engine 0 (create_input_request ''bob'' ''x'') demo_room =
      Inr s1" "cn_client_id (conns s1 0) = -1"
    using mini.check_client_open [of "mini_db [(''ann'', 1, ''pw'')] []" "([(''ann'', 1, ''pw'')], [])" "''bob''" "''x''"]
      demo_room_open
    by (auto simp: do_autorisation_def account_def)
  then show ?thesis
    using relogin_keeps_old_subscription [OF demo_room_manager(1), of 7 0 std_rt mini_engine "''bob''" "''x''" s1]
    by (simp add: demo_room_manager demo_room_conns)
qed

text \<open>Clients whose login failed share the identifier -1: once one of them joined a room,
  another one that joins is not subscribed, although it is told that it joined, and when it
  disconnects it takes away the first one's subscription.\<close>

theorem failed_logins_share_identifier:
  assumes "manager_ok (manager s)" and "cn_client_id (conns s p) = -1" and "cn_client_id (conns s q) = -1"
    and "p \<noteq> q" and "subscribed (manager s) room (-1) = Some p"
  shows "\<exists>s1. do_join_room rt eng q (join_room_request room) s = Inr s1 \<and>
    tasks s1 = tasks s @ [SendJoinRoomResponse q room True] \<and>
    subscribed (manager s1) room (-1) = Some p \<and>
    subscribed (manager (free_connection rt q s1)) room (-1) = None"
proof -
  let ?sub = "connection_subscriber rt"
  obtain ch where ch: "map_of (channels (manager s)) room = Some ch"
    using assms(5) by (auto simp: subscribed_def split: option.splits)
  then obtain flag db m w where
    j: "Manager_join ?sub eng q room (database s) (manager s, conns s) = Inr (flag, db, m, w)"
    by (simp add: Manager_join_def Let_def split_beta)
  note mem = conn.join_membership [OF assms(1) j]
  let ?s1 = "post (SendJoinRoomResponse q room True) (s\<lparr>database := db, manager := m, conns := w\<rparr>)"
  have "cn_client_id (w q) = -1"
    using conn.join_ids(1) [OF j] assms(3) by (metis conn_sub_simps(1))
  then have "subscribed (manager (free_connection rt q ?s1)) room (-1) = None"
    using free_connection_effect [of ?s1 rt q room "-1" q] mem(1) by simp
  moreover have "subscribed m room (-1) = Some p"
    using assms(5) unfolding mem(2) by simp
  ultimately show ?thesis
    using join_channel_eq [OF j] by simp
qed

theorem failed_logins_share_identifier_witness:
  "\<exists>s0 s1. do_join_room std_rt mini_engine 0 (join_room_request 7) ((demo_server [] [])\<lparr>conns := (\<lambda>p. Connection_ctor (-1) [])\<rparr>) =
      Inr s0 \<and>
    do_join_room std_rt mini_engine 1 (join_room_request 7) s0 = Inr s1 \<and>
    subscribed (manager s1) 7 (-1) = Some 0"
proof -
  let ?s = "(demo_server [] [])\<lparr>conns := (\<lambda>p. Connection_ctor (-1) [])\<rparr>"
  have ok: "manager_ok (manager ?s)" and none: "map_of (channels (manager ?s)) 7 = None"
    "subscribed (manager ?s) 7 (-1) = None"
    by (simp_all add: demo_server_def Server_ctor_def Manager_ctor_def manager_ok_ctor [unfolded Manager_ctor_def]
        subscribed_def)
  have "\<exists>ms. get_history mini_engine 7 (mini_db [] []) = Inr (ms, mini_db [] [])"
    using mini.get_history_open [of "mini_db [] []" "([], [])" 7] by (auto simp: mini_db_def history_ok_def)
  then obtain ms where "get_history mini_engine 7 (mini_db [] []) = Inr (ms, mini_db [] [])" ..
  then have "\<exists>r. Manager_join (connection_subscriber std_rt) mini_engine 0 7 (database ?s) (manager ?s, conns ?s) = Inr r"
    using none(1) by (auto simp: Manager_join_def Let_def split_beta Channel_ctor_def demo_server_def Server_ctor_def)
  then obtain flag db m w where
    j: "Manager_join (connection_subscriber std_rt) mini_engine 0 7 (database ?s) (manager ?s, conns ?s) = Inr (flag, db, m, w)"
    by (metis prod_cases4)
  let ?s0 = "post (SendJoinRoomResponse 0 7 True) (?s\<lparr>database := db, manager := m, conns := w\<rparr>)"
  have ids: "cn_client_id (w p) = -1" for p
    using conn.join_ids(1) [OF j] by (metis Connection_ctor_def conn_sub_simps(1) connection.select_convs(1)
        server.select_convs(1) server.surjective server.update_convs(1))
  have "subscribed m 7 (-1) = Some 0"
    using conn.join_membership(2) [OF ok j, of 7 "-1"] none(2) by (simp add: Connection_ctor_def)
  then show ?thesis
    using join_channel_eq [OF j] conn.join_membership(1) [OF ok j] ids
      failed_logins_share_identifier [of ?s0 0 1 7 std_rt mini_engine]
    by auto
qed

section \<open>Leaving one room, and the end of a channel\<close>

text \<open>\<open>ChannelsManager::leave\<close> leaves one room but forgets all: what is left of the client's
  subscriptions survives its disconnection.\<close>

theorem leave_forgets_other_rooms:
  assumes "subscriber_laws sub inbox frame" and "manager_ok m"
    and "subscribed m left c = Some p" and "subscribed m kept c = Some q" and "left \<noteq> kept"
  shows "subscribed (fst (Manager_leave_from_all_channels sub c (Manager_leave sub c left (m, w)))) kept c = Some q"
proof -
  note laws = assms(1)
  let ?r = "Manager_leave sub c left (m, w)"
  have known: "map_of (client_in_rooms m) c \<noteq> None" "map_of (channels m) left \<noteq> None"
    using manager_okD(4) [OF assms(2,3)] assms(3)
    by (auto simp: rooms_of_def subscribed_def split: option.splits)
  have mem: "subscribed (fst ?r) kept c = Some q" "rooms_of (fst ?r) c = {}"
    using subscriber_laws.leave_membership [OF laws known] assms(4,5) by auto
  then have "(case map_of (client_in_rooms (fst ?r)) c of None \<Rightarrow> [] | Some rs \<Rightarrow> rs) = []"
    by (cases "map_of (client_in_rooms (fst ?r)) c") (simp_all add: rooms_of_def)
  then have "channels (fst (Manager_leave_from_all_channels sub c ?r)) = channels (fst ?r)"
    using subscriber_laws.leave_all_fields(1) [OF laws, of c "fst ?r" "snd ?r"] by simp
  then show ?thesis
    using mem(1) by (simp add: subscribed_def)
qed

theorem leave_forgets_other_rooms_witness:
  "\<exists>m :: nat channels_manager. \<exists>w. subscribed
    (fst (Manager_leave_from_all_channels (connection_subscriber std_rt) 1
      (Manager_leave (connection_subscriber std_rt) 1 7 (m, w)))) 8 1 = Some 0"
proof -
  let ?ch = "\<lambda>r :: int32. \<lparr>subscribers = [(1 :: int32, 0 :: nat)], channel_id = r, history_room = []\<rparr>"
  let ?m = "\<lparr>channels = [(7, ?ch 7), (8, ?ch 8)], client_in_rooms = [(1, [7, 8])],
    clientid_to_login = [(1, ''ann'')]\<rparr>"
  have "manager_ok ?m" "subscribed ?m 7 1 = Some 0" "subscribed ?m 8 1 = Some 0"
    by (simp_all add: manager_ok_def channels_ok_def subscribed_def rooms_of_def um_ok_def)
  from leave_forgets_other_rooms [OF conn.subscriber_laws_axioms, OF this] show ?thesis by auto
qed

text \<open>The destructor of a channel that still has a subscriber under its current identifier
  advances an iterator whose element it has erased, whichever subscriber the map lists first.\<close>

theorem channel_destructor_invalid_iterator:
  assumes "subscriber_laws sub inbox frame" and "subscribers ch \<noteq> []"
    and "list_all (\<lambda>(k, p). sub_client_id sub w p = k) (subscribers ch)"
  shows "Channel_dtor sub (ch, w) = Inl UseAfterErase"
  using assms(2,3)
  by (cases "subscribers ch") (auto intro: subscriber_laws.dtor_fails [OF assms(1)])

theorem channel_destructor_invalid_iterator_witness:
  "Channel_dtor (connection_subscriber std_rt)
     (\<lparr>subscribers = [(1, 0)], channel_id = 7, history_room = []\<rparr>, conns demo_room) = Inl UseAfterErase"
  using channel_destructor_invalid_iterator [OF conn.subscriber_laws_axioms, of
      "\<lparr>subscribers = [(1, 0)], channel_id = 7, history_room = []\<rparr>" std_rt "conns demo_room"]
  by (simp add: demo_room_conns)

end
