(* ===== verification/ChatRefinement.thy ===== *)
theory ChatRefinement
  imports ChatSpec Delivery
begin

text \<open>
  The server implements the chat service of \<open>ChatSpec\<close>: the abstraction \<open>chat_of\<close> keeps of a server
  the identities, the logins, the membership, the histories of the rooms and what went into the
  outgoing queues, and every step of the server is a step of the service. The first section proves
  the operations of the registry of rooms against the service for every subscriber interface, the
  second the steps of the server.
\<close>

section \<open>The registry of rooms\<close>

lemma count_list_members:
  "um_ok subs \<Longrightarrow> count_list (map snd subs) q = card {c. map_of subs c = Some q}"
proof (induction subs)
  case (Cons e subs)
  obtain k p where e: "e = (k, p)" by (cases e)
  have k: "map_of subs k = None" and ok: "um_ok subs"
    using Cons.prems by (auto simp: um_ok_def e map_of_eq_None_iff)
  have "{c. map_of (e # subs) c = Some q} =
      (if p = q then insert k {c. map_of subs c = Some q} else {c. map_of subs c = Some q})"
    using k by (auto simp: e)
  moreover have "finite {c. map_of subs c = Some q}"
    by (rule finite_subset [of _ "dom (map_of subs)"]) (auto simp: finite_dom_map_of)
  ultimately show ?case
    using Cons.IH [OF ok] k by (simp add: e)
qed simp

definition joined :: "string \<Rightarrow> int32 \<Rightarrow> TextSendData" where
  "joined login room = notice room login (join_message login room)"

definition left :: "string \<Rightarrow> int32 \<Rightarrow> TextSendData" where
  "left login room = notice room login (leave_message login room)"

context subscriber_laws
begin

definition view :: "'p channels_manager \<times> 'w \<Rightarrow> ('p, TextSendData, 'f) chat" where
  "view s = \<lparr>ident = sub_client_id sub (snd s), nick = sub_login sub (snd s),
     members = subscribed (fst s), said = (\<lambda>r. map_option history_room (map_of (channels (fst s)) r)),
     handed = inbox (snd s)\<rparr>"

lemma view_simps [simp]:
  "ident (view s) = sub_client_id sub (snd s)" "nick (view s) = sub_login sub (snd s)"
  "members (view s) = subscribed (fst s)" "handed (view s) = inbox (snd s)"
  "said (view s) r = map_option history_room (map_of (channels (fst s)) r)"
  by (simp_all add: view_def)

lemma view_eqI:
  assumes "\<And>p. sub_client_id sub (snd s) p = ident a p" and "\<And>p. sub_login sub (snd s) p = nick a p"
    and "\<And>r c. subscribed (fst s) r c = members a r c"
    and "\<And>r. map_option history_room (map_of (channels (fst s)) r) = said a r"
    and "\<And>p. inbox (snd s) p = handed a p"
  shows "view s = a"
  using assms by (intro chat.equality) (auto simp: fun_eq_iff)

lemma presence_view:
  assumes "channels_ok (fst s)"
  shows "presence (view s) r q = count_list (map snd (room_subscribers (fst s) r)) q"
  using channels_okD(3) [OF assms, of r]
  by (auto simp: presence_def subscribed_def room_subscribers_def count_list_members split: option.split)

lemma view_notify:
  assumes "channels_ok m" and "map_of (channels m) r = Some ch"
  shows "view (m\<lparr>channels := AList.update r (fst (Channel_notification sub d (ch, w))) (channels m)\<rparr>,
      snd (Channel_notification sub d (ch, w))) = speak data_frame r d (view (m, w))"
proof -
  have "presence (view (m, w)) r q = count_list (map snd (subscribers ch)) q" for q
    using presence_view [of "(m, w)" r q] assms by (simp add: room_subscribers_def)
  then show ?thesis
    using assms(2)
    by (intro view_eqI) (auto simp: notification_simps subscribed_def um_simps split: option.splits)
qed

lemma view_send:
  assumes "channels_ok m"
  shows "view (Manager_send_to_channel sub d (m, w)) = speak data_frame (td_room_id d) d (view (m, w))"
proof (cases "map_of (channels m) (td_room_id d)")
  case None
  then have "presence (view (m, w)) (td_room_id d) q = 0" for q
    by (simp add: presence_def subscribed_def)
  then show ?thesis
    using None by (intro view_eqI) (auto simp: Manager_send_to_channel_def)
next
  case (Some ch)
  then show ?thesis
    using view_notify [OF assms Some, of d w] by (simp add: Manager_send_to_channel_def split_beta Let_def)
qed

lemma view_leave_room:
  assumes "channels_ok (fst s)"
  shows "view (leave_room sub c r s) = quit data_frame left c r (view s)"
proof (cases "map_of (channels (fst s)) r")
  case None
  then show ?thesis
    by (cases s) (simp add: leave_room_def quit_def subscribed_def)
next
  case (Some ch)
  obtain m w where s: "s = (m, w)" by (cases s)
  note ch = Some [unfolded s fst_conv]
  show ?thesis
  proof (cases "map_of (subscribers ch) c")
    case None
    then have "leave_room sub c r s = (m\<lparr>channels := AList.update r ch (channels m)\<rparr>, w)"
      using ch by (simp add: leave_room_def s leave_id_absent)
    then have "view (leave_room sub c r s) = view s"
      using ch by (intro view_eqI) (auto simp: s subscribed_def um_simps split: option.splits)
    moreover have "quit data_frame left c r (view s) = view s"
      using ch None by (simp add: quit_def s subscribed_def)
    ultimately show ?thesis by simp
  next
    case (Some p)
    have id: "channel_id ch = r"
      using channels_okD(2) [OF assms] ch by (simp add: s)
    let ?d = "left (sub_login sub w p) r"
    let ?n = "Channel_notification sub ?d (ch, w)"
    have "leave_room sub c r s = (m\<lparr>channels := AList.update r
        ((fst ?n)\<lparr>subscribers := AList.delete c (subscribers (fst ?n))\<rparr>) (channels m)\<rparr>, snd ?n)"
      using ch Some by (simp add: leave_room_def s Channel_leave_id_def left_def id split_beta Let_def)
    moreover have "quit data_frame left c r (view s) =
        (let a = speak data_frame r ?d (view (m, w)) in a\<lparr>members := (members a)(r := (members a r)(c := None))\<rparr>)"
      using ch Some by (simp add: quit_def s subscribed_def)
    moreover have "speak data_frame r ?d (view (m, w)) =
        view (m\<lparr>channels := AList.update r (fst ?n) (channels m)\<rparr>, snd ?n)"
      using view_notify [of m r ch ?d w] assms ch by (simp add: s)
    ultimately show ?thesis
      by (intro view_eqI) (auto simp: Let_def subscribed_def um_simps split: option.splits)
  qed
qed

lemma view_leave_rooms:
  "channels_ok (fst s) \<Longrightarrow> view (fold (leave_room sub c) rs s) = fold (quit data_frame left c) rs (view s)"
  by (induction rs arbitrary: s) (simp_all add: view_leave_room leave_room_channels)

lemma view_join:
  assumes "manager_ok m" and "Manager_join sub eng p r db (m, w) = Inr (b, db', m', w')"
  shows "\<exists>past. view (m', w') = enter data_frame joined past r p (view (m, w)) \<and>
    (if map_of (channels m) r = None
     then (case db of None \<Rightarrow> past = [] \<and> db' = None
           | Some d \<Rightarrow> \<exists>d'. get_history eng r d = Inr (past, d') \<and> db' = Some d')
     else db' = db)"
proof -
  note ok = manager_okD(1) [OF assms(1)]
  obtain ch where ch: "case map_of (channels m) r of Some ch0 \<Rightarrow> ch = ch0 \<and> db' = db
      | None \<Rightarrow> Channel_ctor eng r db = Inr (ch, db')"
    and m': "channels m' = AList.update r (fst (Channel_join sub p (ch, w))) (channels m)"
    and w': "w' = sub_set_channel sub p r (snd (Channel_join sub p (ch, w)))"
    using join_result [OF assms(2)] by blast
  let ?c = "sub_client_id sub w p"
  have props: "channel_id ch = r" "um_ok (subscribers ch)" "map_of (subscribers ch) c = subscribed m r c" for c
    using ch channels_okD(2,3) [OF ok, of r] Channel_ctor_simps [of eng r db ch db']
    by (auto simp: subscribed_def split: option.splits)
  have ds: "(case said (view (m, w)) r of None \<Rightarrow> history_room ch | Some ds \<Rightarrow> ds) = history_room ch"
    using ch by (auto split: option.splits)
  let ?a = "(view (m, w))\<lparr>said := (said (view (m, w)))(r \<mapsto> history_room ch),
    handed := (inbox w)(p := inbox w p @ map data_frame (history_room ch)),
    members := (subscribed m)(r := (subscribed m r)(?c \<mapsto>
      (case subscribed m r ?c of None \<Rightarrow> p | Some q \<Rightarrow> q)))\<rparr>"
  have mem: "members ?a r c = map_of (um_try_emplace ?c p (subscribers ch)) c" for c
    by (auto simp: um_simps props split: option.split)
  have "presence ?a r q = count_list (map snd (um_try_emplace ?c p (subscribers ch))) q" for q
    unfolding presence_def mem using props(2) by (simp add: count_list_members um_simps)
  then have "view (m', w') = speak data_frame r (joined (sub_login sub w p) r) ?a"
    by (intro view_eqI)
      (auto simp: w' m' laws join_simps props joined_def subscribed_def um_simps split: option.splits)
  moreover have "enter data_frame joined (history_room ch) r p (view (m, w)) =
      speak data_frame r (joined (sub_login sub w p) r) ?a"
    unfolding enter_def ds Let_def by simp
  ultimately have "view (m', w') = enter data_frame joined (history_room ch) r p (view (m, w))"
    by simp
  then show ?thesis
    using ch by (intro exI [of _ "history_room ch"])
      (auto simp: Channel_ctor_def split: option.splits)
qed

lemma view_leave_all:
  assumes "manager_ok m"
  shows "\<exists>rs. {r. subscribed m r c \<noteq> None} \<subseteq> set rs \<and>
    view (Manager_leave_from_all_channels sub c (m, w)) = fold (quit data_frame left c) rs (view (m, w))"
proof -
  let ?rs = "case map_of (client_in_rooms m) c of None \<Rightarrow> [] | Some rs \<Rightarrow> rs"
  have "view (Manager_leave_from_all_channels sub c (m, w)) = view (fold (leave_room sub c) ?rs (m, w))"
    by (intro view_eqI)
      (auto simp: Manager_leave_from_all_channels_def Let_def split_beta subscribed_def split: option.split)
  moreover have "set ?rs = rooms_of m c"
    by (simp add: rooms_of_def split: option.split)
  then have "{r. subscribed m r c \<noteq> None} \<subseteq> set ?rs"
    using manager_okD(4) [OF assms] by auto
  moreover have "view (fold (leave_room sub c) ?rs (m, w)) = fold (quit data_frame left c) ?rs (view (m, w))"
    using manager_okD(1) [OF assms] by (simp add: view_leave_rooms)
  ultimately show ?thesis by (intro exI [of _ ?rs] conjI) simp_all
qed

end

section \<open>The server\<close>

definition chat_of :: "'h server \<Rightarrow> (nat, TextSendData, bytes) chat" where
  "chat_of s =
     \<lparr>ident = (\<lambda>p. cn_client_id (conns s p)), nick = (\<lambda>p. cn_login (conns s p)),
      members = subscribed (manager s),
      said = (\<lambda>r. map_option history_room (map_of (channels (manager s)) r)),
      handed = frames_to (conns s)\<rparr>"

lemma chat_of_view: "chat_of s = conn.view rt (manager s, conns s)"
  by (simp add: chat_of_def conn.view_def fun_eq_iff)

lemma chat_of_simps [simp]:
  "ident (chat_of s) p = cn_client_id (conns s p)" "nick (chat_of s) p = cn_login (conns s p)"
  "members (chat_of s) = subscribed (manager s)" "handed (chat_of s) = frames_to (conns s)"
  "said (chat_of s) r = map_option history_room (map_of (channels (manager s)) r)"
  by (simp_all add: chat_of_def)

lemma chat_of_eqI:
  assumes "\<And>p. cn_client_id (conns s p) = ident a p" and "\<And>p. cn_login (conns s p) = nick a p"
    and "subscribed (manager s) = members a"
    and "\<And>r. map_option history_room (map_of (channels (manager s)) r) = said a r"
    and "\<And>p. frames_to (conns s) p = handed a p"
  shows "chat_of s = a"
  using assms by (intro chat.equality) (auto simp: chat_of_def fun_eq_iff)

text \<open>A step that leaves the registry alone and keeps identities and outgoing queues is no step of
  the service.\<close>

lemma chat_of_same:
  assumes "manager s' = manager s" and "\<And>p. cn_client_id (conns s' p) = cn_client_id (conns s p)"
    and "\<And>p. cn_login (conns s' p) = cn_login (conns s p)" and "\<And>p. frames_to (conns s') p = frames_to (conns s) p"
  shows "chat_of s' = chat_of s"
  using assms by (intro chat_of_eqI) simp_all

lemma chat_of_fields [simp]:
  "chat_of (s\<lparr>tasks := ts\<rparr>) = chat_of s" "chat_of (s\<lparr>database := db\<rparr>) = chat_of s"
  "chat_of (s\<lparr>next_id := i\<rparr>) = chat_of s" "chat_of (post t s) = chat_of s"
  by (simp_all add: chat_of_def)

lemma frames_update [simp]:
  "conn_queue.outbox (c\<lparr>cn_client_id := i\<rparr>) = conn_queue.outbox c"
  "conn_queue.outbox (c\<lparr>cn_login := l\<rparr>) = conn_queue.outbox c"
  "conn_queue.outbox (c\<lparr>cn_password := l\<rparr>) = conn_queue.outbox c"
  "conn_queue.outbox (c\<lparr>cn_open := b\<rparr>) = conn_queue.outbox c"
  "conn_queue.outbox (c\<lparr>cn_reading := x\<rparr>) = conn_queue.outbox c"
  "conn_queue.outbox (c\<lparr>cn_buffer_header := d\<rparr>) = conn_queue.outbox c"
  "conn_queue.outbox (c\<lparr>cn_buffer_msg := d\<rparr>) = conn_queue.outbox c"
  "conn_queue.outbox (c\<lparr>cn_writing := b\<rparr>) = conn_queue.outbox c"
  "conn_queue.outbox (start_direct f c) = conn_queue.outbox c"
  by (simp_all add: conn_queue.outbox_def queued_started_def start_direct_def List.map_filter_def)

lemma start_direct_fields [simp]:
  "cn_client_id (start_direct f c) = cn_client_id c" "cn_login (start_direct f c) = cn_login c"
  by (simp_all add: start_direct_def)

lemma chat_of_on_conn:
  assumes "cn_client_id (f (conns s p)) = cn_client_id (conns s p)" and "cn_login (f (conns s p)) = cn_login (conns s p)"
    and "conn_queue.outbox (f (conns s p)) = conn_queue.outbox (conns s p)"
  shows "chat_of (on_conn p f s) = chat_of s"
  using assms by (intro chat_of_same) (simp_all add: frames_to_def)

text \<open>The service that the server implements: its messages travel as text frames.\<close>

abbreviation served :: "pb_rt \<Rightarrow> 'h server \<Rightarrow> 'h server \<Rightarrow> bool" where
  "served rt s s' \<equiv> chat_step (message_frame rt) td_room_id joined left (chat_of s) (chat_of s')"

lemma served_same: "chat_of s' = chat_of s \<Longrightarrow> served rt s s'"
  by (simp add: chat_step.stay)

lemma conn_wire: "conn.data_frame rt = message_frame rt"
  by (simp add: fun_eq_iff message_frame_def)

lemma served_manager:
  "chat_of (s\<lparr>manager := fst r, conns := snd r\<rparr>) = conn.view rt r"
  by (simp add: chat_of_view [where rt = rt])

text \<open>What the three operations on the registry do to the service.\<close>

lemma chat_of_free:
  assumes "server_ok s"
  shows "\<exists>rs. {r. subscribed (manager s) r (cn_client_id (conns s p)) \<noteq> None} \<subseteq> set rs \<and>
    chat_of (free_connection rt p s) =
      (fold (quit (message_frame rt) left (cn_client_id (conns s p))) rs (chat_of s))
      \<lparr>ident := (ident (chat_of s))(p := -1), nick := (nick (chat_of s))(p := ''unused'')\<rparr>"
proof -
  let ?c = "cn_client_id (conns s p)"
  let ?r = "Manager_leave_from_all_channels (connection_subscriber rt) ?c (manager s, conns s)"
  obtain rs where rs: "{r. subscribed (manager s) r ?c \<noteq> None} \<subseteq> set rs"
    "chat_of (s\<lparr>manager := fst ?r, conns := snd ?r\<rparr>) = fold (quit (message_frame rt) left ?c) rs (chat_of s)"
    using conn.view_leave_all [OF server_okD(1) [OF assms], where rt = rt and c = ?c and w = "conns s"]
    unfolding served_manager [where rt = rt] conn_wire chat_of_view [where rt = rt and s = s] by blast
  have "chat_of (free_connection rt p s) = (chat_of (s\<lparr>manager := fst ?r, conns := snd ?r\<rparr>))
      \<lparr>ident := (ident (chat_of s))(p := -1), nick := (nick (chat_of s))(p := ''unused'')\<rparr>"
    using rs(2) [THEN arg_cong [of _ _ ident]] rs(2) [THEN arg_cong [of _ _ nick]]
    by (intro chat_of_eqI) (auto simp: free_connection_def split_beta Let_def close_and_reset_def frames_to_def
        fun_eq_iff)
  with rs show ?thesis by (intro exI [of _ rs]) simp
qed

lemma chat_of_authenticate:
  assumes "manager s' = manager s" and "conns s' = (conns s)(p := (conns s p)
    \<lparr>cn_login := l, cn_password := pw, cn_client_id := i\<rparr>)"
  shows "chat_of s' = (chat_of s)\<lparr>ident := (ident (chat_of s))(p := i), nick := (nick (chat_of s))(p := l)\<rparr>"
  using assms by (intro chat_of_eqI) (simp_all add: frames_to_def)

lemma chat_of_join:
  assumes "server_ok s" and "join_channel rt eng p r s = Inr (flag, s')"
  shows "\<exists>past. chat_of s' = enter (message_frame rt) joined past r p (chat_of s) \<and>
    (if map_of (channels (manager s)) r = None
     then (case database s of None \<Rightarrow> past = [] \<and> database s' = None
           | Some d \<Rightarrow> \<exists>d'. get_history eng r d = Inr (past, d') \<and> database s' = Some d')
     else database s' = database s)"
proof -
  obtain db m w where j: "Manager_join (connection_subscriber rt) eng p r (database s) (manager s, conns s) =
      Inr (flag, db, m, w)" and s': "s' = s\<lparr>database := db, manager := m, conns := w\<rparr>"
    using assms(2) by (auto simp: join_channel_def)
  have eq: "chat_of s' = conn.view rt (m, w)" "database s' = db"
    by (simp_all add: s' chat_of_view [where rt = rt])
  show ?thesis
    using conn.view_join [OF server_okD(1) [OF assms(1)] j]
    unfolding eq conn_wire chat_of_view [where rt = rt and s = s] .
qed

lemma chat_of_text:
  assumes "server_ok s" and "deliver_and_save rt eng fmt02 d s = Inr s'"
  shows "chat_of s' = speak (message_frame rt) (td_room_id d) d (chat_of s)"
proof -
  let ?r = "Manager_send_to_channel (connection_subscriber rt) d (manager s, conns s)"
  have "chat_of s' = chat_of (s\<lparr>manager := fst ?r, conns := snd ?r\<rparr>)"
    using assms(2) by (auto simp: deliver_and_save_def Let_def split_beta split: option.splits)
  also have "\<dots> = speak (message_frame rt) (td_room_id d) d (chat_of s)"
    using conn.view_send [OF manager_okD(1) [OF server_okD(1) [OF assms(1)]], where rt = rt and d = d and w = "conns s"]
    unfolding served_manager [where rt = rt] conn_wire chat_of_view [where rt = rt and s = s] by simp
  finally show ?thesis .
qed

lemma served_free:
  assumes "server_ok s"
  shows "served rt s (free_connection rt p s)"
proof -
  obtain rs where "{r. members (chat_of s) r (ident (chat_of s) p) \<noteq> None} \<subseteq> set rs"
    "chat_of (free_connection rt p s) = (fold (quit (message_frame rt) left (ident (chat_of s) p)) rs (chat_of s))
      \<lparr>ident := (ident (chat_of s))(p := -1), nick := (nick (chat_of s))(p := ''unused'')\<rparr>"
    using chat_of_free [OF assms, of p rt] by auto
  then show ?thesis by (simp only: chat_step.disconnect)
qed

lemma served_authenticate:
  assumes "manager s' = manager s" and "conns s' = (conns s)(p := (conns s p)
    \<lparr>cn_login := l, cn_password := pw, cn_client_id := i\<rparr>)"
  shows "served rt s s'"
  unfolding chat_of_authenticate [OF assms] by (rule chat_step.authenticate)

lemma served_header:
  assumes "server_ok s" and "do_parse_pb_header rt alloc p outcome s = Inr s'"
  shows "served rt s s'"
proof (cases outcome)
  case None
  let ?s = "on_conn p (\<lambda>c. c\<lparr>cn_reading := NoRead\<rparr>) s"
  have "s' = free_connection rt p ?s" using assms(2) None by (simp add: do_parse_pb_header_def)
  moreover have "server_ok ?s" using assms(1) by (rule server_ok_on_conn) simp
  ultimately show ?thesis
    using served_free [where s = ?s and rt = rt and p = p] chat_of_on_conn [of "\<lambda>c. c\<lparr>cn_reading := NoRead\<rparr>" s p] by simp
next
  case (Some block)
  then show ?thesis
    using assms(2)
    by (intro served_same chat_of_same)
      (auto simp: do_parse_pb_header_def Let_def split_beta async_read_pb_header_def frames_to_def split: if_splits)
qed

lemma served_body: "served rt s (body_handler rt h p data s)"
  by (intro served_same chat_of_same)
    (auto simp: body_handler_def process_msg_def Let_def split_beta async_read_pb_header_def frames_to_def
      split: TypeCommand.split)

lemma served_join:
  assumes "server_ok s" and "join_channel rt eng p r s = Inr (flag, s')"
  shows "served rt s s'"
  using chat_of_join [OF assms] by (metis chat_step.join)

lemma served_text:
  assumes "server_ok s" and "deliver_and_save rt eng fmt02 d s = Inr s'"
  shows "served rt s s'"
  unfolding chat_of_text [OF assms] by (rule chat_step.say)

lemma served_registration:
  assumes "do_registration rt eng p req s = Inr s'" and "Request_has_register_request req"
  shows "served rt s s'"
proof -
  let ?login = "reg_login (Request_register_request req)"
  let ?password = "reg_password (Request_register_request req)"
  let ?s1 = "on_conn p (\<lambda>c. c\<lparr>cn_login := ?login, cn_password := ?password\<rparr>) s"
  obtain i s2 where reg: "register_login eng ?login ?password ?s1 = Inr (i, s2)"
    and s': "s' = post (SendRegResponse p i) (on_conn p (\<lambda>c. c\<lparr>cn_client_id := i\<rparr>) s2)"
    using assms by (auto simp: do_registration_def Let_def)
  show ?thesis
    by (rule served_authenticate [where p = p and l = ?login and pw = ?password and i = i])
      (use register_login_same [OF reg] in \<open>auto simp: s' fun_eq_iff\<close>)
qed

lemma served_task:
  assumes "server_ok s" and "run_task rt eng fmt02 t s = Inr s'"
  shows "served rt s s'"
proof (cases t)
  case (DoAutorisation p req)
  show ?thesis
  proof (cases "Request_has_input_request req")
    case True
    then show ?thesis
      using assms(2)
      by (intro served_authenticate [where p = p and l = "inp_login (Request_input_request req)"
            and pw = "inp_password (Request_input_request req)" and i = "cn_client_id (conns s' p)"])
        (auto simp: DoAutorisation do_autorisation_def Let_def fun_eq_iff split: option.splits)
  qed (use assms served_free in \<open>auto simp: DoAutorisation do_autorisation_def\<close>)
next
  case (DoRegistration p req)
  then show ?thesis
    using assms served_registration served_free by (cases "Request_has_register_request req")
      (auto simp: do_registration_def)
next
  case (DoJoinRoom p req)
  with assms served_join [OF assms(1), of rt eng p] show ?thesis
    by (auto simp: do_join_room_def Let_def split: if_splits intro: chat_step.stay)
next
  case (DoTextMsg p req)
  with assms served_text [OF assms(1)] show ?thesis
    by (auto simp: do_text_msg_def split: if_splits intro: chat_step.stay)
qed (use assms(2) in \<open>auto simp: send_auto_response_def send_reg_response_def send_join_room_response_def
    intro!: served_same chat_of_on_conn\<close>)

end
