(* ===== verification/Client.thy ===== *)
theory Client
  imports MsgFactory DateTime WriteQueue
begin

text \<open>
  \<open>client/client/client.h\<close> and \<open>client.cpp\<close>: the client's connection to the server, its reading
  loop, its outgoing queue and the histories of its channels. The signals it emits to the windows
  are recorded in the order of their emission.
\<close>

section \<open>State\<close>

record ClientTextMsg =
  cm_author :: string
  cm_text :: string
  cm_channel_id :: int32
  cm_dt :: DateTime

datatype signal = SendText ClientTextMsg | SendInputCode InputCode | UpdateChannels

datatype client_write = LoginWrite bytes | QueueWrite bytes

datatype client_reading = Idle | WaitHeader | WaitInput | WaitRegister | WaitJoinRoom | WaitEcho

record client =
  cl_login :: string
  cl_password :: string
  cl_client_id :: int32
  cl_current_room :: int32
  cl_channels_history :: "(int32 \<times> ClientTextMsg list) list"
  cl_open :: bool
  cl_bin_buffer :: bytes
  cl_read_buffer :: bytes
  cl_queue :: "bytes list"
  cl_started :: "client_write list"
  cl_reading :: client_reading
  cl_signals :: "signal list"

text \<open>The constructor leaves \<open>client_id\<close> and the header buffer uninitialised.\<close>

definition Client_ctor :: "int32 \<Rightarrow> bytes \<Rightarrow> client" where
  "Client_ctor garbage_id garbage_header =
     \<lparr>cl_login = [], cl_password = [], cl_client_id = garbage_id, cl_current_room = 0,
      cl_channels_history = [], cl_open = False, cl_bin_buffer = garbage_header, cl_read_buffer = [],
      cl_queue = [], cl_started = [], cl_reading = Idle, cl_signals = []\<rparr>"

definition emit :: "signal \<Rightarrow> client \<Rightarrow> client" where
  "emit sig c = c\<lparr>cl_signals := cl_signals c @ [sig]\<rparr>"

section \<open>Connecting\<close>

definition close_connection :: "client \<Rightarrow> client" where
  "close_connection c = c\<lparr>cl_open := False\<rparr>"

definition Client_dtor :: "client \<Rightarrow> client" where
  "Client_dtor c = close_connection c"

definition client_async_read_pb_header :: "client \<Rightarrow> client" where
  "client_async_read_pb_header c = c\<lparr>cl_reading := WaitHeader\<rparr>"

definition send_login_request :: "bytes \<Rightarrow> client \<Rightarrow> client" where
  "send_login_request buffer c = c\<lparr>cl_started := cl_started c @ [LoginWrite buffer]\<rparr>"

text \<open>The handlers of the connection and of the first write; \<open>ec\<close> says whether they failed.\<close>

definition do_connect :: "bool \<Rightarrow> bytes \<Rightarrow> client \<Rightarrow> client" where
  "do_connect ec buffer c = (if \<not> ec then send_login_request buffer (c\<lparr>cl_open := True\<rparr>) else c)"

definition login_written :: "bool \<Rightarrow> client \<Rightarrow> client" where
  "login_written ec c = (if \<not> ec then client_async_read_pb_header c else close_connection c)"

section \<open>Reading\<close>

text \<open>A command without a case starts no read.\<close>

definition client_async_read_pb_msg :: "nat \<Rightarrow> Header \<Rightarrow> client \<Rightarrow> client result" where
  "client_async_read_pb_msg alloc new_header c =
     (let n = unat (hdr_length new_header)
      in if alloc < n then Inl LengthError
         else let c = c\<lparr>cl_read_buffer := resize n (cl_read_buffer c)\<rparr>
              in Inr (case TypeCommand_cast (hdr_command new_header) of
                   AutorisationResponse \<Rightarrow> c\<lparr>cl_reading := WaitInput\<rparr>
                 | RegistrationResponse \<Rightarrow> c\<lparr>cl_reading := WaitRegister\<rparr>
                 | EchoResponse \<Rightarrow> c\<lparr>cl_reading := WaitEcho\<rparr>
                 | JoinRoomResponseCmd \<Rightarrow> c\<lparr>cl_reading := WaitJoinRoom\<rparr>
                 | _ \<Rightarrow> c))"

definition do_read_pb_header :: "pb_rt \<Rightarrow> nat \<Rightarrow> bytes option \<Rightarrow> client \<Rightarrow> client result" where
  "do_read_pb_header rt alloc outcome c =
     (let c = c\<lparr>cl_reading := Idle\<rparr>
      in case outcome of
           None \<Rightarrow> Inr (close_connection c)
         | Some block \<Rightarrow>
             let c = c\<lparr>cl_bin_buffer := block\<rparr>;
                 (flag, new_header) = ParseFromArray (Header_InternalParse rt) Header_SharedCtor block
             in if flag then client_async_read_pb_msg alloc new_header c else Inr c)"

text \<open>The four handlers of a body; the outcome is \<open>None\<close> for an error of the read.\<close>

definition parse_response :: "pb_rt \<Rightarrow> client \<Rightarrow> bool \<times> Response" where
  "parse_response rt c = ParseFromArray (Response_InternalParse rt) Response_SharedCtor (cl_read_buffer c)"

definition set_login_id :: "int32 \<Rightarrow> client \<Rightarrow> client" where
  "set_login_id i c = c\<lparr>cl_client_id := i\<rparr>"

definition body_read :: "bytes \<Rightarrow> client \<Rightarrow> client" where
  "body_read data c = c\<lparr>cl_read_buffer := data, cl_reading := Idle\<rparr>"

definition do_read_input_response :: "pb_rt \<Rightarrow> bytes option \<Rightarrow> client \<Rightarrow> client" where
  "do_read_input_response rt outcome c =
     (case outcome of
        None \<Rightarrow> close_connection (c\<lparr>cl_reading := Idle\<rparr>)
      | Some data \<Rightarrow>
          let c = body_read data c; (flag_parse, response) = parse_response rt c
          in if \<not> flag_parse then close_connection c
             else if Response_has_input_response response then
               (if irs_status (Response_input_response response) = STATUS_OK
                then client_async_read_pb_header
                  (set_login_id (irs_client_id (Response_input_response response))
                    (emit (SendInputCode AutorOK) c))
                else close_connection (emit (SendInputCode IncorrectAutor) c))
             else c)"

text \<open>The identifier is taken from the slot of the other response.\<close>

definition do_read_reg_response :: "pb_rt \<Rightarrow> bytes option \<Rightarrow> client \<Rightarrow> client" where
  "do_read_reg_response rt outcome c =
     (case outcome of
        None \<Rightarrow> close_connection (c\<lparr>cl_reading := Idle\<rparr>)
      | Some data \<Rightarrow>
          let c = body_read data c; (flag_parse, response) = parse_response rt c
          in if \<not> flag_parse then close_connection c
             else if Response_has_reg_response response then
               (if rrs_status (Response_reg_response response) = STATUS_OK
                then client_async_read_pb_header
                  (set_login_id (irs_client_id (Response_input_response response))
                    (emit (SendInputCode RegistrOK) c))
                else close_connection (emit (SendInputCode BusyRegistr) c))
             else c)"

definition do_read_join_room_response :: "pb_rt \<Rightarrow> bytes option \<Rightarrow> client \<Rightarrow> client" where
  "do_read_join_room_response rt outcome c =
     (case outcome of
        None \<Rightarrow> close_connection (c\<lparr>cl_reading := Idle\<rparr>)
      | Some data \<Rightarrow>
          let c = body_read data c; (flag_parse, response) = parse_response rt c
          in if \<not> flag_parse then close_connection c
             else if Response_has_join_room_response response then
               (if jrs_status (Response_join_room_response response) = STATUS_OK
                then client_async_read_pb_header (emit UpdateChannels
                  (c\<lparr>cl_channels_history := um_try_emplace
                       (jrs_room_id (Response_join_room_response response)) [] (cl_channels_history c)\<rparr>))
                else close_connection c)
             else c)"

text \<open>\<open>channels_history[id].push_back(msg)\<close>: the subscript makes an empty history when there is
  none.\<close>

definition push_history :: "ClientTextMsg \<Rightarrow> (int32 \<times> ClientTextMsg list) list \<Rightarrow>
    (int32 \<times> ClientTextMsg list) list" where
  "push_history msg m =
     (let m = um_try_emplace (cm_channel_id msg) [] m
      in AList.update (cm_channel_id msg)
           ((case map_of m (cm_channel_id msg) of None \<Rightarrow> [] | Some xs \<Rightarrow> xs) @ [msg]) m)"

definition do_read_echo_response :: "pb_rt \<Rightarrow> bytes option \<Rightarrow> client \<Rightarrow> client" where
  "do_read_echo_response rt outcome c =
     (case outcome of
        None \<Rightarrow> close_connection (c\<lparr>cl_reading := Idle\<rparr>)
      | Some data \<Rightarrow>
          let c = body_read data c; (flag_parse, new_response) = parse_response rt c;
              t = Response_text_response new_response;
              msg = \<lparr>cm_author = trs_login t, cm_text = trs_text t, cm_channel_id = trs_room_id t,
                     cm_dt = DateTime_default\<rparr>
          in client_async_read_pb_header (emit (SendText msg)
               (c\<lparr>cl_channels_history := push_history msg (cl_channels_history c)\<rparr>)))"

text \<open>The completion of the read that is pending.\<close>

definition read_completes :: "pb_rt \<Rightarrow> nat \<Rightarrow> bytes option \<Rightarrow> client \<Rightarrow> client result" where
  "read_completes rt alloc outcome c =
     (case cl_reading c of
        Idle \<Rightarrow> Inr c
      | WaitHeader \<Rightarrow> do_read_pb_header rt alloc outcome c
      | WaitInput \<Rightarrow> Inr (do_read_input_response rt outcome c)
      | WaitRegister \<Rightarrow> Inr (do_read_reg_response rt outcome c)
      | WaitJoinRoom \<Rightarrow> Inr (do_read_join_room_response rt outcome c)
      | WaitEcho \<Rightarrow> Inr (do_read_echo_response rt outcome c))"

section \<open>Writing\<close>

definition start_send_msgs :: "client \<Rightarrow> client" where
  "start_send_msgs c = c\<lparr>cl_started := cl_started c @ [QueueWrite (hd (cl_queue c))]\<rparr>"

definition add_msg_to_send :: "bytes \<Rightarrow> client \<Rightarrow> client" where
  "add_msg_to_send request c =
     (let process_write = cl_queue c \<noteq> [];
          c = c\<lparr>cl_queue := cl_queue c @ [request]\<rparr>
      in if \<not> process_write then start_send_msgs c else c)"

text \<open>The completion handler of a queued write.\<close>

definition msg_written :: "client \<Rightarrow> client" where
  "msg_written c =
     (let c = c\<lparr>cl_queue := tl (cl_queue c)\<rparr>
      in if cl_queue c \<noteq> [] then start_send_msgs c else c)"

definition msg_write_handler :: "bool \<Rightarrow> client \<Rightarrow> client" where
  "msg_write_handler ec c = (if \<not> ec then msg_written c else close_connection c)"

definition client_change_room :: "pb_rt \<Rightarrow> int32 \<Rightarrow> client \<Rightarrow> client" where
  "client_change_room rt new_room_id c =
     (let request = join_room_request new_room_id;
          header = create_header JoinRoomRequestCmd (Request_ByteSizeLong rt request)
      in add_msg_to_send (serialize_request rt header request) c)"

definition send_msg_to_server :: "pb_rt \<Rightarrow> string \<Rightarrow> int32 \<Rightarrow> client \<Rightarrow> client" where
  "send_msg_to_server rt text room_id c =
     (let request = create_text_request (cl_login c) room_id text;
          header = create_header EchoRequest (Request_ByteSizeLong rt request)
      in add_msg_to_send (serialize_request rt header request) c)"

section \<open>Accessors\<close>

definition set_login :: "string \<Rightarrow> client \<Rightarrow> client" where
  "set_login new_login c = c\<lparr>cl_login := new_login\<rparr>"

definition set_password :: "string \<Rightarrow> client \<Rightarrow> client" where
  "set_password new_password c = c\<lparr>cl_password := new_password\<rparr>"

definition set_current_channel :: "int32 \<Rightarrow> client \<Rightarrow> client" where
  "set_current_channel room_id c = c\<lparr>cl_current_room := room_id\<rparr>"

text \<open>The set of the joined channels, listed in increasing order as \<open>std::set\<close> does.\<close>

definition get_channels :: "client \<Rightarrow> int32 list" where
  "get_channels c = map word_of_int (sorted_list_of_set (set (map (sint \<circ> fst) (cl_channels_history c))))"

text \<open>Through \<open>operator[]\<close>: asking for an unknown channel makes it known.\<close>

definition client_get_history :: "int32 \<Rightarrow> client \<Rightarrow> ClientTextMsg list \<times> client" where
  "client_get_history channel_id c =
     (let m = um_try_emplace channel_id [] (cl_channels_history c)
      in (case map_of m channel_id of None \<Rightarrow> [] | Some xs \<Rightarrow> xs, c\<lparr>cl_channels_history := m\<rparr>))"

section \<open>Histories\<close>

lemma push_history_simps [um_simps]:
  "map_of (push_history m hs) r = (if r = cm_channel_id m
     then Some ((case map_of hs r of None \<Rightarrow> [] | Some xs \<Rightarrow> xs) @ [m]) else map_of hs r)"
  by (auto simp: push_history_def um_simps Let_def split: option.splits)

lemma client_get_history_eq:
  "fst (client_get_history r c) = (case map_of (cl_channels_history c) r of None \<Rightarrow> [] | Some xs \<Rightarrow> xs)"
  by (auto simp: client_get_history_def um_simps Let_def split: option.splits)

section \<open>The queue's contract\<close>

fun queue_write_of :: "client_write \<Rightarrow> bytes option" where
  "queue_write_of (QueueWrite f) = Some f"
| "queue_write_of (LoginWrite f) = None"

definition client_queued :: "client \<Rightarrow> bytes list" where
  "client_queued c = List.map_filter queue_write_of (cl_started c)"

interpretation client_queue: write_queue cl_queue client_queued add_msg_to_send msg_written
proof (unfold_locales, goal_cases)
  case (3 s f q)
  then show ?case
    by (cases q) (simp_all add: msg_written_def start_send_msgs_def client_queued_def Let_def List.map_filter_def)
qed (simp_all add: add_msg_to_send_def start_send_msgs_def client_queued_def Let_def List.map_filter_def)

end
