(* ===== verification/Reading.thy ===== *)
theory Reading
  imports ServerProps
begin

text \<open>
  The reading loop and the writing queue of a connection: every read leads to the next one, a frame
  built by the client reaches the handler it names with the request it carries, frames leave in the
  order in which they were queued; and what a hostile length and a failed write do.
\<close>

section \<open>Reachable states\<close>

text \<open>C20: in every state that the server can reach, the registry of rooms is consistent (distinct
  keys, rooms under their own number, every subscription in the list of rooms to leave), every
  subscription and every task belongs to a connection of the pool, a queued write is in flight only
  while the queue has a front, and that front is the frame being written.\<close>

theorem reachable_server_ok:
  assumes "server_reach rt eng fmt02 alloc db s"
  shows "server_ok s"
  using assms by induction (auto intro: Server_ctor_ok server_step_ok)

theorem reachable_server_ok_witness:
  "server_ok (scan_acception False 9 (replicate 19 0) (demo_server [] []))"
proof -
  have "server_reach std_rt mini_engine std_fmt02 1000 (Some (mini_db [] []))
      (scan_acception False 9 (replicate 19 0) (demo_server [] []))"
    unfolding demo_server_def
    by (rule server_reach.step [OF server_reach.start server_step.accept]) (simp add: SIZE_HEADER_eq)
  then show ?thesis by (rule reachable_server_ok)
qed

section \<open>Reading\<close>

lemma read_loop_body: "cn_reading (conns (body_handler rt h p data s) p) = ReadHeader"
  by (simp add: body_handler_def process_msg_def async_read_pb_header_def Let_def split_beta)

text \<open>C26: unless the length in a header cannot be allocated, reading never stalls: a header block that
  was read leads to the read of a body or to the next header, the exception is raised for a header
  with too great a length only, and a body, whatever it holds and however much of
  it arrived, leads to the next header with at most one task posted.\<close>

theorem read_loop_continues:
  "(case do_parse_pb_header rt alloc p (Some block) s of
      Inl e \<Rightarrow> e = LengthError \<and> (\<exists>h. alloc < unat (hdr_length h) \<and>
        ParseFromArray (Header_InternalParse rt) Header_SharedCtor block = (True, h))
    | Inr s' \<Rightarrow> tasks s' = tasks s \<and>
        (cn_reading (conns s' p) = ReadHeader \<or>
         (\<exists>h. cn_reading (conns s' p) = ReadBody h \<and> length (cn_buffer_msg (conns s' p)) = unat (hdr_length h)))) \<and>
   cn_reading (conns (body_handler rt h p data s) p) = ReadHeader \<and>
   (\<exists>ts. tasks (body_handler rt h p data s) = tasks s @ ts \<and> length ts \<le> 1)"
  by (auto simp: do_parse_pb_header_def body_handler_def process_msg_def async_read_pb_header_def
      resize_def Let_def split: sum.splits TypeCommand.splits prod.splits)

text \<open>The task that a command asks for.\<close>

definition task_for :: "TypeCommand \<Rightarrow> nat \<Rightarrow> Request \<Rightarrow> task list" where
  "task_for c p r =
     (if c = AuthorisationRequest then [DoAutorisation p r]
      else if c = RegistrationRequest then [DoRegistration p r]
      else if c = JoinRoomRequestCmd then [DoJoinRoom p r]
      else if c = EchoRequest then [DoTextMsg p r] else [])"

lemma process_msg_tasks:
  "tasks (process_msg rt h p s) =
     tasks s @ task_for (TypeCommand_cast (hdr_command h)) p (snd (parse_request rt (cn_buffer_msg (conns s p))))"
  by (auto simp: process_msg_def task_for_def Let_def split_beta split: TypeCommand.splits)

lemma request_frame_posts:
  assumes "pb_runtime rt" and "Request_wf rt r" and "Request_has_msg r" and "enumerator c"
    and "Request_ByteSizeLong rt r \<le> alloc"
  shows "\<exists>h s1. do_parse_pb_header rt alloc p
      (Some (take SIZE_HEADER (serialize_request rt (create_header c len) r))) s = Inr s1 \<and>
    cn_reading (conns s1 p) = ReadBody h \<and>
    unat (hdr_length h) = length (drop SIZE_HEADER (serialize_request rt (create_header c len) r)) \<and>
    tasks (body_handler rt h p (drop SIZE_HEADER (serialize_request rt (create_header c len) r)) s1) =
      tasks s @ task_for c p r \<and>
    cn_reading (conns (body_handler rt h p
      (drop SIZE_HEADER (serialize_request rt (create_header c len) r)) s1) p) = ReadHeader"
proof -
  let ?frame = "serialize_request rt (create_header c len) r"
  obtain h where h: "ParseFromArray (Header_InternalParse rt) Header_SharedCtor (take SIZE_HEADER ?frame) = (True, h)"
    "TypeCommand_cast (hdr_command h) = c" "unat (hdr_length h) = length (drop SIZE_HEADER ?frame)"
    "ParseFromArray (Request_InternalParse rt) Request_SharedCtor (drop SIZE_HEADER ?frame) = (True, r)"
    using pb_runtime.request_frame_read [OF assms(1-4), of len] by blast
  have "length (drop SIZE_HEADER ?frame) = Request_ByteSizeLong rt r"
    using pb_runtime.request_frame [OF assms(1-4), of len] pb_runtime.Request_size [OF assms(1,2)] by simp
  then have fits: "\<not> alloc < unat (hdr_length h)"
    using assms(5) h(3) by simp
  let ?s1 = "on_conn p (\<lambda>c. c\<lparr>cn_buffer_msg := resize (unat (hdr_length h)) (cn_buffer_msg c),
      cn_reading := ReadBody h\<rparr>) (on_conn p (\<lambda>c. c\<lparr>cn_buffer_header := take SIZE_HEADER ?frame\<rparr>) s)"
  have "do_parse_pb_header rt alloc p (Some (take SIZE_HEADER ?frame)) s = Inr ?s1"
    using fits by (simp add: do_parse_pb_header_def h(1) Let_def)
  moreover have "cn_reading (conns (body_handler rt h p (drop SIZE_HEADER ?frame) ?s1) p) = ReadHeader"
    using read_loop_body by blast
  moreover have "tasks (body_handler rt h p (drop SIZE_HEADER ?frame) ?s1) = tasks s @ task_for c p r"
    unfolding body_handler_def process_msg_tasks
    by (simp add: h resize_def parse_request_def del: length_drop)
  ultimately show ?thesis
    using h(3) by (intro exI [of _ h] exI [of _ ?s1]) (simp del: length_drop)
qed

text \<open>C25: a frame that the client serialized makes the server post exactly the task of its command,
  with the very request that the client built, and then read the next header.\<close>

theorem request_frame_posts_task:
  assumes "pb_runtime rt" and "Request_wf rt r" and "Request_has_msg r" and "enumerator c"
    and "Request_ByteSizeLong rt r \<le> alloc"
  shows "\<exists>h s1. do_parse_pb_header rt alloc p
      (Some (take SIZE_HEADER (serialize_request rt (create_header c len) r))) s = Inr s1 \<and>
    cn_reading (conns s1 p) = ReadBody h \<and>
    unat (hdr_length h) = length (drop SIZE_HEADER (serialize_request rt (create_header c len) r)) \<and>
    tasks (body_handler rt h p (drop SIZE_HEADER (serialize_request rt (create_header c len) r)) s1) =
      tasks s @ task_for c p r \<and>
    cn_reading (conns (body_handler rt h p
      (drop SIZE_HEADER (serialize_request rt (create_header c len) r)) s1) p) = ReadHeader"
  using assms by (rule request_frame_posts)

theorem request_frame_posts_task_witness:
  "\<exists>alloc h s1. do_parse_pb_header std_rt alloc 0 (Some (take SIZE_HEADER (serialize_request std_rt
      (create_header EchoRequest 0) (create_text_request ''ann'' 5 ''hello'')))) (demo_server [] []) = Inr s1 \<and>
    tasks (body_handler std_rt h 0 (drop SIZE_HEADER (serialize_request std_rt
      (create_header EchoRequest 0) (create_text_request ''ann'' 5 ''hello''))) s1) =
      [DoTextMsg 0 (create_text_request ''ann'' 5 ''hello'')]"
proof -
  let ?r = "create_text_request ''ann'' 5 ''hello''"
  have r: "Request_wf std_rt ?r" "Request_has_msg ?r" "enumerator EchoRequest"
    by (simp_all add: wire_simps std_str_ok)
  have "tasks (demo_server [] []) = []"
    by (simp add: demo_server_def Server_ctor_def)
  then show ?thesis
    using request_frame_posts_task [OF std.pb_runtime_axioms r order_refl, of 0 0 "demo_server [] []"]
    by (auto simp: task_for_def)
qed

lemma oversized_length:
  assumes "pb_runtime rt" and "enumerator c" and "alloc < n" and "n < 18446744073709551616"
  shows "\<exists>block. length block = SIZE_HEADER \<and>
    do_parse_pb_header rt alloc p (Some block) s = Inl LengthError"
proof -
  let ?h = "Header_set_length (word_of_nat n) (create_header c 0)"
  have "length (Header_InternalSerialize rt ?h) = SIZE_HEADER"
    by (rule pb_runtime.header_full_length [OF assms(1) pb_runtime.created_header_full [OF assms(1)]])
      (use assms in simp_all)
  moreover have "unat (hdr_length ?h) = n"
    using assms(4) by (simp add: pb_runtime.created_header [OF assms(1)] unat_of_nat)
  moreover have "ParseFromArray (Header_InternalParse rt) Header_SharedCtor (Header_InternalSerialize rt ?h) = (True, ?h)"
    by (rule pb_runtime.header_parse [OF assms(1)]) (simp add: pb_runtime.created_header [OF assms(1)])
  ultimately show ?thesis
    using assms(3) by (intro exI [of _ "Header_InternalSerialize rt ?h"])
      (simp add: do_parse_pb_header_def Let_def)
qed

section \<open>Writing\<close>

text \<open>C27: as long as no write fails, for every sequence of queued frames and completed writes on a
  connection that starts with an empty queue, the frames
  begun and those still behind the front are the queued ones in their order, all begun ones but the
  front are completed, and completing what is in the queue writes every frame.\<close>

theorem connection_writes_in_order:
  assumes "cn_queue c = []" and "cn_started c = []" and "c' = fold conn_queue.occur es c"
  shows "queued_started c' @ tl (cn_queue c') = pushed es \<and>
    (\<exists>completed. queued_started c' = completed @ take 1 (cn_queue c')) \<and>
    (let d = (queue_written ^^ length (cn_queue c')) c'
     in cn_queue d = [] \<and> queued_started d = pushed es)"
proof -
  have empty: "queued_started c = []" "conn_queue.outbox c = []"
    using assms(1,2) by (simp_all add: conn_queue.outbox_def queued_started_def)
  have "conn_queue.outbox c' = pushed es"
    using conn_queue.outbox_run [of es c] empty(2) assms(3) by simp
  moreover have "conn_queue.in_order c []"
    using assms(1) empty(1) by (simp add: conn_queue.in_order_def)
  then have "\<exists>completed. conn_queue.in_order c' completed"
    using conn_queue.in_order_run [of c "[]" es] assms(3) by auto
  ultimately show ?thesis
    using conn_queue.drain [of c'] by (simp add: conn_queue.outbox_def conn_queue.in_order_def Let_def)
qed

theorem connection_writes_in_order_witness:
  "queued_started (fold conn_queue.occur [Push [1], Push [2], Written, Push [3]] (Connection_ctor 0 [])) @
    tl (cn_queue (fold conn_queue.occur [Push [1], Push [2], Written, Push [3]] (Connection_ctor 0 []))) =
    [[1], [2], [3]]"
  using connection_writes_in_order [of "Connection_ctor 0 []", OF _ _ refl, of "[Push [1], Push [2], Written, Push [3]]"]
  by (simp add: Connection_ctor_def)

lemma failed_write_nonempty:
  assumes "cn_queue (conns s p) \<noteq> []"
  shows "cn_queue (conns (queue_write_handler rt p False s) p) \<noteq> []"
proof -
  let ?s = "on_conn p (\<lambda>c. c\<lparr>cn_writing := False\<rparr>) s"
  have "kept_by_calls (connection_subscriber rt) (\<lambda>w. cn_queue (w p) \<noteq> [])"
    by (auto simp: kept_by_calls_def connection_subscriber_def send_msg_to_client_def
        add_msg_send_queue_def sending_msgs_to_client_def Let_def)
  then have "cn_queue (snd (Manager_leave_from_all_channels (connection_subscriber rt) i
      (manager ?s, conns ?s)) p) \<noteq> []" for i
    by (rule kept_leave_all [where I = "\<lambda>w. cn_queue (w p) \<noteq> []"]) (simp add: assms)
  then show ?thesis
    by (simp add: queue_write_handler_def free_connection_def split_beta Let_def close_and_reset_def)
qed

text \<open>After a failed write the frame stays at the front of the queue, so that on this connection
  no queued frame is ever begun again: whatever is sent to it afterwards only waits.\<close>

theorem failed_write_stalls_queue:
  assumes "cn_queue (conns s p) \<noteq> []" and "c = conns (queue_write_handler rt p False s) p"
  shows "queued_started (fold (\<lambda>(l, t, r). send_msg_to_client rt l t r) msgs c) = queued_started c \<and>
    cn_queue (fold (\<lambda>(l, t, r). send_msg_to_client rt l t r) msgs c) =
      cn_queue c @ map (\<lambda>(l, t, r). text_frame rt l t r) msgs"
proof -
  have "cn_queue c \<noteq> []"
    using failed_write_nonempty [OF assms(1)] assms(2) by simp
  then show ?thesis
  proof (induction msgs arbitrary: c)
    case (Cons m msgs)
    obtain l t r where m: "m = (l, t, r)" by (cases m)
    have "cn_queue (send_msg_to_client rt l t r c) = cn_queue c @ [text_frame rt l t r]"
      "queued_started (send_msg_to_client rt l t r c) = queued_started c"
      using conn_queue.push_busy [OF Cons.prems] by (simp_all add: send_msg_to_client_def)
    then show ?case
      using Cons.IH [of "send_msg_to_client rt l t r c"] by (simp add: m)
  qed simp
qed

theorem failed_write_stalls_queue_witness:
  "\<exists>c. cn_queue c \<noteq> [] \<and>
    queued_started (send_msg_to_client std_rt ''ann'' ''hi'' 7 c) = queued_started c"
proof -
  let ?s = "on_conn 0 (add_msg_send_queue [1]) (demo_server [] [])"
  have q: "cn_queue (conns ?s 0) \<noteq> []"
    by (simp add: add_msg_send_queue_def sending_msgs_to_client_def Let_def)
  let ?c = "conns (queue_write_handler std_rt 0 False ?s) 0"
  have "cn_queue ?c \<noteq> []"
    using failed_write_nonempty [OF q] .
  moreover have "queued_started (send_msg_to_client std_rt ''ann'' ''hi'' 7 ?c) = queued_started ?c"
    using failed_write_stalls_queue [OF q refl, of std_rt "[(''ann'', ''hi'', 7)]"] by simp
  ultimately show ?thesis by blast
qed

end
