(* ===== verification/EndToEnd.thy ===== *)
theory EndToEnd
  imports Client Reading Delivery
begin

text \<open>
  The client's side of the protocol, and client and server together: a login, a registration and a
  message from the window of one user to the window of another. Between the two programs stand the
  bytes of the frames only.
\<close>

lemma response_slots [simp]:
  "Response_has_input_response (create_input_response i)"
  "Response_input_response (create_input_response i) =
     \<lparr>irs_status = (if i = -1 then STATUS_FAIL else STATUS_OK), irs_msg_id = 0, irs_client_id = i,
      irs_chat_id = 0, irs_unknown = []\<rparr>"
  "Response_has_reg_response (create_reg_response i)"
  "Response_reg_response (create_reg_response i) =
     \<lparr>rrs_status = (if i = -1 then STATUS_FAIL else STATUS_OK), rrs_msg_id = 0, rrs_client_id = i,
      rrs_chat_id = 0, rrs_unknown = []\<rparr>"
  "Response_input_response (create_reg_response i) = InputResponse_SharedCtor"
  "Response_has_join_room_response (create_join_room_response r flag)"
  "Response_join_room_response (create_join_room_response r flag) =
     \<lparr>jrs_status = (if flag then STATUS_OK else STATUS_FAIL), jrs_room_id = r, jrs_unknown = []\<rparr>"
  "Response_has_text_response (create_text_response l r t)"
  "Response_text_response (create_text_response l r t) =
     \<lparr>trs_login = l, trs_room_id = r, trs_text = t, trs_unknown = []\<rparr>"
  by (simp_all add: response_factory_defs)

section \<open>Receiving a frame\<close>

text \<open>The two reads that take a frame off the socket.\<close>

definition receive_frame :: "pb_rt \<Rightarrow> nat \<Rightarrow> bytes \<Rightarrow> client \<Rightarrow> client result" where
  "receive_frame rt alloc frame c =
     and_then (read_completes rt alloc (Some (take SIZE_HEADER frame)) c)
       (read_completes rt alloc (Some (drop SIZE_HEADER frame)))"

definition reading_for :: "TypeCommand \<Rightarrow> client_reading" where
  "reading_for cmd =
     (if cmd = AutorisationResponse then WaitInput else if cmd = RegistrationResponse then WaitRegister
      else if cmd = EchoResponse then WaitEcho else if cmd = JoinRoomResponseCmd then WaitJoinRoom else Idle)"

lemma async_read_pb_msg_reading:
  assumes "unat (hdr_length h) \<le> alloc" and "cl_reading c = Idle"
  shows "client_async_read_pb_msg alloc h c = Inr
    (c\<lparr>cl_read_buffer := resize (unat (hdr_length h)) (cl_read_buffer c),
       cl_reading := reading_for (TypeCommand_cast (hdr_command h))\<rparr>)"
  using assms
  by (auto simp: client_async_read_pb_msg_def reading_for_def Let_def split: TypeCommand.split)

text \<open>After the header of a frame, the client waits for its body and the body is the message.\<close>

lemma frame_received:
  assumes "pb_runtime rt" and "Response_wf rt m" and "Response_has_msg m" and "enumerator cmd"
    and "Response_ByteSizeLong rt m \<le> alloc" and "cl_reading c = WaitHeader"
    and "frame = serialize_response rt (create_header cmd (Response_ByteSizeLong rt m)) m"
  shows "\<exists>c1. read_completes rt alloc (Some (take SIZE_HEADER frame)) c = Inr c1 \<and>
    cl_reading c1 = reading_for cmd \<and> cl_signals c1 = cl_signals c \<and> cl_client_id c1 = cl_client_id c \<and>
    cl_channels_history c1 = cl_channels_history c \<and> cl_open c1 = cl_open c \<and>
    (\<forall>c'. parse_response rt (body_read (drop SIZE_HEADER frame) c') = (True, m))"
proof -
  obtain h where h: "ParseFromArray (Header_InternalParse rt) Header_SharedCtor (take SIZE_HEADER frame) = (True, h)"
    "TypeCommand_cast (hdr_command h) = cmd" "unat (hdr_length h) = length (drop SIZE_HEADER frame)"
    "ParseFromArray (Response_InternalParse rt) Response_SharedCtor (drop SIZE_HEADER frame) = (True, m)"
    using pb_runtime.response_frame_read [OF assms(1-4)] assms(7) by blast
  have "length (drop SIZE_HEADER frame) = Response_ByteSizeLong rt m"
    using pb_runtime.response_frame [OF assms(1-4)] pb_runtime.Response_size [OF assms(1,2)] assms(7) by simp
  then have "unat (hdr_length h) \<le> alloc"
    using assms(5) h(3) by simp
  then show ?thesis
    using h(2,4)
    by (simp add: read_completes_def assms(6) do_read_pb_header_def h(1) async_read_pb_msg_reading
        parse_response_def body_read_def)
qed

lemma received_eq:
  assumes "read_completes rt alloc (Some (take SIZE_HEADER frame)) c = Inr c1"
  shows "receive_frame rt alloc frame c = read_completes rt alloc (Some (drop SIZE_HEADER frame)) c1"
  using assms by (simp add: receive_frame_def)

lemmas server_frames = input_frame_def reg_frame_def join_room_frame_def text_frame_def

lemmas client_handlers = do_read_input_response_def do_read_reg_response_def
  do_read_join_room_response_def do_read_echo_response_def client_async_read_pb_header_def
  set_login_id_def emit_def close_connection_def STATUS_OK_def STATUS_FAIL_def Let_def

lemma body_read_simps [simp]:
  "cl_signals (body_read d c) = cl_signals c" "cl_client_id (body_read d c) = cl_client_id c"
  "cl_open (body_read d c) = cl_open c" "cl_channels_history (body_read d c) = cl_channels_history c"
  "cl_reading (body_read d c) = Idle"
  by (simp_all add: body_read_def)

lemma login_answer_received:
  assumes "pb_runtime rt" and "cl_reading c = WaitHeader"
    and "Response_ByteSizeLong rt (create_input_response i) \<le> alloc"
  shows "\<exists>c'. receive_frame rt alloc (input_frame rt i) c = Inr c' \<and>
    (if i \<noteq> -1
     then cl_signals c' = cl_signals c @ [SendInputCode AutorOK] \<and> cl_client_id c' = i \<and>
       cl_reading c' = WaitHeader \<and> cl_open c' = cl_open c
     else cl_signals c' = cl_signals c @ [SendInputCode IncorrectAutor] \<and>
       cl_client_id c' = cl_client_id c \<and> cl_reading c' = Idle \<and> \<not> cl_open c')"
proof -
  obtain c1 where c1: "read_completes rt alloc (Some (take SIZE_HEADER (input_frame rt i))) c = Inr c1"
    "cl_reading c1 = reading_for AutorisationResponse" "cl_signals c1 = cl_signals c"
    "cl_client_id c1 = cl_client_id c" "cl_open c1 = cl_open c"
    "\<And>c'. parse_response rt (body_read (drop SIZE_HEADER (input_frame rt i)) c') = (True, create_input_response i)"
    using frame_received [OF assms(1) response_factory_wf(1) response_factory_has(1) _ assms(3,2),
        of AutorisationResponse "input_frame rt i"]
    by (auto simp: server_frames Let_def)
  show ?thesis
    unfolding received_eq [OF c1(1)]
    by (simp add: read_completes_def c1 reading_for_def client_handlers)
qed

text \<open>A client that waits for a header and gets the answer to its login announces success, takes
  over the identifier and reads on when the identifier is not -1; otherwise it announces the failure
  and closes the connection.\<close>

theorem client_reads_login_answer:
  assumes "pb_runtime rt" and "cl_reading c = WaitHeader"
    and "Response_ByteSizeLong rt (create_input_response i) \<le> alloc"
  shows "\<exists>c'. receive_frame rt alloc (input_frame rt i) c = Inr c' \<and>
    (if i \<noteq> -1
     then cl_signals c' = cl_signals c @ [SendInputCode AutorOK] \<and> cl_client_id c' = i \<and>
       cl_reading c' = WaitHeader \<and> cl_open c' = cl_open c
     else cl_signals c' = cl_signals c @ [SendInputCode IncorrectAutor] \<and>
       cl_client_id c' = cl_client_id c \<and> cl_reading c' = Idle \<and> \<not> cl_open c')"
  using assms by (rule login_answer_received)

text \<open>A client that gets the answer to a successful registration announces success and reads on,
  but takes its identifier from the slot of the login answer, which is not set: it is 0, whatever
  identifier the server gave.\<close>

theorem client_registration_identifier_lost:
  assumes "pb_runtime rt" and "cl_reading c = WaitHeader" and "i \<noteq> -1"
    and "Response_ByteSizeLong rt (create_reg_response i) \<le> alloc"
  shows "\<exists>c'. receive_frame rt alloc (reg_frame rt i) c = Inr c' \<and>
    cl_signals c' = cl_signals c @ [SendInputCode RegistrOK] \<and> cl_reading c' = WaitHeader \<and>
    cl_client_id c' = 0"
proof -
  obtain c1 where c1: "read_completes rt alloc (Some (take SIZE_HEADER (reg_frame rt i))) c = Inr c1"
    "cl_reading c1 = reading_for RegistrationResponse" "cl_signals c1 = cl_signals c"
    "\<And>c'. parse_response rt (body_read (drop SIZE_HEADER (reg_frame rt i)) c') = (True, create_reg_response i)"
    using frame_received [OF assms(1) response_factory_wf(2) response_factory_has(2) _ assms(4,2),
        of RegistrationResponse "reg_frame rt i"]
    by (auto simp: server_frames Let_def)
  show ?thesis
    unfolding received_eq [OF c1(1)]
    using assms(3)
    by (simp add: read_completes_def c1 reading_for_def client_handlers InputResponse_SharedCtor_def)
qed

lemma text_received:
  assumes "pb_runtime rt" and "cl_reading c = WaitHeader" and "str_ok rt l" and "str_ok rt t"
    and "Response_ByteSizeLong rt (create_text_response l r t) \<le> alloc"
  shows "\<exists>c'. receive_frame rt alloc (text_frame rt l t r) c = Inr c' \<and>
    (\<forall>room. fst (client_get_history room c') = fst (client_get_history room c) @
      (if room = r then [\<lparr>cm_author = l, cm_text = t, cm_channel_id = r, cm_dt = DateTime_default\<rparr>] else [])) \<and>
    cl_signals c' = cl_signals c @
      [SendText \<lparr>cm_author = l, cm_text = t, cm_channel_id = r, cm_dt = DateTime_default\<rparr>] \<and>
    cl_reading c' = WaitHeader"
proof -
  obtain c1 where c1: "read_completes rt alloc (Some (take SIZE_HEADER (text_frame rt l t r))) c = Inr c1"
    "cl_reading c1 = reading_for EchoResponse" "cl_signals c1 = cl_signals c"
    "cl_channels_history c1 = cl_channels_history c"
    "\<And>c'. parse_response rt (body_read (drop SIZE_HEADER (text_frame rt l t r)) c') =
      (True, create_text_response l r t)"
    using frame_received [OF assms(1) response_factory_wf(3) [OF assms(3,4)] response_factory_has(3) _ assms(5,2),
        of EchoResponse "text_frame rt l t r"]
    by (auto simp: server_frames Let_def)
  show ?thesis
    unfolding received_eq [OF c1(1)]
    by (simp add: read_completes_def c1 reading_for_def client_handlers client_get_history_eq um_simps
        split: option.split)
qed

text \<open>A client that gets a text frame appends the message to the history of its room and to no
  other, hands it to the window, and reads on.\<close>

theorem client_receives_text:
  assumes "pb_runtime rt" and "cl_reading c = WaitHeader" and "str_ok rt l" and "str_ok rt t"
    and "Response_ByteSizeLong rt (create_text_response l r t) \<le> alloc"
  shows "\<exists>c'. receive_frame rt alloc (text_frame rt l t r) c = Inr c' \<and>
    (\<forall>room. fst (client_get_history room c') = fst (client_get_history room c) @
      (if room = r then [\<lparr>cm_author = l, cm_text = t, cm_channel_id = r, cm_dt = DateTime_default\<rparr>] else [])) \<and>
    cl_signals c' = cl_signals c @
      [SendText \<lparr>cm_author = l, cm_text = t, cm_channel_id = r, cm_dt = DateTime_default\<rparr>] \<and>
    cl_reading c' = WaitHeader"
  using assms by (rule text_received)

text \<open>A client that gets a frame with any command beside the four responses, a request of its own
  kind among them, starts no read any more: whatever the socket brings then is not looked at.\<close>

theorem client_unknown_command_stops_reading:
  assumes "cl_reading c = WaitHeader" and "length block = SIZE_HEADER"
    and "ParseFromArray (Header_InternalParse rt) Header_SharedCtor block = (True, h)"
    and "unat (hdr_length h) \<le> alloc"
    and "TypeCommand_cast (hdr_command h) \<notin>
      {AutorisationResponse, RegistrationResponse, EchoResponse, JoinRoomResponseCmd}"
  shows "\<exists>c'. read_completes rt alloc (Some block) c = Inr c' \<and> cl_reading c' = Idle \<and>
    (\<forall>outcome. read_completes rt alloc outcome c' = Inr c')"
  using assms
  by (simp add: read_completes_def do_read_pb_header_def async_read_pb_msg_reading reading_for_def)

text \<open>For every sequence of requests and completed writes on a client with an empty queue, the
  requests are begun in the order in which they were queued, one at a time, and completing what is in
  the queue writes all of them.\<close>

theorem client_writes_in_order:
  assumes "cl_queue c = []" and "c' = fold client_queue.occur es c"
  shows "client_queued c' @ tl (cl_queue c') = client_queued c @ pushed es \<and>
    (\<exists>completed. client_queued c' = completed @ take 1 (cl_queue c')) \<and>
    (let d = (msg_written ^^ length (cl_queue c')) c'
     in cl_queue d = [] \<and> client_queued d = client_queued c @ pushed es)"
proof -
  have "client_queue.outbox c' = client_queued c @ pushed es"
    using client_queue.outbox_run [of es c] assms by (simp add: client_queue.outbox_def)
  moreover have "client_queue.in_order c (client_queued c)"
    using assms(1) by (simp add: client_queue.in_order_def)
  then have "\<exists>completed. client_queue.in_order c' completed"
    using client_queue.in_order_run [of c "client_queued c" es] assms(2) by auto
  ultimately show ?thesis
    using client_queue.drain [of c'] by (simp add: client_queue.outbox_def client_queue.in_order_def Let_def)
qed

section \<open>Concrete runs of the client\<close>

definition demo_client :: client where
  "demo_client = (Client_ctor 77 [])\<lparr>cl_login := ''ann'', cl_reading := WaitHeader, cl_open := True\<rparr>"

lemma demo_client_waits: "cl_reading demo_client = WaitHeader"
  by (simp add: demo_client_def)

theorem client_writes_in_order_witness:
  "client_queued (fold client_queue.occur [Push [1], Push [2], Written] demo_client) @
    tl (cl_queue (fold client_queue.occur [Push [1], Push [2], Written] demo_client)) =
    client_queued demo_client @ [[1], [2]]"
  using client_writes_in_order [of demo_client, OF _ refl, of "[Push [1], Push [2], Written]"]
  by (simp add: demo_client_def Client_ctor_def)

theorem client_reads_login_answer_witness:
  "\<exists>alloc c'. receive_frame std_rt alloc (input_frame std_rt 5) demo_client = Inr c' \<and> cl_client_id c' = 5"
  using client_reads_login_answer [OF std.pb_runtime_axioms demo_client_waits order_refl, of 5] by auto

theorem client_registration_identifier_lost_witness:
  "\<exists>alloc c'. receive_frame std_rt alloc (reg_frame std_rt 5) demo_client = Inr c' \<and> cl_client_id c' = 0"
  using client_registration_identifier_lost [OF std.pb_runtime_axioms demo_client_waits _ order_refl, of 5] by auto

theorem client_receives_text_witness:
  "\<exists>alloc c'. receive_frame std_rt alloc (text_frame std_rt ''bob'' ''hi'' 7) demo_client = Inr c' \<and>
    fst (client_get_history 7 c') =
      [\<lparr>cm_author = ''bob'', cm_text = ''hi'', cm_channel_id = 7, cm_dt = DateTime_default\<rparr>]"
proof -
  have "fst (client_get_history 7 demo_client) = []"
    by (simp add: client_get_history_eq demo_client_def Client_ctor_def)
  then show ?thesis
    using client_receives_text [OF std.pb_runtime_axioms demo_client_waits _ _ order_refl, of "''bob''" "''hi''" 7]
    by (fastforce simp: std_str_ok)
qed

theorem client_unknown_command_stops_reading_witness:
  "\<exists>c'. read_completes std_rt 100 (Some (Header_InternalSerialize std_rt
      \<lparr>hdr_version = 1, hdr_command = 5, hdr_length = 10, hdr_unknown = []\<rparr>)) demo_client = Inr c' \<and>
    read_completes std_rt 100 (Some (replicate 19 0)) c' = Inr c'"
proof -
  let ?h = "\<lparr>hdr_version = 1, hdr_command = 5, hdr_length = 10, hdr_unknown = []\<rparr>"
  have "length (Header_InternalSerialize std_rt ?h) = SIZE_HEADER"
    by (rule std.header_full_length) (simp add: header_full_def)
  moreover have "ParseFromArray (Header_InternalParse std_rt) Header_SharedCtor (Header_InternalSerialize std_rt ?h) =
      (True, ?h)"
    by (rule std.header_parse) simp
  ultimately show ?thesis
    using client_unknown_command_stops_reading [OF demo_client_waits, of _ std_rt ?h 100]
    by (force simp: TypeCommand_cast_def)
qed

section \<open>A login, from the client's frame to the client's answer\<close>

lemma parse_header_untouched:
  assumes "do_parse_pb_header rt alloc p (Some block) s = Inr s1"
  shows "manager s1 = manager s" "database s1 = database s" "tasks s1 = tasks s"
    "cn_started (conns s1 q) = cn_started (conns s q)" "cn_queue (conns s1 q) = cn_queue (conns s q)"
  using assms
  by (auto simp: do_parse_pb_header_def Let_def split_beta async_read_pb_header_def split: if_splits)

lemma body_handler_untouched:
  "manager (body_handler rt h p d s) = manager s" "database (body_handler rt h p d s) = database s"
  "cn_started (conns (body_handler rt h p d s) q) = cn_started (conns s q)"
  "cn_queue (conns (body_handler rt h p d s) q) = cn_queue (conns s q)"
  by (auto simp: body_handler_def process_msg_def Let_def split_beta async_read_pb_header_def
      split: TypeCommand.split)

lemma login_runs:
  assumes "pb_runtime rt" and "sqlite_laws eng logins history intact" and "open_db s h db"
    and "accounts_ok (logins h)" and "\<And>q. account (logins h) l \<noteq> Some (-1, q)"
    and "plain l" and "plain pw" and "str_ok rt l" and "str_ok rt pw"
    and "Request_ByteSizeLong rt (create_input_request l pw) \<le> alloc"
    and "frame = serialize_request rt (create_header AuthorisationRequest n) (create_input_request l pw)"
    and "cl_reading c = WaitHeader"
    and "Response_ByteSizeLong rt (create_input_response (login_answer (logins h) l pw)) \<le> calloc" and "intact h"
  shows "\<exists>hdr s1 s2 i s3 f c'.
    do_parse_pb_header rt alloc p (Some (take SIZE_HEADER frame)) s = Inr s1 \<and>
    tasks (body_handler rt hdr p (drop SIZE_HEADER frame) s1) =
      tasks s @ [DoAutorisation p (create_input_request l pw)] \<and>
    run_task rt eng fmt02 (DoAutorisation p (create_input_request l pw))
      ((body_handler rt hdr p (drop SIZE_HEADER frame) s1)\<lparr>tasks := tasks s\<rparr>) = Inr s2 \<and>
    tasks s2 = tasks s @ [SendAutoResponse p i] \<and>
    run_task rt eng fmt02 (SendAutoResponse p i) (s2\<lparr>tasks := tasks s\<rparr>) = Inr s3 \<and>
    cn_started (conns s3 p) = cn_started (conns s p) @ [Direct f] \<and>
    receive_frame rt calloc f c = Inr c' \<and>
    cl_signals c' = cl_signals c @
      [SendInputCode (if \<exists>i. account (logins h) l = Some (i, pw) then AutorOK else IncorrectAutor)]"
proof -
  let ?r = "create_input_request l pw"
  let ?i = "login_answer (logins h) l pw"
  obtain hdr s1 where s1: "do_parse_pb_header rt alloc p (Some (take SIZE_HEADER frame)) s = Inr s1"
    "tasks (body_handler rt hdr p (drop SIZE_HEADER frame) s1) = tasks s @ [DoAutorisation p ?r]"
    using request_frame_posts [OF assms(1) request_factory_wf(1) [OF assms(8,9)] request_factory_has(1) _ assms(10),
        of AuthorisationRequest p n s] assms(11)
    by (auto simp: task_for_def)
  let ?sb = "(body_handler rt hdr p (drop SIZE_HEADER frame) s1)\<lparr>tasks := tasks s\<rparr>"
  have db: "open_db ?sb h db"
    using assms(3) by (simp add: body_handler_untouched parse_header_untouched [OF s1(1)])
  let ?s2 = "post (SendAutoResponse p ?i)
      (on_conn p (\<lambda>c. c\<lparr>cn_login := l, cn_password := pw, cn_client_id := ?i\<rparr>) ?sb)"
  let ?s3 = "on_conn p (send_auto_response rt ?i) (?s2\<lparr>tasks := tasks s\<rparr>)"
  have s2: "run_task rt eng fmt02 (DoAutorisation p ?r) ?sb = Inr ?s2"
    using do_autorisation_answer [OF assms(2) db assms(4,6,7,14), of rt p] by simp
  have s3: "cn_started (conns ?s3 p) = cn_started (conns s p) @ [Direct (input_frame rt ?i)]"
    by (simp add: send_auto_response_def start_direct_def body_handler_untouched
        parse_header_untouched [OF s1(1)])
  obtain c' where c': "receive_frame rt calloc (input_frame rt ?i) c = Inr c'"
    "cl_signals c' = cl_signals c @ [SendInputCode (if ?i \<noteq> -1 then AutorOK else IncorrectAutor)]"
    using login_answer_received [OF assms(1,12) assms(13)] by (auto split: if_splits)
  have "?i \<noteq> -1 \<longleftrightarrow> (\<exists>i. account (logins h) l = Some (i, pw))"
    using assms(5) by (auto simp: login_answer_def split: option.splits)
  with c' s1 s2 s3 show ?thesis
    by (intro exI [of _ hdr] exI [of _ s1] exI [of _ ?s2] exI [of _ ?i] exI [of _ ?s3]
        exI [of _ "input_frame rt ?i"] exI [of _ c']) simp
qed

text \<open>The whole way of a login. The frame that the client builds makes the server post a task;
  the task, run with whatever else is queued, posts a response; the response is written as a frame;
  and the client that reads this frame announces success exactly when the login is registered with
  that password.\<close>

theorem login_end_to_end:
  assumes "pb_runtime rt" and "sqlite_laws eng logins history intact" and "open_db s h db"
    and "accounts_ok (logins h)" and "\<And>q. account (logins h) l \<noteq> Some (-1, q)"
    and "plain l" and "plain pw" and "str_ok rt l" and "str_ok rt pw"
    and "Request_ByteSizeLong rt (create_input_request l pw) \<le> alloc"
    and "frame = serialize_request rt (create_header AuthorisationRequest n) (create_input_request l pw)"
    and "cl_reading c = WaitHeader"
    and "Response_ByteSizeLong rt (create_input_response (login_answer (logins h) l pw)) \<le> calloc" and "intact h"
  shows "\<exists>hdr s1 s2 i s3 f c'.
    do_parse_pb_header rt alloc p (Some (take SIZE_HEADER frame)) s = Inr s1 \<and>
    tasks (body_handler rt hdr p (drop SIZE_HEADER frame) s1) =
      tasks s @ [DoAutorisation p (create_input_request l pw)] \<and>
    run_task rt eng fmt02 (DoAutorisation p (create_input_request l pw))
      ((body_handler rt hdr p (drop SIZE_HEADER frame) s1)\<lparr>tasks := tasks s\<rparr>) = Inr s2 \<and>
    tasks s2 = tasks s @ [SendAutoResponse p i] \<and>
    run_task rt eng fmt02 (SendAutoResponse p i) (s2\<lparr>tasks := tasks s\<rparr>) = Inr s3 \<and>
    cn_started (conns s3 p) = cn_started (conns s p) @ [Direct f] \<and>
    receive_frame rt calloc f c = Inr c' \<and>
    cl_signals c' = cl_signals c @
      [SendInputCode (if \<exists>i. account (logins h) l = Some (i, pw) then AutorOK else IncorrectAutor)]"
  using assms by (rule login_runs)

text \<open>The run of the witness: the frame of a login, on a server that knows the account.\<close>

definition demo_login :: bytes where
  "demo_login = serialize_request std_rt (create_header AuthorisationRequest 0) (create_input_request ''ann'' ''pw'')"

theorem login_end_to_end_witness:
  "\<exists>alloc calloc hdr s1 s2 i s3 f c'.
    do_parse_pb_header std_rt alloc 0 (Some (take SIZE_HEADER demo_login)) (demo_server [(''ann'', 5, ''pw'')] []) = Inr s1 \<and>
    run_task std_rt mini_engine std_fmt02 (DoAutorisation 0 (create_input_request ''ann'' ''pw''))
      ((body_handler std_rt hdr 0 (drop SIZE_HEADER demo_login) s1)\<lparr>tasks := tasks (demo_server [(''ann'', 5, ''pw'')] [])\<rparr>) =
      Inr s2 \<and>
    run_task std_rt mini_engine std_fmt02 (SendAutoResponse 0 i)
      (s2\<lparr>tasks := tasks (demo_server [(''ann'', 5, ''pw'')] [])\<rparr>) = Inr s3 \<and>
    cn_started (conns s3 0) = cn_started (conns (demo_server [(''ann'', 5, ''pw'')] []) 0) @ [Direct f] \<and>
    receive_frame std_rt calloc f demo_client = Inr c' \<and>
    cl_signals c' = cl_signals demo_client @ [SendInputCode AutorOK]"
proof -
  let ?h = "([(''ann'', 5 :: int32, ''pw'')], [] :: entry list)"
  have ok: "accounts_ok (fst ?h)" and acc: "\<exists>i. account (fst ?h) ''ann'' = Some (i, ''pw'')"
    by (simp_all add: accounts_ok_def account_def)
  have ne: "account (fst ?h) ''ann'' \<noteq> Some (-1, q)" for q
    by (simp add: account_def)
  have str: "str_ok std_rt ''ann''" "str_ok std_rt ''pw''" and pl: "plain ''ann''" "plain ''pw''"
    by (simp_all add: std_str_ok)
  from login_end_to_end [OF std.pb_runtime_axioms mini.sqlite_laws_axioms, OF demo_open, OF ok ne pl str
      order_refl demo_login_def demo_client_waits order_refl TrueI, of 0 std_fmt02]
  obtain hdr s1 s2 i s3 f c' where r:
    "do_parse_pb_header std_rt (Request_ByteSizeLong std_rt (create_input_request ''ann'' ''pw'')) 0
      (Some (take SIZE_HEADER demo_login)) (demo_server [(''ann'', 5, ''pw'')] []) = Inr s1"
    "run_task std_rt mini_engine std_fmt02 (DoAutorisation 0 (create_input_request ''ann'' ''pw''))
      ((body_handler std_rt hdr 0 (drop SIZE_HEADER demo_login) s1)\<lparr>tasks := tasks (demo_server [(''ann'', 5, ''pw'')] [])\<rparr>) =
      Inr s2"
    "run_task std_rt mini_engine std_fmt02 (SendAutoResponse 0 i)
      (s2\<lparr>tasks := tasks (demo_server [(''ann'', 5, ''pw'')] [])\<rparr>) = Inr s3"
    "cn_started (conns s3 0) = cn_started (conns (demo_server [(''ann'', 5, ''pw'')] []) 0) @ [Direct f]"
    "receive_frame std_rt
      (Response_ByteSizeLong std_rt (create_input_response (login_answer (fst ?h) ''ann'' ''pw''))) f demo_client = Inr c'"
    "cl_signals c' = cl_signals demo_client @ [SendInputCode
      (if \<exists>i. account (fst ?h) ''ann'' = Some (i, ''pw'') then AutorOK else IncorrectAutor)]"
    by blast
  have "cl_signals c' = cl_signals demo_client @ [SendInputCode AutorOK]"
    using r(6) unfolding if_P [OF acc] .
  then show ?thesis
    using r(1-5) by blast
qed

section \<open>A message, from one client to another\<close>




end
