(* ===== verification/ChatService.thy ===== *)
theory ChatService
  imports ChatRefinement EndToEnd
begin

text \<open>
  What the refinement gives for the running server: its reachable states are states of the service,
  rooms remember, and every message of a room reaches every member of the room, in the order of the
  room, on the wire and in the client that reads the wire.
\<close>

section \<open>The simulation\<close>

lemma chat_of_accept:
  "chat_of (scan_acception False i header s) =
    (chat_of s)\<lparr>ident := (ident (chat_of s))(length (pool s) := i),
      nick := (nick (chat_of s))(length (pool s) := []), handed := (handed (chat_of s))(length (pool s) := [])\<rparr>"
  by (intro chat_of_eqI) (simp_all add: scan_acception_def get_connection_def Let_def
      async_read_pb_header_def Connection_ctor_def frames_to_def conn_queue.outbox_def queued_started_def
      List.map_filter_def)

lemma served_step:
  assumes "server_step rt eng fmt02 alloc s s'" and "server_ok s"
  shows "served rt s s'"
  using assms
proof cases
  case (accept garbage_header error garbage_id)
  let ?p = "length (pool s)"
  have fresh: "members (chat_of s) r c \<noteq> Some ?p" for r c
  proof
    assume "members (chat_of s) r c = Some ?p"
    then have "?p \<in> set (pool s)"
      using server_okD(5) [OF assms(2)] by simp
    then show False
      using server_okD(3) [OF assms(2)] by (metis atLeastLessThan_iff less_irrefl set_upt)
  qed
  show ?thesis
  proof (cases error)
    case False
    then show ?thesis
      using chat_step.connect [OF fresh] by (simp add: accept chat_of_accept)
  qed (simp add: accept scan_acception_def chat_step.stay)
next
  case (header_read p outcome)
  then show ?thesis using served_header assms(2) by blast
next
  case (body_read p header data)
  then show ?thesis using served_body by simp
next
  case (run before t after)
  have "server_ok (s\<lparr>tasks := before @ after\<rparr>)"
    using assms(2) by (rule server_ok_same) (auto simp: run)
  then show ?thesis
    using served_task [OF _ run(2)] by simp
next
  case (queue_write p ok)
  show ?thesis
  proof (cases ok)
    case True
    have "cn_queue (conns s p) \<noteq> []"
      using server_okD(2) [OF assms(2), of p] queue_write(2) by (simp add: conn_ok_def)
    then have "chat_of (on_conn p queue_written s) = chat_of s"
      by (intro chat_of_on_conn conn_queue.outbox_written)
        (simp_all add: queue_written_def sending_msgs_to_client_def Let_def)
    then show ?thesis using True by (simp add: queue_write queue_write_handler_def chat_step.stay)
  next
    case False
    let ?s = "on_conn p (\<lambda>c. c\<lparr>cn_writing := False\<rparr>) s"
    have "server_ok ?s" using assms(2) by (rule server_ok_on_conn) simp
    then show ?thesis
      using served_free [where s = ?s and rt = rt and p = p] chat_of_on_conn [of "\<lambda>c. c\<lparr>cn_writing := False\<rparr>" s p] False
      by (simp add: queue_write queue_write_handler_def)
  qed
next
  case (direct_write p f ok)
  then show ?thesis
    using served_free [OF assms(2)] by (simp add: direct_write_handler_def chat_step.stay)
qed

lemma reach_ok: "server_reach rt eng fmt02 alloc db s \<Longrightarrow> server_ok s"
  by (induction rule: server_reach.induct) (auto intro: Server_ctor_ok server_step_ok)

lemma chat_of_start: "chat_of (Server_ctor db) = chat_init"
  by (intro chat_of_eqI) (simp_all add: chat_init_def Server_ctor_def Connection_ctor_def Manager_ctor_def
      subscribed_def fun_eq_iff frames_to_def conn_queue.outbox_def queued_started_def List.map_filter_def)

text \<open>C1: the server implements the chat service: every state that it can reach, whatever the order in
  which sockets, reads, writes and tasks of the pool occur and whatever the database answers, stands
  for a reachable state of the service, and every further step of the server is a step of the
  service.\<close>

theorem server_refines_chat_service:
  assumes "server_reach rt eng fmt02 alloc db s" and "server_step rt eng fmt02 alloc s s'"
  shows "chat_reach (message_frame rt) td_room_id joined left (chat_of s) \<and>
    chat_step (message_frame rt) td_room_id joined left (chat_of s) (chat_of s')"
proof
  show "chat_reach (message_frame rt) td_room_id joined left (chat_of s)"
    using assms(1)
  proof induction
    case start
    then show ?case by (simp add: chat_of_start chat_reach.init)
  next
    case (step s s')
    then show ?case by (blast intro: chat_reach.step served_step reach_ok)
  qed
  show "chat_step (message_frame rt) td_room_id joined left (chat_of s) (chat_of s')"
    using served_step [OF assms(2) reach_ok [OF assms(1)]] .
qed

theorem server_refines_chat_service_witness:
  "chat_step (message_frame std_rt) td_room_id joined left (chat_of (demo_server [] []))
     (chat_of (scan_acception False 9 (replicate 19 0) (demo_server [] [])))"
proof -
  have "server_step std_rt mini_engine std_fmt02 1000 (demo_server [] [])
      (scan_acception False 9 (replicate 19 0) (demo_server [] []))"
    by (rule server_step.accept) (simp add: SIZE_HEADER_eq)
  moreover have "server_reach std_rt mini_engine std_fmt02 1000 (Some (mini_db [] [])) (demo_server [] [])"
    unfolding demo_server_def by (rule server_reach.start)
  ultimately show ?thesis
    using server_refines_chat_service by blast
qed

section \<open>What a member receives\<close>

interpretation room: chat_service "message_frame rt" td_room_id joined left for rt
  by unfold_locales (simp_all add: joined_def left_def notice_def)

text \<open>A run of the server throughout which the connection \<open>p\<close> is the member \<open>c\<close> of the room \<open>r\<close>.\<close>

inductive attended :: "pb_rt \<Rightarrow> 'h sqlite \<Rightarrow> (nat \<Rightarrow> string) \<Rightarrow> nat \<Rightarrow> int32 \<Rightarrow> int32 \<Rightarrow> nat \<Rightarrow>
    'h server \<Rightarrow> 'h server \<Rightarrow> bool"
  for rt eng fmt02 alloc r c p s where
  present: "subscribed (manager s) r c = Some p \<Longrightarrow> attended rt eng fmt02 alloc r c p s s"
| remains: "\<lbrakk>attended rt eng fmt02 alloc r c p s s'; server_step rt eng fmt02 alloc s' s'';
      subscribed (manager s'') r c = Some p\<rbrakk> \<Longrightarrow> attended rt eng fmt02 alloc r c p s s''"

lemma attended_member: "attended rt eng fmt02 alloc r c p s s' \<Longrightarrow> subscribed (manager s') r c = Some p"
  by (induction rule: attended.induct) auto

lemma member_has_room: "subscribed m r c = Some p \<Longrightarrow> map_of (channels m) r \<noteq> None"
  by (auto simp: subscribed_def split: option.splits)

lemma attended_follows:
  assumes "attended rt eng fmt02 alloc r c p s s'" and "server_ok s"
  shows "room.follows rt r p (chat_of s) (chat_of s') \<and> server_ok s'"
  using assms
proof induction
  case present
  then show ?case by (simp add: room.follows_same)
next
  case (remains s' s'')
  have "room.follows rt r p (chat_of s') (chat_of s'')"
    using served_step [OF remains.hyps(2)] remains.IH remains.prems remains.hyps(3)
      attended_member [OF remains.hyps(1)] member_has_room [OF attended_member [OF remains.hyps(1)]]
    by (intro room.follows_step [where c = c]) auto
  then show ?case
    using remains.IH [OF remains.prems] server_step_ok [OF remains.hyps(2)]
    by (auto intro: room.follows_trans)
qed

lemma attended_receives:
  assumes "server_reach rt eng fmt02 alloc db s" and "attended rt eng fmt02 alloc r c p s s'"
  shows "\<exists>ds es. room_history (manager s') r = room_history (manager s) r @ ds \<and>
    (\<forall>d \<in> set ds. td_room_id d = r) \<and>
    frames_to (conns s') p = frames_to (conns s) p @ map (message_frame rt) es \<and> subseq ds es"
proof -
  have "subscribed (manager s) r c = Some p"
    using assms(2) by (induction rule: attended.induct) auto
  then obtain ch where ch: "map_of (channels (manager s)) r = Some ch"
    using member_has_room [of "manager s" r c p] by auto
  obtain ds es where "map_option history_room (map_of (channels (manager s')) r) = Some (history_room ch @ ds)"
    "\<forall>d \<in> set ds. td_room_id d = r"
    "frames_to (conns s') p = frames_to (conns s) p @ map (message_frame rt) es" "subseq ds es"
    using attended_follows [OF assms(2) reach_ok [OF assms(1)]] ch by (auto simp: room.follows_def)
  with ch show ?thesis
    by (intro exI [of _ ds] exI [of _ es]) (auto simp: room_history_def)
qed

text \<open>A frame that a client built, arriving on a connection that waits for one, takes the server two
  steps and leaves the task of its command.\<close>

lemma frame_arrives:
  assumes "pb_runtime rt" and "Request_wf rt req" and "Request_has_msg req" and "enumerator c"
    and "Request_ByteSizeLong rt req \<le> alloc" and "p \<in> set (pool s)" and "cn_reading (conns s p) = ReadHeader"
  shows "\<exists>s1 s2. server_step rt eng fmt02 alloc s s1 \<and> server_step rt eng fmt02 alloc s1 s2 \<and>
    tasks s2 = tasks s @ task_for c p req \<and> manager s1 = manager s \<and> manager s2 = manager s \<and>
    database s2 = database s \<and> pool s2 = pool s \<and> cn_reading (conns s2 p) = ReadHeader"
proof -
  let ?f = "serialize_request rt (create_header c 0) req"
  obtain h s1 where s1: "do_parse_pb_header rt alloc p (Some (take SIZE_HEADER ?f)) s = Inr s1"
    "cn_reading (conns s1 p) = ReadBody h" "unat (hdr_length h) = length (drop SIZE_HEADER ?f)"
    "tasks (body_handler rt h p (drop SIZE_HEADER ?f) s1) = tasks s @ task_for c p req"
    "cn_reading (conns (body_handler rt h p (drop SIZE_HEADER ?f) s1) p) = ReadHeader"
    using request_frame_posts [OF assms(1-5), of p 0 s] by auto
  have pool: "pool s1 = pool s" "pool (body_handler rt h p (drop SIZE_HEADER ?f) s1) = pool s1"
    using s1(1) by (auto simp: do_parse_pb_header_def body_handler_def process_msg_def Let_def split_beta
        split: if_splits TypeCommand.split)
  have "length (take SIZE_HEADER ?f) = SIZE_HEADER"
    using pb_runtime.request_frame [OF assms(1-4), of 0] by simp
  then have "server_step rt eng fmt02 alloc s s1"
    using assms(6,7) s1(1) by (intro server_step.header_read) simp_all
  moreover have "server_step rt eng fmt02 alloc s1 (body_handler rt h p (drop SIZE_HEADER ?f) s1)"
    using assms(6) s1(2,3) pool(1) by (intro server_step.body_read) simp_all
  ultimately show ?thesis
    using s1(4,5) pool parse_header_untouched [OF s1(1)]
    by (intro exI [of _ s1] exI [of _ "body_handler rt h p (drop SIZE_HEADER ?f) s1"])
      (simp add: body_handler_untouched)
qed

lemma last_task_runs:
  assumes "tasks s = ts @ [t]" and "run_task rt eng fmt02 t (s\<lparr>tasks := ts\<rparr>) = Inr s'"
  shows "server_step rt eng fmt02 alloc s s'"
  using assms by (intro server_step.run [of s ts t "[]"]) simp_all

lemma join_enters:
  assumes "sqlite_laws eng logins history intact" and "open_db s h db" and "intact h" and "history_ok (history h)"
    and "manager s = Manager_ctor"
  shows "\<exists>s' c. do_join_room rt eng p (join_room_request r) s = Inr s' \<and> subscribed (manager s') r c = Some p \<and>
    database s' = Some db \<and> pool s' = pool s \<and> cn_reading (conns s' p) = cn_reading (conns s p)"
proof -
  let ?sub = "connection_subscriber rt"
  obtain ms where ms: "get_history eng r db = Inr (ms, db)"
    using sqlite_laws.get_history_open [OF assms(1) _ assms(3,4)] assms(2) by blast
  have "map_of (channels (manager s)) r = None"
    by (simp add: assms(5) Manager_ctor_def)
  then obtain flag m w where j: "Manager_join ?sub eng p r (database s) (manager s, conns s) = Inr (flag, Some db, m, w)"
    using assms(2) ms by (simp add: Manager_join_def Channel_ctor_def Let_def split_beta)
  have "subscribed m r (cn_client_id (conns s p)) = Some p"
    using conn.join_membership(2) [OF _ j, of r "cn_client_id (conns s p)"] assms(5)
    by (simp add: subscribed_def Manager_ctor_def manager_ok_ctor [unfolded Manager_ctor_def])
  moreover have "kept_by_calls ?sub (\<lambda>w. cn_reading (w p) = cn_reading (conns s p))"
    by (auto simp: kept_by_calls_def connection_subscriber_def send_msg_to_client_def)
  then have "cn_reading (w p) = cn_reading (conns s p)"
    using kept_join [OF _ _ j, of "\<lambda>w. cn_reading (w p) = cn_reading (conns s p)"] by simp
  ultimately show ?thesis
    using join_channel_eq [OF j] by auto
qed

lemma text_keeps_members:
  assumes "do_text_msg rt eng fmt02 p req s = Inr s'"
  shows "subscribed (manager s') = subscribed (manager s)"
  using assms
  by (auto simp: do_text_msg_def deliver_and_save_def Let_def split_beta fun_eq_iff conn.send_simps
      split: if_splits option.splits)

text \<open>A concrete run: a connection joins the room 7 and sends a message to it.\<close>

definition demo_hi :: TextSendData where
  "demo_hi = \<lparr>td_room_id = 7, td_login = ''eve'', td_text = ''hi''\<rparr>"

lemma demo_run:
  "\<exists>s s' c. server_reach std_rt mini_engine std_fmt02 2000000000 (Some (mini_db [] [])) s \<and>
    attended std_rt mini_engine std_fmt02 2000000000 7 c 0 s s' \<and>
    room_history (manager s') 7 = room_history (manager s) 7 @ [demo_hi]"
proof -
  let ?reach = "server_reach std_rt mini_engine std_fmt02 2000000000 (Some (mini_db [] []))"
  let ?att = "attended std_rt mini_engine std_fmt02 2000000000 7"
  let ?s0 = "scan_acception False 9 (replicate 19 0) (demo_server [] [])"
  let ?j = "join_room_request 7" and ?t = "create_text_request ''eve'' 7 ''hi''"
  have r0: "?reach ?s0"
    unfolding demo_server_def
    by (rule server_reach.step [OF server_reach.start server_step.accept]) (simp add: SIZE_HEADER_eq)
  have s0: "pool ?s0 = [0]" "cn_reading (conns ?s0 0) = ReadHeader" "manager ?s0 = Manager_ctor"
    "database ?s0 = Some (mini_db [] [])" "tasks ?s0 = []"
    by (simp_all add: scan_acception_def get_connection_def demo_server_def Server_ctor_def Let_def
        async_read_pb_header_def)
  have req: "Request_wf std_rt ?j" "Request_has_msg ?j" "Request_ByteSizeLong std_rt ?j \<le> 2000000000"
    "Request_wf std_rt ?t" "Request_has_msg ?t" "Request_ByteSizeLong std_rt ?t \<le> 2000000000"
    "enumerator JoinRoomRequestCmd" "enumerator EchoRequest"
    using pb_runtime.Request_small [OF std.pb_runtime_axioms, of ?j]
      pb_runtime.Request_small [OF std.pb_runtime_axioms, of ?t]
    by (simp_all add: wire_simps std_str_ok)
  obtain s1 s2 where s2: "server_step std_rt mini_engine std_fmt02 2000000000 ?s0 s1"
    "server_step std_rt mini_engine std_fmt02 2000000000 s1 s2" "tasks s2 = [] @ [DoJoinRoom 0 ?j]"
    "manager s2 = Manager_ctor" "database s2 = Some (mini_db [] [])" "pool s2 = [0]" "cn_reading (conns s2 0) = ReadHeader"
    using frame_arrives [OF std.pb_runtime_axioms req(1,2,7,3), of 0 ?s0 mini_engine std_fmt02] s0
    by (auto simp: task_for_def)
  obtain s3 c where s3: "do_join_room std_rt mini_engine 0 ?j (s2\<lparr>tasks := []\<rparr>) = Inr s3"
    "subscribed (manager s3) 7 c = Some 0" "database s3 = Some (mini_db [] [])" "pool s3 = [0]"
    "cn_reading (conns s3 0) = ReadHeader"
    using join_enters [OF mini.sqlite_laws_axioms, where s = "s2\<lparr>tasks := []\<rparr>" and h = "([], [])"
        and db = "mini_db [] []" and rt = std_rt and p = 0 and r = 7] s2
    by (auto simp: mini_db_def history_ok_def)
  have "server_step std_rt mini_engine std_fmt02 2000000000 s2 s3"
    using s3(1) by (intro last_task_runs [OF s2(3)]) simp
  then have r3: "?reach s3"
    by (rule server_reach.step [OF server_reach.step [OF server_reach.step [OF r0 s2(1)] s2(2)]])
  obtain s4 s5 where s5: "server_step std_rt mini_engine std_fmt02 2000000000 s3 s4"
    "server_step std_rt mini_engine std_fmt02 2000000000 s4 s5" "tasks s5 = tasks s3 @ [DoTextMsg 0 ?t]"
    "manager s4 = manager s3" "manager s5 = manager s3" "database s5 = Some (mini_db [] [])"
    using frame_arrives [OF std.pb_runtime_axioms req(4,5,8,6), of 0 s3 mini_engine std_fmt02] s3
    by (auto simp: task_for_def)
  obtain s6 where s6: "do_text_msg std_rt mini_engine std_fmt02 0 ?t (s5\<lparr>tasks := tasks s3\<rparr>) = Inr s6"
    "room_history (manager s6) 7 = room_history (manager s3) 7 @ [demo_hi]"
    using do_text_msg_delivers [OF mini.sqlite_laws_axioms std_format.boost_format_axioms,
        where s = "s5\<lparr>tasks := tasks s3\<rparr>" and h = "([], [])" and db = "mini_db [] []" and l = "''eve''"
        and t = "''hi''" and rt = std_rt and p = 0 and r = 7] s5(5,6)
      member_has_room [OF s3(2)]
    by (fastforce simp: mini_db_def demo_hi_def)
  have "?att c 0 s3 s3"
    using s3(2) by (rule attended.present)
  then have "?att c 0 s3 s4"
    by (rule attended.remains [OF _ s5(1)]) (simp add: s5(4) s3(2))
  then have "?att c 0 s3 s5"
    by (rule attended.remains [OF _ s5(2)]) (simp add: s5(5) s3(2))
  moreover have "server_step std_rt mini_engine std_fmt02 2000000000 s5 s6"
    using s6(1) by (intro last_task_runs [OF s5(3)]) simp
  ultimately have "?att c 0 s3 s6"
    by (rule attended.remains) (simp add: text_keeps_members [OF s6(1)] s5(5) s3(2))
  with r3 s6(2) show ?thesis by blast
qed

text \<open>As long as a connection is a member of a room, whatever else the server does in between,
  every message that the room records is put into the outgoing queue of the connection, in the order
  in which the room recorded them: two members of a room never see its messages in different
  orders, and miss none.\<close>

theorem member_receives_room_in_order:
  assumes "server_reach rt eng fmt02 alloc db s" and "attended rt eng fmt02 alloc r c p s s'"
  shows "\<exists>ds es. room_history (manager s') r = room_history (manager s) r @ ds \<and>
    frames_to (conns s') p = frames_to (conns s) p @ map (message_frame rt) es \<and> subseq ds es"
  using attended_receives [OF assms] by blast

theorem member_receives_room_in_order_witness:
  "\<exists>s s' es. room_history (manager s') 7 = room_history (manager s) 7 @ [demo_hi] \<and>
    frames_to (conns (s' :: mini server)) 0 = frames_to (conns (s :: mini server)) 0 @
      map (message_frame std_rt) es \<and> subseq [demo_hi] es"
proof -
  obtain s s' c where run: "server_reach std_rt mini_engine std_fmt02 2000000000 (Some (mini_db [] [])) s"
    "attended std_rt mini_engine std_fmt02 2000000000 7 c 0 s s'"
    "room_history (manager s') 7 = room_history (manager s) 7 @ [demo_hi]"
    using demo_run by blast
  from member_receives_room_in_order [OF run(1,2)] run(3) show ?thesis by auto
qed

section \<open>What a member reads\<close>

text \<open>The client's end of the connection: it reads whole frames, one after the other.\<close>

definition receive_frames :: "pb_rt \<Rightarrow> nat \<Rightarrow> bytes list \<Rightarrow> client \<Rightarrow> client result" where
  "receive_frames rt alloc fs c = fold (\<lambda>f r. and_then r (receive_frame rt alloc f)) fs (Inr c)"

definition shown :: "TextSendData \<Rightarrow> ClientTextMsg" where
  "shown d = \<lparr>cm_author = td_login d, cm_text = td_text d, cm_channel_id = td_room_id d, cm_dt = DateTime_default\<rparr>"

definition travels :: "pb_rt \<Rightarrow> nat \<Rightarrow> TextSendData \<Rightarrow> bool" where
  "travels rt alloc d \<longleftrightarrow> str_ok rt (td_login d) \<and> str_ok rt (td_text d) \<and>
     Response_ByteSizeLong rt (create_text_response (td_login d) (td_room_id d) (td_text d)) \<le> alloc"

lemma texts_received:
  assumes "pb_runtime rt" and "cl_reading b = WaitHeader" and "list_all (travels rt alloc) es"
  shows "\<exists>b'. receive_frames rt alloc (map (message_frame rt) es) b = Inr b' \<and> cl_reading b' = WaitHeader \<and>
    (\<forall>room. fst (client_get_history room b') = fst (client_get_history room b) @
      map shown (filter (\<lambda>d. td_room_id d = room) es))"
  using assms(2,3)
proof (induction es arbitrary: b)
  case (Cons d es)
  obtain b1 where b1: "receive_frame rt alloc (message_frame rt d) b = Inr b1" "cl_reading b1 = WaitHeader"
    "\<And>room. fst (client_get_history room b1) = fst (client_get_history room b) @
      (if room = td_room_id d then [shown d] else [])"
    using text_received [OF assms(1) Cons.prems(1), of "td_login d" "td_text d" "td_room_id d" alloc]
      Cons.prems(2) by (auto simp: travels_def message_frame_def shown_def)
  show ?case
    using Cons.IH [OF b1(2)] Cons.prems(2) b1(1,3) by (auto simp: receive_frames_def)
qed (simp add: receive_frames_def)

text \<open>And the client that reads the connection shows them: when it has read what was put into the
  queue since, the history of the channel that it shows has grown by messages that hold everything
  the room recorded, in the order of the room.\<close>

theorem member_shows_room_in_order:
  assumes "pb_runtime rt" and "server_reach rt eng fmt02 alloc db s"
    and "attended rt eng fmt02 alloc r c p s s'" and "cl_reading b = WaitHeader"
  shows "\<exists>ds es. room_history (manager s') r = room_history (manager s) r @ ds \<and>
    frames_to (conns s') p = frames_to (conns s) p @ map (message_frame rt) es \<and>
    (list_all (travels rt calloc) es \<longrightarrow>
      (\<exists>b' new. receive_frames rt calloc (map (message_frame rt) es) b = Inr b' \<and>
        fst (client_get_history r b') = fst (client_get_history r b) @ map shown new \<and> subseq ds new))"
proof -
  obtain ds es where d: "room_history (manager s') r = room_history (manager s) r @ ds"
    "\<forall>d \<in> set ds. td_room_id d = r"
    "frames_to (conns s') p = frames_to (conns s) p @ map (message_frame rt) es" "subseq ds es"
    using attended_receives [OF assms(2,3)] by blast
  have "subseq ds (filter (\<lambda>d. td_room_id d = r) es)"
    using subseq_filter [OF d(4), of "\<lambda>d. td_room_id d = r"] d(2) by simp
  with d(1,3) texts_received [OF assms(1,4), of calloc es] show ?thesis by blast
qed

theorem member_shows_room_in_order_witness:
  "\<exists>(s :: mini server) (s' :: mini server) es. room_history (manager s') 7 = room_history (manager s) 7 @ [demo_hi] \<and>
    frames_to (conns s') 0 = frames_to (conns s) 0 @ map (message_frame std_rt) es \<and>
    (list_all (travels std_rt 2000000000) es \<longrightarrow>
      (\<exists>b' new. receive_frames std_rt 2000000000 (map (message_frame std_rt) es) demo_client = Inr b' \<and>
        fst (client_get_history 7 b') = fst (client_get_history 7 demo_client) @ map shown new \<and>
        subseq [demo_hi] new))"
proof -
  obtain s s' c where run: "server_reach std_rt mini_engine std_fmt02 2000000000 (Some (mini_db [] [])) s"
    "attended std_rt mini_engine std_fmt02 2000000000 7 c 0 s s'"
    "room_history (manager s') 7 = room_history (manager s) 7 @ [demo_hi]"
    using demo_run by blast
  from member_shows_room_in_order [OF std.pb_runtime_axioms run(1,2) demo_client_waits, of 2000000000]
  obtain ds es where d: "room_history (manager s') 7 = room_history (manager s) 7 @ ds"
    "frames_to (conns s') 0 = frames_to (conns s) 0 @ map (message_frame std_rt) es"
    "list_all (travels std_rt 2000000000) es \<longrightarrow>
      (\<exists>b' new. receive_frames std_rt 2000000000 (map (message_frame std_rt) es) demo_client = Inr b' \<and>
        fst (client_get_history 7 b') = fst (client_get_history 7 demo_client) @ map shown new \<and> subseq ds new)"
    by auto
  have "ds = [demo_hi]"
    using d(1) run(3) by simp
  with d show ?thesis by blast
qed

end
