(* ===== verification/Windows.thy ===== *)
theory Windows
  imports Client
begin

text \<open>
  \<open>client/control\<close> and the logic in the slots of \<open>client/gui\<close>: which window is shown, what its
  lists and texts hold, and which request a click sends. Qt's widgets are reduced to the values that
  the code writes into them; colours, palettes and layout are left out, except for the colour of a
  line of the chat. A \<open>QString\<close> made from \<open>data()\<close> is a C string.
\<close>

section \<open>State\<close>

text \<open>A line of the chat is red when it comes from the server.\<close>

record chat_line =
  ln_red :: bool
  ln_text :: string

datatype dialog = Registered | LoginTaken | WrongPassword

record control =
  ct_ip :: string
  ct_port :: int32
  ct_client :: "client option"
  start_shown :: bool
  channels_shown :: bool
  chat_shown :: bool
  view_list :: "string list"
  model_list :: "string list"
  text_output :: "chat_line list"
  dialogs :: "dialog list"
  logon_field :: string
  password_field :: string
  room_field :: string
  message_field :: string

text \<open>\<open>argv\<close> holds the arguments after the program's name. The view and the member that names its
  model start apart, both empty.\<close>

definition Control_ctor :: "string list \<Rightarrow> control result" where
  "Control_ctor argv =
     (let ip = (case argv of [] \<Rightarrow> ''127.0.0.1'' | a # as \<Rightarrow> a)
      in and_then (case argv of a # b # as \<Rightarrow> stoi b | _ \<Rightarrow> Inr (ucast SERVER_DEFAULT_PORT))
           (\<lambda>port. Inr \<lparr>ct_ip = ip, ct_port = port, ct_client = None, start_shown = True,
              channels_shown = False, chat_shown = False, view_list = [], model_list = [],
              text_output = [], dialogs = [], logon_field = [], password_field = [], room_field = [],
              message_field = []\<rparr>))"

text \<open>\<open>startup_client.cpp\<close>: Qt takes the options that it knows out of the command line (\<open>qt_args\<close>), the
  rest is the server's address and port. The event loop then runs the slots below.\<close>

definition client_main :: "(string list \<Rightarrow> string list) \<Rightarrow> string list \<Rightarrow> control result" where
  "client_main qt_args argv = Control_ctor (qt_args argv)"

text \<open>Without arguments the client looks for the server on its own host, at the server's default port; a
  port that does not begin with a number ends it with an exception.\<close>

lemma client_main_starts:
  "qt_args argv = [] \<Longrightarrow> \<exists>w. client_main qt_args argv = Inr w \<and> ct_ip w = ''127.0.0.1'' \<and>
    ct_port w = ucast SERVER_DEFAULT_PORT \<and> ct_client w = None \<and> start_shown w"
  "qt_args argv = a # b # as \<Longrightarrow> stoi b = Inl e \<Longrightarrow> client_main qt_args argv = Inl e"
  by (simp_all add: client_main_def Control_ctor_def)

text \<open>The destructor closes the session that was opened last.\<close>

definition Control_dtor :: "control \<Rightarrow> control" where
  "Control_dtor w = w\<lparr>ct_client := map_option close_connection (ct_client w)\<rparr>"

section \<open>Logging in\<close>

text \<open>The frame that opens the conversation; any other command would go through a null pointer.\<close>

definition login_frame :: "pb_rt \<Rightarrow> string \<Rightarrow> string \<Rightarrow> TypeCommand \<Rightarrow> bytes result" where
  "login_frame rt login password command =
     and_then
       (if command = RegistrationRequest then Inr (create_reg_request login password)
        else if command = AuthorisationRequest then Inr (create_input_request login password)
        else Inl NullDeref)
       (\<lambda>request. Inr (serialize_request rt (create_header command (Request_ByteSizeLong rt request)) request))"

text \<open>\<open>ec\<close> says whether the connection failed.\<close>

definition connect_to_server :: "pb_rt \<Rightarrow> int32 \<Rightarrow> bytes \<Rightarrow> bool \<Rightarrow> string \<Rightarrow> string \<Rightarrow> TypeCommand \<Rightarrow>
    control \<Rightarrow> control result" where
  "connect_to_server rt garbage_id garbage_header ec login password command w =
     and_then (login_frame rt login password command) (\<lambda>bin_buffer.
       let client = set_login login (Client_ctor garbage_id garbage_header)
       in Inr (w\<lparr>ct_client := Some (do_connect ec bin_buffer client)\<rparr>))"

text \<open>Once the thread of the session has run out of work, the client's socket is closed.\<close>

definition session_ended :: "control \<Rightarrow> control" where
  "session_ended w = w\<lparr>ct_client := (case ct_client w of None \<Rightarrow> None | Some c \<Rightarrow> Some (close_connection c))\<rparr>"

text \<open>The session that ends need not be the one whose socket is closed: when the user has logged in a
  second time meanwhile, the end of the first session, such as after a refused login, closes the
  second one.\<close>

lemma ended_session_closes_next:
  assumes "connect_to_server rt i header ec l pw command w = Inr w1"
    and "connect_to_server rt i' header' False l' pw' command' w1 = Inr w2"
  shows "\<exists>c. ct_client w2 = Some c \<and> cl_login c = l' \<and> cl_open c \<and>
    (\<exists>c'. ct_client (session_ended w2) = Some c' \<and> cl_login c' = l' \<and> \<not> cl_open c')"
  using assms by (auto simp: connect_to_server_def session_ended_def do_connect_def send_login_request_def
      close_connection_def set_login_def Let_def)

text \<open>The two slots behind the buttons of the first window. They run the session in a thread of its own
  and only log an exception, such as the one for a server name that does not resolve.\<close>

definition autorisation :: "pb_rt \<Rightarrow> int32 \<Rightarrow> bytes \<Rightarrow> bool \<Rightarrow> bool \<Rightarrow> string \<Rightarrow> string \<Rightarrow> control \<Rightarrow> control result" where
  "autorisation rt garbage_id garbage_header resolved ec login password w =
     (if \<not> resolved then Inr w
      else connect_to_server rt garbage_id garbage_header ec login password AuthorisationRequest w)"

definition registration :: "pb_rt \<Rightarrow> int32 \<Rightarrow> bytes \<Rightarrow> bool \<Rightarrow> bool \<Rightarrow> string \<Rightarrow> string \<Rightarrow> control \<Rightarrow> control result" where
  "registration rt garbage_id garbage_header resolved ec login password w =
     (if \<not> resolved then Inr w
      else connect_to_server rt garbage_id garbage_header ec login password RegistrationRequest w)"

text \<open>The buttons: nothing happens without a login and a password; otherwise the signal goes out and
  the fields are emptied.\<close>

definition clear_login :: "control \<Rightarrow> control" where
  "clear_login w = w\<lparr>logon_field := [], password_field := []\<rparr>"

definition on_push_autorisation_clicked :: "pb_rt \<Rightarrow> int32 \<Rightarrow> bytes \<Rightarrow> bool \<Rightarrow> bool \<Rightarrow> control \<Rightarrow> control result" where
  "on_push_autorisation_clicked rt garbage_id garbage_header resolved ec w =
     (let login = logon_field w; password = password_field w
      in if login = [] \<or> password = [] then Inr w
         else and_then (autorisation rt garbage_id garbage_header resolved ec login password w)
                (\<lambda>w. Inr (clear_login w)))"

definition on_push_registration_clicked :: "pb_rt \<Rightarrow> int32 \<Rightarrow> bytes \<Rightarrow> bool \<Rightarrow> bool \<Rightarrow> control \<Rightarrow> control result" where
  "on_push_registration_clicked rt garbage_id garbage_header resolved ec w =
     (let login = logon_field w; password = password_field w
      in if login = [] \<or> password = [] then Inr w
         else and_then (registration rt garbage_id garbage_header resolved ec login password w)
                (\<lambda>w. Inr (clear_login w)))"

definition handler_input_code :: "InputCode \<Rightarrow> control \<Rightarrow> control" where
  "handler_input_code code w =
     (let w = clear_login w
      in w\<lparr>dialogs := dialogs w @ (case code of
         RegistrOK \<Rightarrow> [Registered] | BusyRegistr \<Rightarrow> [LoginTaken] | AutorOK \<Rightarrow> []
       | IncorrectAutor \<Rightarrow> [WrongPassword])\<rparr>)"

definition change_window :: "InputCode \<Rightarrow> control \<Rightarrow> control" where
  "change_window a_code w =
     (if a_code = BusyRegistr \<or> a_code = IncorrectAutor then handler_input_code a_code w
      else w\<lparr>start_shown := False, channels_shown := True\<rparr>)"

definition change_room_from_chat :: "control \<Rightarrow> control" where
  "change_room_from_chat w = w\<lparr>chat_shown := False, channels_shown := True\<rparr>"

text \<open>The back button of a chat.\<close>

definition on_button_back_clicked :: "control \<Rightarrow> control" where
  "on_button_back_clicked w = change_room_from_chat w"

section \<open>The window of channels\<close>

definition channel_names :: "client option \<Rightarrow> string list" where
  "channel_names client =
     (case client of
        None \<Rightarrow> []
      | Some c \<Rightarrow> map (\<lambda>channel. to_string_int (sint channel)) (get_channels c))"

definition populateData :: "string list \<Rightarrow> control \<Rightarrow> control" where
  "populateData channels w = w\<lparr>model_list := channels\<rparr>"

definition update_list_channels :: "control \<Rightarrow> control" where
  "update_list_channels w =
     (let w = populateData (channel_names (ct_client w)) w
      in w\<lparr>view_list := model_list w\<rparr>)"

text \<open>The constructor fills the list once, without a client, and then replaces the model that it
  remembers, but not the one of the view, by an empty one.\<close>

definition ChannelsWindow_ctor :: "control \<Rightarrow> control" where
  "ChannelsWindow_ctor w = (update_list_channels w)\<lparr>model_list := []\<rparr>"

text \<open>\<open>get_channel\<close> of the list model; \<open>QList::at\<close> wants a row that exists.\<close>

definition get_channel :: "nat \<Rightarrow> control \<Rightarrow> string result" where
  "get_channel index w = (if index < length (model_list w) then Inr (model_list w ! index) else Inl InvalidArgument)"

definition rowCount :: "control \<Rightarrow> nat" where
  "rowCount w = length (model_list w)"

definition columnCount :: "control \<Rightarrow> nat" where
  "columnCount w = 1"

definition model_data :: "nat \<Rightarrow> nat \<Rightarrow> bool \<Rightarrow> control \<Rightarrow> string option" where
  "model_data row column display_role w =
     (if \<not> (row < rowCount w \<and> column < columnCount w) \<or> \<not> display_role then None
      else if column = 0 then Some (model_list w ! row) else None)"

definition model_headerData :: "nat \<Rightarrow> bool \<Rightarrow> bool \<Rightarrow> string option" where
  "model_headerData section horizontal display_role =
     (if display_role \<and> horizontal then (if section = 0 then Some ''My channels'' else None) else None)"

definition control_change_room :: "pb_rt \<Rightarrow> int32 \<Rightarrow> control \<Rightarrow> control result" where
  "control_change_room rt new_room_id w =
     (case ct_client w of
        None \<Rightarrow> Inl NullDeref
      | Some c \<Rightarrow> Inr (w\<lparr>ct_client := Some (client_change_room rt new_room_id c)\<rparr>))"

text \<open>\<open>toInt\<close> is what Qt makes of the text of the field.\<close>

definition on_push_change_room_id_clicked :: "pb_rt \<Rightarrow> (string \<Rightarrow> int32) \<Rightarrow> control \<Rightarrow> control result" where
  "on_push_change_room_id_clicked rt toInt w =
     (let new_roomid = room_field w
      in if new_roomid = [] then Inr w
         else control_change_room rt (toInt new_roomid) (w\<lparr>room_field := []\<rparr>))"

section \<open>The window of a chat\<close>

definition chat_entry :: "ClientTextMsg \<Rightarrow> chat_line" where
  "chat_entry msg =
     \<lparr>ln_red = (cm_author msg = ''server''), ln_text = cstr (cm_author msg @ '': '' @ cm_text msg)\<rparr>"

text \<open>A message is shown only in the window of its own channel.\<close>

definition print_text :: "ClientTextMsg \<Rightarrow> control \<Rightarrow> control result" where
  "print_text msg w =
     (case ct_client w of
        None \<Rightarrow> Inl NullDeref
      | Some c \<Rightarrow>
          Inr (if cm_channel_id msg = cl_current_room c
               then w\<lparr>text_output := text_output w @ [chat_entry msg]\<rparr> else w))"

fun print_all :: "ClientTextMsg list \<Rightarrow> control \<Rightarrow> control result" where
  "print_all [] w = Inr w"
| "print_all (msg # msgs) w = and_then (print_text msg w) (print_all msgs)"

definition upload_history :: "control \<Rightarrow> control result" where
  "upload_history w =
     (case ct_client w of
        None \<Rightarrow> Inl NullDeref
      | Some c \<Rightarrow>
          let (msgs, c) = client_get_history (cl_current_room c) c
          in print_all msgs (w\<lparr>text_output := [], ct_client := Some c\<rparr>))"

definition go_channel :: "int32 \<Rightarrow> control \<Rightarrow> control result" where
  "go_channel room_id w =
     (case ct_client w of
        None \<Rightarrow> Inl NullDeref
      | Some c \<Rightarrow>
          and_then (upload_history (w\<lparr>ct_client := Some (set_current_channel room_id c)\<rparr>)) (\<lambda>w.
            Inr (w\<lparr>channels_shown := False, chat_shown := True\<rparr>)))"

text \<open>A double click on a row of the list opens the channel of that row.\<close>

definition OnDoubleClicked :: "nat \<Rightarrow> control \<Rightarrow> control result" where
  "OnDoubleClicked row w =
     and_then (get_channel row w) (\<lambda>name. and_then (stoi name) (\<lambda>channel.
       case ct_client w of
         None \<Rightarrow> Inl NullDeref
       | Some c \<Rightarrow> go_channel channel (w\<lparr>ct_client := Some (set_current_channel channel c)\<rparr>)))"

definition get_text_from_gui :: "pb_rt \<Rightarrow> ClientTextMsg \<Rightarrow> control \<Rightarrow> control result" where
  "get_text_from_gui rt msg w =
     (case ct_client w of
        None \<Rightarrow> Inl NullDeref
      | Some c \<Rightarrow> Inr (w\<lparr>ct_client := Some (send_msg_to_server rt (cm_text msg) (cm_channel_id msg) c)\<rparr>))"

text \<open>The message goes out with the room that is shown; the date is never filled in.\<close>

definition on_push_send_clicked :: "pb_rt \<Rightarrow> control \<Rightarrow> control result" where
  "on_push_send_clicked rt w =
     (case ct_client w of
        None \<Rightarrow> Inl NullDeref
      | Some c \<Rightarrow>
          let msg = \<lparr>cm_author = cl_login c, cm_text = message_field w, cm_channel_id = cl_current_room c,
                     cm_dt = DateTime_default\<rparr>
          in and_then (get_text_from_gui rt msg w) (\<lambda>w. Inr (w\<lparr>message_field := []\<rparr>)))"

section \<open>Signals of the client\<close>

definition on_signal :: "signal \<Rightarrow> control \<Rightarrow> control result" where
  "on_signal sig w =
     (case sig of
        SendText msg \<Rightarrow> print_text msg w
      | SendInputCode code \<Rightarrow> Inr (change_window code w)
      | UpdateChannels \<Rightarrow> Inr (update_list_channels w))"

section \<open>What the windows show\<close>

text \<open>Every message lies in the history of its own channel.\<close>

definition histories_ok :: "client \<Rightarrow> bool" where
  "histories_ok c \<longleftrightarrow> (\<forall>r msgs. map_of (cl_channels_history c) r = Some msgs \<longrightarrow>
     (\<forall>m \<in> set msgs. cm_channel_id m = r))"

lemma histories_ok_same: "cl_channels_history c' = cl_channels_history c \<Longrightarrow> histories_ok c' = histories_ok c"
  by (simp add: histories_ok_def)

lemma histories_ok_simps [simp]:
  "histories_ok (close_connection c) = histories_ok c" "histories_ok (emit sig c) = histories_ok c"
  "histories_ok (client_async_read_pb_header c) = histories_ok c"
  "histories_ok (set_login_id i c) = histories_ok c" "histories_ok (body_read d c) = histories_ok c"
  "histories_ok (c\<lparr>cl_reading := r\<rparr>) = histories_ok c" "histories_ok (c\<lparr>cl_read_buffer := d\<rparr>) = histories_ok c"
  "histories_ok (c\<lparr>cl_bin_buffer := d\<rparr>) = histories_ok c"
  by (simp_all add: histories_ok_def close_connection_def emit_def client_async_read_pb_header_def
      set_login_id_def body_read_def)

lemma histories_ok_push:
  "histories_ok c \<Longrightarrow> histories_ok (c\<lparr>cl_channels_history := push_history m (cl_channels_history c)\<rparr>)"
  by (cases "map_of (cl_channels_history c) (cm_channel_id m)")
    (auto simp: histories_ok_def push_history_simps split: if_splits)

lemma histories_ok_emplace:
  "histories_ok c \<Longrightarrow> histories_ok (c\<lparr>cl_channels_history := um_try_emplace r [] (cl_channels_history c)\<rparr>)"
  by (auto simp: histories_ok_def um_simps split: if_splits)

lemma read_keeps_histories:
  assumes "read_completes rt alloc outcome c1 = Inr c2" and "histories_ok c1"
  shows "histories_ok c2"
  using assms histories_ok_push [of "body_read (the outcome) c1"] histories_ok_emplace [of "body_read (the outcome) c1"]
  by (auto simp: read_completes_def do_read_pb_header_def client_async_read_pb_msg_def
      do_read_input_response_def do_read_reg_response_def do_read_join_room_response_def
      do_read_echo_response_def Let_def split_beta
      split: client_reading.splits option.splits if_splits TypeCommand.splits)

text \<open>Whatever the server sends and in whatever pieces reads complete or fail, every message of
  the client lies in the history of the channel that it names.\<close>

theorem client_histories_invariant:
  assumes "histories_ok c" and "fold (\<lambda>(alloc, outcome) r. and_then r (read_completes rt alloc outcome)) reads (Inr c) = Inr c'"
  shows "histories_ok c'"
proof -
  have err: "fold (\<lambda>(alloc, outcome) r. and_then r (read_completes rt alloc outcome)) rs (Inl e) = Inl e" for rs e
    by (induction rs) auto
  show ?thesis
    using assms
  proof (induction reads arbitrary: c)
    case (Cons a reads)
    obtain alloc outcome where a: "a = (alloc, outcome)" by (cases a)
    show ?case
    proof (cases "read_completes rt alloc outcome c")
      case (Inl e)
      with Cons.prems(2) err show ?thesis by (simp add: a)
    next
      case (Inr c1)
      with Cons.prems(2) have "fold (\<lambda>(alloc, outcome) r. and_then r (read_completes rt alloc outcome)) reads (Inr c1) = Inr c'"
        by (simp add: a)
      with Cons.IH read_keeps_histories [OF Inr Cons.prems(1)] show ?thesis by blast
    qed
  qed simp
qed

theorem client_histories_invariant_witness:
  "\<exists>c'. read_completes std_rt 10 None (Client_ctor 0 []) = Inr c' \<and> histories_ok c'"
  using client_histories_invariant [of "Client_ctor 0 []" std_rt "[(10, None)]" "Client_ctor 0 []"]
  by (simp add: histories_ok_def Client_ctor_def read_completes_def)

lemma print_all_same_channel:
  assumes "ct_client w = Some c" and "\<forall>m \<in> set msgs. cm_channel_id m = cl_current_room c"
  shows "print_all msgs w = Inr (w\<lparr>text_output := text_output w @ map chat_entry msgs\<rparr>)"
  using assms by (induction msgs arbitrary: w) (simp_all add: print_text_def)

lemma client_get_history_ok:
  assumes "histories_ok c" and "client_get_history r c = (msgs, c')"
  shows "\<forall>m \<in> set msgs. cm_channel_id m = r" and "cl_current_room c' = cl_current_room c"
    and "msgs = (case map_of (cl_channels_history c) r of None \<Rightarrow> [] | Some xs \<Rightarrow> xs)"
  using assms
  by (cases "map_of (cl_channels_history c) r";
      auto simp: client_get_history_def histories_ok_def Let_def um_simps)+

lemma go_channel_shows:
  assumes "ct_client w = Some c" and "histories_ok c"
  shows "\<exists>w' c'. go_channel r w = Inr w' \<and> chat_shown w' \<and> \<not> channels_shown w' \<and>
    text_output w' = map chat_entry (fst (client_get_history r c)) \<and> ct_client w' = Some c' \<and>
    cl_current_room c' = r \<and> cl_signals c' = cl_signals c \<and> histories_ok c' \<and>
    (\<forall>q. fst (client_get_history q c') = fst (client_get_history q c))"
proof -
  let ?c = "set_current_channel r c"
  define c' where "c' = snd (client_get_history r ?c)"
  have hist: "fst (client_get_history q ?c) = fst (client_get_history q c)" for q
    by (simp add: set_current_channel_def client_get_history_eq)
  have ok: "histories_ok ?c"
    using assms(2) by (simp add: histories_ok_def set_current_channel_def)
  have h: "client_get_history r ?c = (fst (client_get_history r c), c')"
    by (simp add: c'_def hist [symmetric])
  note got = client_get_history_ok [OF ok h]
  have room: "cl_current_room c' = r"
    using got(2) by (simp add: set_current_channel_def)
  have "upload_history (w\<lparr>ct_client := Some ?c\<rparr>) =
      print_all (fst (client_get_history r c)) (w\<lparr>ct_client := Some ?c, text_output := [], ct_client := Some c'\<rparr>)"
    using h by (simp add: upload_history_def set_current_channel_def)
  moreover have "\<dots> = Inr (w\<lparr>ct_client := Some c', text_output := map chat_entry (fst (client_get_history r c))\<rparr>)"
    using print_all_same_channel [of "w\<lparr>text_output := [], ct_client := Some c'\<rparr>" c'] got(1) room by simp
  moreover have "histories_ok c'"
    using ok by (auto simp: c'_def client_get_history_def histories_ok_def Let_def um_simps split: if_splits)
  moreover have "cl_signals c' = cl_signals c" "fst (client_get_history q c') = fst (client_get_history q c)" for q
    by (auto simp: c'_def client_get_history_def set_current_channel_def Let_def um_simps split: option.split)
  ultimately show ?thesis
    using assms(1) room by (simp add: go_channel_def)
qed

text \<open>A double click on a row of the channel list opens the chat of exactly the channel that the
  row names and fills it with the whole history of that channel in its order.\<close>

theorem double_click_opens_channel:
  assumes "ct_client w = Some c" and "histories_ok c" and "row < length (get_channels c)"
  shows "\<exists>w'. OnDoubleClicked row (update_list_channels w) = Inr w' \<and> chat_shown w' \<and>
    map_option cl_current_room (ct_client w') = Some (get_channels c ! row) \<and>
    text_output w' = map chat_entry (fst (client_get_history (get_channels c ! row) c))"
proof -
  let ?r = "get_channels c ! row"
  let ?w = "(update_list_channels w)\<lparr>ct_client := Some (set_current_channel ?r c)\<rparr>"
  have name: "get_channel row (update_list_channels w) = Inr (to_string_int (sint ?r))"
    using assms(1,3) by (simp add: get_channel_def update_list_channels_def populateData_def channel_names_def)
  have "histories_ok (set_current_channel ?r c)" "ct_client ?w = Some (set_current_channel ?r c)"
    using assms(2) by (simp_all add: histories_ok_def set_current_channel_def)
  from go_channel_shows [OF this(2,1), of ?r] obtain w' where w': "go_channel ?r ?w = Inr w'"
    "chat_shown w'" "text_output w' = map chat_entry (fst (client_get_history ?r (set_current_channel ?r c)))"
    "map_option cl_current_room (ct_client w') = Some ?r"
    by auto
  have "fst (client_get_history ?r (set_current_channel ?r c)) = fst (client_get_history ?r c)"
    by (simp add: client_get_history_def set_current_channel_def Let_def)
  with w' show ?thesis
    using assms(1) name by (simp add: OnDoubleClicked_def update_list_channels_def populateData_def)
qed

theorem double_click_opens_channel_witness:
  "\<exists>c w'. OnDoubleClicked 0 (update_list_channels
      \<lparr>ct_ip = [], ct_port = 7777, ct_client = Some c, start_shown = False, channels_shown = True,
       chat_shown = False, view_list = [], model_list = [], text_output = [], dialogs = [],
       logon_field = [], password_field = [], room_field = [], message_field = []\<rparr>) = Inr w' \<and>
    map_option cl_current_room (ct_client w') = Some 7 \<and>
    text_output w' = [\<lparr>ln_red = False, ln_text = ''bob: hi''\<rparr>]"
proof -
  let ?m = "\<lparr>cm_author = ''bob'', cm_text = ''hi'', cm_channel_id = 7, cm_dt = DateTime_default\<rparr>"
  let ?c = "(Client_ctor 0 [])\<lparr>cl_channels_history := [(7, [?m])]\<rparr>"
  let ?w = "\<lparr>ct_ip = [], ct_port = 7777, ct_client = Some ?c, start_shown = False, channels_shown = True,
       chat_shown = False, view_list = [], model_list = [], text_output = [], dialogs = [],
       logon_field = [], password_field = [], room_field = [], message_field = []\<rparr>"
  have chans: "get_channels ?c = [7]"
    by (simp add: get_channels_def)
  have hist: "fst (client_get_history 7 ?c) = [?m]"
    by (simp add: client_get_history_def um_try_emplace_def)
  have ok: "histories_ok ?c"
    by (simp add: histories_ok_def)
  have entry: "chat_entry ?m = \<lparr>ln_red = False, ln_text = ''bob: hi''\<rparr>"
    by (simp add: chat_entry_def cstr_def)
  have ptr: "ct_client ?w = Some ?c"
    by simp
  show ?thesis
    using double_click_opens_channel [OF ptr ok, of 0] unfolding chans by (simp add: hist entry) blast
qed

end
