(* ===== verification/Traffic.thy ===== *)
theory Traffic
  imports ChatService Windows
begin

text \<open>
  What travels between the server and clients that run the program's own client code: the requests
  that such a client asks, the answers and messages that the server sends. Each task of the server
  handles what was asked, sends and records only messages that some user wrote or that announce a
  known user, and leaves a database of which the same holds.
\<close>

section \<open>Genuine messages\<close>

text \<open>Of the texts \<open>S\<close> that were written and the logins \<open>N\<close> that were given: a message is a text
  or an announcement of a login.\<close>

definition heard :: "TextSendData set \<Rightarrow> string set \<Rightarrow> TextSendData \<Rightarrow> bool" where
  "heard S N d \<longleftrightarrow> d \<in> S \<or> (\<exists>l \<in> N. \<exists>r. d = joined l r \<or> d = left l r)"

lemma heard_mono: "heard S N d \<Longrightarrow> S \<subseteq> S' \<Longrightarrow> N \<subseteq> N' \<Longrightarrow> heard S' N' d"
  by (auto simp: heard_def)

interpretation honest: honest_chat "message_frame rt" td_room_id joined left "heard S N" "\<lambda>l. l \<in> N"
  for rt S N
  by unfold_locales (auto simp: heard_def)

lemma honest_mono:
  "honest.honest rt S N a \<Longrightarrow> S \<subseteq> S' \<Longrightarrow> N \<subseteq> N' \<Longrightarrow> honest.honest rt S' N' a"
  unfolding honest.honest_def by (fastforce simp: list_all_iff intro: heard_mono)

section \<open>Requests\<close>

inductive asked :: "pb_rt \<Rightarrow> TextSendData set \<Rightarrow> string set \<Rightarrow> TypeCommand \<Rightarrow> Request \<Rightarrow> bool" for rt S N where
  asks_login: "\<lbrakk>l \<in> N; plain l; plain pw; pw \<noteq> []; str_ok rt l; str_ok rt pw\<rbrakk> \<Longrightarrow>
    asked rt S N AuthorisationRequest (create_input_request l pw)"
| asks_registration: "\<lbrakk>l \<in> N; plain l; plain pw; pw \<noteq> []; str_ok rt l; str_ok rt pw\<rbrakk> \<Longrightarrow>
    asked rt S N RegistrationRequest (create_reg_request l pw)"
| asks_room: "asked rt S N JoinRoomRequestCmd (join_room_request r)"
| asks_text: "\<lbrakk>\<lparr>td_room_id = r, td_login = l, td_text = t\<rparr> \<in> S; plain l; l \<noteq> []; plain t; t \<noteq> [];
      str_ok rt l; str_ok rt t\<rbrakk> \<Longrightarrow>
    asked rt S N EchoRequest (create_text_request l r t)"

inductive_cases asked_inputE: "asked rt S N AuthorisationRequest q"
inductive_cases asked_regE: "asked rt S N RegistrationRequest q"
inductive_cases asked_joinE: "asked rt S N JoinRoomRequestCmd q"
inductive_cases asked_textE: "asked rt S N EchoRequest q"

lemma asked_mono: "asked rt S N c q \<Longrightarrow> S \<subseteq> S' \<Longrightarrow> N \<subseteq> N' \<Longrightarrow> asked rt S' N' c q"
  by (induction rule: asked.induct) (auto intro: asked.intros)

lemma asked_wf:
  "asked rt S N c q \<Longrightarrow> Request_wf rt q \<and> Request_has_msg q \<and> enumerator c"
  by (induction rule: asked.induct) (simp_all add: request_factory_wf request_factory_has)

definition request_bytes :: "pb_rt \<Rightarrow> TypeCommand \<times> Request \<Rightarrow> bytes" where
  "request_bytes rt = (\<lambda>(c, q). serialize_request rt (create_header c (Request_ByteSizeLong rt q)) q)"

lemma request_bytes_read:
  assumes "pb_runtime rt" and "asked rt S N c q"
  shows "\<exists>h. ParseFromArray (Header_InternalParse rt) Header_SharedCtor (take SIZE_HEADER (request_bytes rt (c, q))) = (True, h) \<and>
    TypeCommand_cast (hdr_command h) = c \<and>
    unat (hdr_length h) = length (drop SIZE_HEADER (request_bytes rt (c, q))) \<and>
    unat (hdr_length h) < 1073741910 \<and>
    ParseFromArray (Request_InternalParse rt) Request_SharedCtor (drop SIZE_HEADER (request_bytes rt (c, q))) = (True, q)"
    and "SIZE_HEADER \<le> length (request_bytes rt (c, q))"
proof -
  note wf = asked_wf [OF assms(2)]
  obtain h where h: "ParseFromArray (Header_InternalParse rt) Header_SharedCtor (take SIZE_HEADER (request_bytes rt (c, q))) = (True, h)"
    "TypeCommand_cast (hdr_command h) = c"
    "unat (hdr_length h) = length (drop SIZE_HEADER (request_bytes rt (c, q)))"
    "ParseFromArray (Request_InternalParse rt) Request_SharedCtor (drop SIZE_HEADER (request_bytes rt (c, q))) = (True, q)"
    using pb_runtime.request_frame_read [OF assms(1), of q c] wf by (auto simp: request_bytes_def)
  have len: "length (drop SIZE_HEADER (request_bytes rt (c, q))) = Request_ByteSizeLong rt q"
    using pb_runtime.request_frame [OF assms(1), of q c] wf pb_runtime.Request_size [OF assms(1), of q]
    by (simp add: request_bytes_def)
  with h pb_runtime.Request_small [OF assms(1), of q] wf
  show "\<exists>h. ParseFromArray (Header_InternalParse rt) Header_SharedCtor (take SIZE_HEADER (request_bytes rt (c, q))) = (True, h) \<and>
    TypeCommand_cast (hdr_command h) = c \<and>
    unat (hdr_length h) = length (drop SIZE_HEADER (request_bytes rt (c, q))) \<and>
    unat (hdr_length h) < 1073741910 \<and>
    ParseFromArray (Request_InternalParse rt) Request_SharedCtor (drop SIZE_HEADER (request_bytes rt (c, q))) = (True, q)"
    by (intro exI [of _ h]) simp
  show "SIZE_HEADER \<le> length (request_bytes rt (c, q))"
    using pb_runtime.request_frame [OF assms(1), of q c] wf by (simp add: request_bytes_def)
qed

section \<open>Answers\<close>

inductive answered :: "pb_rt \<Rightarrow> TypeCommand \<Rightarrow> Response \<Rightarrow> bool" for rt where
  "answered rt AutorisationResponse (create_input_response i)"
| "answered rt RegistrationResponse (create_reg_response i)"
| "answered rt JoinRoomResponseCmd (create_join_room_response r flag)"

inductive sent_out :: "pb_rt \<Rightarrow> TextSendData set \<Rightarrow> string set \<Rightarrow> TypeCommand \<Rightarrow> Response \<Rightarrow> bool" for rt S N where
  sends_answer: "answered rt c m \<Longrightarrow> sent_out rt S N c m"
| sends_text: "heard S N d \<Longrightarrow>
    sent_out rt S N EchoResponse (create_text_response (td_login d) (td_room_id d) (td_text d))"

lemma sent_out_mono: "sent_out rt S N c m \<Longrightarrow> S \<subseteq> S' \<Longrightarrow> N \<subseteq> N' \<Longrightarrow> sent_out rt S' N' c m"
  by (induction rule: sent_out.induct) (auto intro: sent_out.intros heard_mono)

definition response_bytes :: "pb_rt \<Rightarrow> TypeCommand \<times> Response \<Rightarrow> bytes" where
  "response_bytes rt = (\<lambda>(c, m). serialize_response rt (create_header c (Response_ByteSizeLong rt m)) m)"

lemma server_frame_bytes:
  "input_frame rt i = response_bytes rt (AutorisationResponse, create_input_response i)"
  "reg_frame rt i = response_bytes rt (RegistrationResponse, create_reg_response i)"
  "join_room_frame rt r flag = response_bytes rt (JoinRoomResponseCmd, create_join_room_response r flag)"
  "message_frame rt d =
     response_bytes rt (EchoResponse, create_text_response (td_login d) (td_room_id d) (td_text d))"
  by (simp_all add: response_bytes_def server_frames message_frame_def Let_def)

definition readable :: "pb_rt \<Rightarrow> TextSendData \<Rightarrow> bool" where
  "readable rt d \<longleftrightarrow> str_ok rt (td_login d) \<and> str_ok rt (td_text d)"

lemma sent_out_wf:
  assumes "sent_out rt S N c m" and "\<And>d. heard S N d \<Longrightarrow> readable rt d"
  shows "Response_wf rt m \<and> Response_has_msg m \<and> enumerator c"
  using assms(1)
proof cases
  case sends_answer
  then show ?thesis by (cases) (simp_all add: response_factory_wf response_factory_has)
next
  case (sends_text d)
  then show ?thesis
    using assms(2) by (simp add: readable_def response_factory_wf response_factory_has)
qed

section \<open>What a handler may do to a connection\<close>

text \<open>It leaves the pending read alone, and starts further writes after those it started before; a
  direct write is an answer.\<close>

definition goes_on :: "pb_rt \<Rightarrow> connection \<Rightarrow> connection \<Rightarrow> bool" where
  "goes_on rt c c' \<longleftrightarrow> cn_reading c' = cn_reading c \<and>
     (\<exists>new. cn_started c' = cn_started c @ new \<and>
        (\<forall>f. Direct f \<in> set new \<longrightarrow> (\<exists>a m. answered rt a m \<and> f = response_bytes rt (a, m))))"

lemma goes_on_same: "cn_reading c' = cn_reading c \<Longrightarrow> cn_started c' = cn_started c \<Longrightarrow> goes_on rt c c'"
  by (simp add: goes_on_def)

lemma goes_on_trans: "goes_on rt c1 c2 \<Longrightarrow> goes_on rt c2 c3 \<Longrightarrow> goes_on rt c1 c3"
  unfolding goes_on_def by (auto simp: Un_iff)

lemma goes_on_update [simp]:
  "goes_on rt c (c'\<lparr>cn_client_id := i\<rparr>) = goes_on rt c c'" "goes_on rt c (c'\<lparr>cn_room_id := i\<rparr>) = goes_on rt c c'"
  "goes_on rt c (c'\<lparr>cn_login := l\<rparr>) = goes_on rt c c'" "goes_on rt c (c'\<lparr>cn_password := l\<rparr>) = goes_on rt c c'"
  "goes_on rt c (c'\<lparr>cn_busy := b\<rparr>) = goes_on rt c c'" "goes_on rt c (c'\<lparr>cn_open := b\<rparr>) = goes_on rt c c'"
  "goes_on rt c (c'\<lparr>cn_writing := b\<rparr>) = goes_on rt c c'" "goes_on rt c (c'\<lparr>cn_queue := q\<rparr>) = goes_on rt c c'"
  by (simp_all add: goes_on_def)

lemma goes_on_refl [simp]: "goes_on rt c c"
  by (simp add: goes_on_same)

lemma goes_on_add: "goes_on rt c (add_msg_send_queue f c)"
  by (auto simp: goes_on_def add_msg_send_queue_def sending_msgs_to_client_def Let_def)

lemma goes_on_written: "goes_on rt c (queue_written c)"
  by (auto simp: goes_on_def queue_written_def sending_msgs_to_client_def Let_def)

lemma goes_on_direct: "answered rt a m \<Longrightarrow> goes_on rt c (start_direct (response_bytes rt (a, m)) c)"
  by (auto simp: goes_on_def start_direct_def)

lemma goes_on_reset [simp]: "goes_on rt c (close_and_reset c') = goes_on rt c c'"
  by (simp add: close_and_reset_def)

lemma goes_on_kept: "kept_by_calls (connection_subscriber rt) (\<lambda>w. \<forall>p. goes_on rt (w0 p) (w p))"
  by (auto simp: kept_by_calls_def connection_subscriber_def send_msg_to_client_def
      intro: goes_on_trans [OF _ goes_on_add])

section \<open>The tasks of the server\<close>

fun sound_task :: "pb_rt \<Rightarrow> TextSendData set \<Rightarrow> string set \<Rightarrow> task \<Rightarrow> bool" where
  "sound_task rt S N (DoAutorisation p q) = asked rt S N AuthorisationRequest q"
| "sound_task rt S N (DoRegistration p q) = asked rt S N RegistrationRequest q"
| "sound_task rt S N (DoJoinRoom p q) = asked rt S N JoinRoomRequestCmd q"
| "sound_task rt S N (DoTextMsg p q) = asked rt S N EchoRequest q"
| "sound_task rt S N t = True"

definition sound_db :: "('h \<Rightarrow> entry list) \<Rightarrow> ('h \<Rightarrow> entry list) \<Rightarrow> ('h \<Rightarrow> bool) \<Rightarrow> TextSendData set \<Rightarrow>
    'h Database option \<Rightarrow> bool" where
  "sound_db logins history intact S d \<longleftrightarrow> (\<exists>db h. d = Some db \<and> db_ptr db = Some h \<and> intact h \<and>
     history_ok (history h) \<and> list_all (\<lambda>(l, i, p). plain p \<and> p \<noteq> []) (logins h) \<and>
     message_of ` set (history h) \<subseteq> S)"

definition sound_server :: "pb_rt \<Rightarrow> ('h \<Rightarrow> entry list) \<Rightarrow> ('h \<Rightarrow> entry list) \<Rightarrow> ('h \<Rightarrow> bool) \<Rightarrow>
    TextSendData set \<Rightarrow> string set \<Rightarrow> 'h server \<Rightarrow> bool" where
  "sound_server rt logins history intact S N s \<longleftrightarrow> server_ok s \<and> honest.honest rt S N (chat_of s) \<and>
     (\<forall>t \<in> set (tasks s). sound_task rt S N t) \<and> sound_db logins history intact S (database s)"

lemma sound_task_mono: "sound_task rt S N t \<Longrightarrow> S \<subseteq> S' \<Longrightarrow> N \<subseteq> N' \<Longrightarrow> sound_task rt S' N' t"
  by (cases t) (auto intro: asked_mono)

lemma sound_server_mono:
  assumes "sound_server rt logins history intact S N s" and "S \<subseteq> S'" and "N \<subseteq> N'"
  shows "sound_server rt logins history intact S' N' s"
proof -
  have "honest.honest rt S' N' (chat_of s)"
    by (rule honest_mono [OF _ assms(2,3)]) (use assms(1) in \<open>simp add: sound_server_def\<close>)
  then show ?thesis
    using assms sound_task_mono [OF _ assms(2,3)]
    unfolding sound_server_def sound_db_def by (meson subset_trans)
qed

text \<open>Changes that neither the service nor the tasks nor the database see.\<close>

lemma sound_server_same:
  assumes "sound_server rt logins history intact S N s" and "server_ok s'" and "chat_of s' = chat_of s"
    and "\<And>t. t \<in> set (tasks s') \<Longrightarrow> t \<in> set (tasks s) \<or> sound_task rt S N t" and "database s' = database s"
  shows "sound_server rt logins history intact S N s'"
  using assms unfolding sound_server_def by auto

text \<open>Leaving.\<close>

lemma sound_free:
  assumes "sound_server rt logins history intact S N s" and "''unused'' \<in> N"
  shows "sound_server rt logins history intact S N (free_connection rt p s) \<and>
    (\<forall>q. goes_on rt (conns s q) (conns (free_connection rt p s) q)) \<and> pool (free_connection rt p s) = pool s"
proof -
  let ?s = "free_connection rt p s"
  let ?r = "Manager_leave_from_all_channels (connection_subscriber rt) (cn_client_id (conns s p)) (manager s, conns s)"
  have ok: "server_ok s" and honest: "honest.honest rt S N (chat_of s)"
    using assms(1) by (simp_all add: sound_server_def)
  obtain rs where "chat_of ?s = (fold (quit (message_frame rt) left (cn_client_id (conns s p))) rs (chat_of s))
      \<lparr>ident := (ident (chat_of s))(p := -1), nick := (nick (chat_of s))(p := ''unused'')\<rparr>"
    using chat_of_free [OF ok] by blast
  moreover have "honest.honest rt S N (fold (quit (message_frame rt) left (cn_client_id (conns s p))) rs (chat_of s))"
    using honest.honest_quits [OF honest] .
  ultimately have "honest.honest rt S N (chat_of ?s)"
    using honest.honest_authenticate [OF _ assms(2)] by (metis quits_simps(2))
  moreover have "tasks ?s = tasks s" "database ?s = database s" "pool ?s = pool s"
    by (simp_all add: free_connection_def split_beta Let_def)
  moreover have "goes_on rt (conns s q) (snd ?r q)" for q
    using kept_leave_all [OF goes_on_kept [of rt "conns s"], of "conns s" _ "manager s"] by simp
  ultimately show ?thesis
    using assms(1) free_connection_ok [OF ok, of rt p]
    by (auto simp: sound_server_def free_connection_def split_beta Let_def)
qed

text \<open>Logging in.\<close>

lemma check_rows_runs:
  "(\<forall>row \<in> set rows. fst (row 2) \<noteq> None) \<Longrightarrow> \<exists>i. check_rows pw r rows = Inr i"
proof (induction rows arbitrary: r)
  case (Cons row rows)
  then obtain x where "std_string (fst (row 2)) = Inr x"
    by (auto simp: std_string_def)
  with Cons show ?case by simp
qed simp

lemma check_client_runs:
  assumes "sqlite_laws eng logins history intact" and "db_ptr db = Some h" and "intact h" and "plain l"
    and "list_all (\<lambda>(l, i, p). plain p \<and> p \<noteq> []) (logins h)"
  shows "\<exists>i. check_client eng l pw db = Inr i"
proof -
  obtain rows where rows: "sq_query eng (Some h) (sql_select_login l) = Some (rows, SQLITE_DONE)"
    "mset (map login_view rows) = mset (map stored (filter (\<lambda>e. fst e = l) (logins h)))"
    using sqlite_laws.select_login [OF assms(1,3,4)] by blast
  have "fst (row 2) \<noteq> None" if "row \<in> set rows" for row
  proof -
    have "login_view row \<in> set (map stored (filter (\<lambda>e. fst e = l) (logins h)))"
      using that mset_eq_setD [OF rows(2)] by auto
    then show ?thesis
      using assms(5) by (auto simp: login_view_def stored_def blob_def list_all_iff)
  qed
  then show ?thesis
    using rows(1) check_rows_runs [of rows pw "-1"] assms(2,4) by (auto simp: check_client_def)
qed

lemma sound_login:
  assumes "sqlite_laws eng logins history intact" and "sound_server rt logins history intact S N s"
    and "asked rt S N AuthorisationRequest req" and "p \<in> set (pool s)"
  shows "\<exists>s'. do_autorisation rt eng p req s = Inr s' \<and> sound_server rt logins history intact S N s' \<and>
    (\<forall>q. goes_on rt (conns s q) (conns s' q)) \<and> pool s' = pool s"
proof -
  obtain l pw where l: "req = create_input_request l pw" "l \<in> N" "plain l"
    using assms(3) by (rule asked_inputE)
  let ?s = "on_conn p (\<lambda>c. c\<lparr>cn_login := l, cn_password := pw\<rparr>) s"
  obtain db h where db: "database s = Some db" "db_ptr db = Some h" "intact h"
    "list_all (\<lambda>(l, i, p). plain p \<and> p \<noteq> []) (logins h)"
    using assms(2) by (auto simp: sound_server_def sound_db_def)
  obtain i where i: "check_client eng l pw db = Inr i"
    using check_client_runs [OF assms(1) db(2,3) l(3) db(4)] by blast
  let ?s' = "post (SendAutoResponse p i) (on_conn p (\<lambda>c. c\<lparr>cn_client_id := i\<rparr>) ?s)"
  have run: "do_autorisation rt eng p req s = Inr ?s'"
    using i db by (simp add: l(1) do_autorisation_def Let_def)
  have "chat_of ?s' = (chat_of s)\<lparr>ident := (ident (chat_of s))(p := i), nick := (nick (chat_of s))(p := l)\<rparr>"
    by (rule chat_of_authenticate [where pw = pw]) (simp_all add: fun_eq_iff)
  then have "honest.honest rt S N (chat_of ?s')"
    using honest.honest_authenticate [of rt S N "chat_of s" l] assms(2) l(2) by (simp add: sound_server_def)
  moreover have "server_ok ?s'"
    using run_task_ok [of s "DoAutorisation p req" rt eng] assms(2,4) run by (simp add: sound_server_def)
  ultimately have "sound_server rt logins history intact S N ?s'"
    using assms(2) db by (auto simp: sound_server_def)
  with run show ?thesis by auto
qed

text \<open>Registering: the identifier is any number, the row is written.\<close>

lemma sound_registration:
  assumes "sqlite_laws eng logins history intact" and "sound_server rt logins history intact S N s"
    and "asked rt S N RegistrationRequest req" and "p \<in> set (pool s)"
  shows "\<exists>s'. do_registration rt eng p req s = Inr s' \<and> sound_server rt logins history intact S N s' \<and>
    (\<forall>q. goes_on rt (conns s q) (conns s' q)) \<and> pool s' = pool s"
proof -
  obtain l pw where l: "req = create_reg_request l pw" "l \<in> N" "plain l" "plain pw" "pw \<noteq> []"
    using assms(3) by (rule asked_regE)
  let ?s = "on_conn p (\<lambda>c. c\<lparr>cn_login := l, cn_password := pw\<rparr>) s"
  obtain db h where db: "database s = Some db" "db_ptr db = Some h" "intact h" "history_ok (history h)"
    "list_all (\<lambda>(l, i, p). plain p \<and> p \<noteq> []) (logins h)" "message_of ` set (history h) \<subseteq> S"
    using assms(2) by (auto simp: sound_server_def sound_db_def)
  have "\<exists>i s2. register_login eng l pw ?s = Inr (i, s2) \<and> sound_db logins history intact S (database s2)"
  proof (cases "get_loginid eng l db = -1")
    case True
    obtain h' where "add_logins eng l (next_id s + 1) pw db = Inr (db\<lparr>db_ptr := Some h'\<rparr>)"
      "logins h' = logins h @ [(l, next_id s + 1, pw)]" "history h' = history h" "intact h'"
      using sqlite_laws.add_logins_open [OF assms(1) db(2,3) l(3,4)] by blast
    then show ?thesis
      using True db l(4,5)
      by (auto simp: register_login_def generate_client_id_def Let_def sound_db_def)
  next
    case False
    then show ?thesis using db by (auto simp: register_login_def sound_db_def)
  qed
  then obtain i s2 where reg: "register_login eng l pw ?s = Inr (i, s2)" and sdb: "sound_db logins history intact S (database s2)"
    by blast
  let ?s' = "post (SendRegResponse p i) (on_conn p (\<lambda>c. c\<lparr>cn_client_id := i\<rparr>) s2)"
  have run: "do_registration rt eng p req s = Inr ?s'"
    using reg by (simp add: l(1) do_registration_def Let_def)
  note same = register_login_same [OF reg]
  have "chat_of ?s' = (chat_of s)\<lparr>ident := (ident (chat_of s))(p := i), nick := (nick (chat_of s))(p := l)\<rparr>"
    by (rule chat_of_authenticate [where pw = pw]) (simp_all add: same fun_eq_iff)
  then have "honest.honest rt S N (chat_of ?s')"
    using honest.honest_authenticate [of rt S N "chat_of s" l] assms(2) l(2) by (simp add: sound_server_def)
  moreover have "server_ok ?s'"
    using run_task_ok [of s "DoRegistration p req" rt eng] assms(2,4) run by (simp add: sound_server_def)
  ultimately have "sound_server rt logins history intact S N ?s'"
    using assms(2) sdb by (auto simp: sound_server_def same)
  with run show ?thesis by (auto simp: same)
qed

text \<open>Joining: a new room takes its past from the database.\<close>

lemma sound_history:
  assumes "sqlite_laws eng logins history intact" and "sound_db logins history intact S (Some db)"
  shows "\<exists>past. get_history eng r db = Inr (past, db) \<and> list_all (heard S N) past"
proof -
  obtain h where h: "db_ptr db = Some h" "intact h" "history_ok (history h)" "message_of ` set (history h) \<subseteq> S"
    using assms(2) by (auto simp: sound_db_def)
  obtain past where past: "get_history eng r db = Inr (past, db)"
    "mset past = mset (map message_of (filter (\<lambda>e. fst (snd e) = r) (history h)))"
    using sqlite_laws.get_history_open [OF assms(1) h(1-3)] by blast
  have "set past \<subseteq> message_of ` set (history h)"
    using mset_eq_setD [OF past(2)] by auto
  then have "list_all (heard S N) past"
    using h(4) by (auto simp: list_all_iff heard_def)
  with past(1) show ?thesis by blast
qed

lemma sound_join:
  assumes "sqlite_laws eng logins history intact" and "sound_server rt logins history intact S N s"
    and "asked rt S N JoinRoomRequestCmd req" and "p \<in> set (pool s)"
  shows "\<exists>s'. do_join_room rt eng p req s = Inr s' \<and> sound_server rt logins history intact S N s' \<and>
    (\<forall>q. goes_on rt (conns s q) (conns s' q)) \<and> pool s' = pool s"
proof -
  obtain r where r: "req = join_room_request r"
    using assms(3) by (rule asked_joinE)
  have ok: "server_ok s" using assms(2) by (simp add: sound_server_def)
  obtain db where db: "database s = Some db" "sound_db logins history intact S (Some db)"
    using assms(2) by (auto simp: sound_server_def sound_db_def)
  obtain past where past: "get_history eng r db = Inr (past, db)" "list_all (heard S N) past"
    using sound_history [OF assms(1) db(2)] by blast
  obtain m w where j: "Manager_join (connection_subscriber rt) eng p r (database s) (manager s, conns s) =
      Inr (True, Some db, m, w)"
    using past(1) db(1)
    by (cases "map_of (channels (manager s)) r") (simp_all add: Manager_join_def Channel_ctor_def Let_def split_beta)
  let ?s1 = "s\<lparr>database := Some db, manager := m, conns := w\<rparr>"
  let ?s' = "post (SendJoinRoomResponse p r True) ?s1"
  have run: "do_join_room rt eng p req s = Inr ?s'"
    using join_channel_eq [OF j] by (simp add: r)
  have jc: "join_channel rt eng p r s = Inr (True, ?s1)"
    using j by (simp add: join_channel_def)
  obtain past' where "chat_of ?s1 = enter (message_frame rt) joined past' r p (chat_of s)"
    "map_of (channels (manager s)) r = None \<Longrightarrow> past' = past"
    using chat_of_join [OF ok jc] db(1) past(1) by (auto split: if_splits)
  then have "honest.honest rt S N (chat_of ?s1)"
    using honest.honest_enter [of rt S N "chat_of s" r past' p] assms(2) past(2) by (simp add: sound_server_def)
  moreover have "server_ok ?s'"
    using run_task_ok [of s "DoJoinRoom p req" rt eng] ok assms(4) run by simp
  ultimately have "sound_server rt logins history intact S N ?s'"
    using assms(2) db by (auto simp: sound_server_def)
  moreover have "goes_on rt (conns s q) (w q)" for q
    using kept_join [OF goes_on_kept [of rt "conns s"] _ j] by simp
  ultimately show ?thesis using run by auto
qed

text \<open>Writing.\<close>

lemma sound_text:
  assumes "sqlite_laws eng logins history intact" and "boost_format fmt02"
    and "sound_server rt logins history intact S N s" and "asked rt S N EchoRequest req" and "p \<in> set (pool s)"
  shows "\<exists>s'. do_text_msg rt eng fmt02 p req s = Inr s' \<and> sound_server rt logins history intact S N s' \<and>
    (\<forall>q. goes_on rt (conns s q) (conns s' q)) \<and> pool s' = pool s"
proof -
  obtain l r t where l: "req = create_text_request l r t" "\<lparr>td_room_id = r, td_login = l, td_text = t\<rparr> \<in> S"
    "plain l" "l \<noteq> []" "plain t" "t \<noteq> []"
    using assms(4) by (rule asked_textE)
  let ?d = "\<lparr>td_room_id = r, td_login = l, td_text = t\<rparr>"
  have ok: "server_ok s" using assms(3) by (simp add: sound_server_def)
  obtain db h where db: "database s = Some db" "db_ptr db = Some h" "intact h" "history_ok (history h)"
    "list_all (\<lambda>(l, i, p). plain p \<and> p \<noteq> []) (logins h)" "message_of ` set (history h) \<subseteq> S"
    using assms(3) by (auto simp: sound_server_def sound_db_def)
  obtain s' h' where s': "do_text_msg rt eng fmt02 p req s = Inr s'" "database s' = Some (db\<lparr>db_ptr := Some h'\<rparr>)"
    "history h' = history h @ [(l, r, t)]" "logins h' = logins h" "intact h'"
    using do_text_msg_delivers [OF assms(1,2) _ l(3,5) db(3), of s db rt p r] db(1,2) l(1) by auto
  have ds: "deliver_and_save rt eng fmt02 ?d s = Inr s'"
    using s'(1) by (simp add: l(1) do_text_msg_def text_data_def)
  have "honest.honest rt S N (chat_of s')"
    unfolding chat_of_text [OF ok ds]
    by (rule honest.honest_speak) (use assms(3) l(2) in \<open>simp_all add: sound_server_def heard_def\<close>)
  moreover have "sound_db logins history intact S (database s')"
    using s'(2-5) db l by (auto simp: sound_db_def message_of_def)
  moreover have "tasks s' = tasks s" "pool s' = pool s"
    using ds by (auto simp: deliver_and_save_def Let_def split_beta split: option.splits)
  moreover have "goes_on rt (conns s q) (conns s' q)" for q
    using ds kept_send [OF goes_on_kept [of rt "conns s"], of "conns s" ?d "manager s"]
    by (auto simp: deliver_and_save_def Let_def split_beta split: option.splits)
  moreover have "server_ok s'" by (rule deliver_and_save_ok [OF ok ds])
  ultimately show ?thesis
    using s'(1) assms(3) by (auto simp: sound_server_def)
qed

lemma direct_answers:
  "send_auto_response rt i = start_direct (response_bytes rt (AutorisationResponse, create_input_response i))"
  "send_reg_response rt i = start_direct (response_bytes rt (RegistrationResponse, create_reg_response i))"
  "send_join_room_response rt r flag =
     start_direct (response_bytes rt (JoinRoomResponseCmd, create_join_room_response r flag))"
  by (simp_all add: fun_eq_iff send_auto_response_def send_reg_response_def send_join_room_response_def
      server_frame_bytes)

lemma sound_answer:
  assumes "sound_server rt logins history intact S N s" and "answered rt a m"
    and "s' = on_conn p (start_direct (response_bytes rt (a, m))) s"
  shows "sound_server rt logins history intact S N s' \<and> (\<forall>q. goes_on rt (conns s q) (conns s' q)) \<and> pool s' = pool s"
proof -
  have "server_ok s'"
    using assms(1) unfolding assms(3) by (intro server_ok_on_conn) (simp_all add: sound_server_def)
  moreover have "chat_of s' = chat_of s"
    unfolding assms(3) by (rule chat_of_on_conn) simp_all
  ultimately have "sound_server rt logins history intact S N s'"
    by (rule sound_server_same [OF assms(1)]) (simp_all add: assms(3))
  then show ?thesis
    using goes_on_direct [OF assms(2)] by (simp add: assms(3))
qed

text \<open>Every task: it runs to its end, and leaves the server sound.\<close>

lemma sound_run:
  assumes "sqlite_laws eng logins history intact" and "boost_format fmt02"
    and "sound_server rt logins history intact S N s" and "sound_task rt S N t" and "task_conn t \<in> set (pool s)"
  shows "\<exists>s'. run_task rt eng fmt02 t s = Inr s' \<and> sound_server rt logins history intact S N s' \<and>
    (\<forall>q. goes_on rt (conns s q) (conns s' q)) \<and> pool s' = pool s"
proof (cases t)
  case (SendAutoResponse p i)
  then show ?thesis
    using sound_answer [OF assms(3) answered.intros(1) refl]
    by (simp only: run_task.simps direct_answers) blast
next
  case (SendRegResponse p i)
  then show ?thesis
    using sound_answer [OF assms(3) answered.intros(2) refl]
    by (simp only: run_task.simps direct_answers) blast
next
  case (SendJoinRoomResponse p r flag)
  then show ?thesis
    using sound_answer [OF assms(3) answered.intros(3) refl]
    by (simp only: run_task.simps direct_answers) blast
qed (use assms sound_login [OF assms(1,3)] sound_registration [OF assms(1,3)] sound_join [OF assms(1,3)]
    sound_text [OF assms(1-3)] in simp_all)

end
