(* ===== verification/Network.thy ===== *)
theory Network
  imports Traffic
begin

text \<open>
  The closed system: one server and, at the other end of each of its connections, a client that runs
  the program's own code. Between them are two streams of bytes per connection, which lose, change
  and reorder nothing: what a write started is in flight, and a read completes when its bytes have
  arrived. Users log in or register, join rooms and write texts whenever they like; a connection can
  be lost between two frames. What happens when it is lost inside a frame is shown in \<open>Buffers\<close>.
  \<open>ns_dialing\<close> are the clients whose first write is in flight, \<open>ns_writing\<close> those with a queued write
  in flight; \<open>ns_spoken\<close> and \<open>ns_names\<close> only record what the users wrote and under which logins.
\<close>

section \<open>State\<close>

record 'h net =
  ns_server :: "'h server"
  ns_users :: "nat \<Rightarrow> client"
  ns_up :: "nat \<Rightarrow> bytes"
  ns_down :: "nat \<Rightarrow> bytes"
  ns_dialing :: "nat set"
  ns_writing :: "nat set"
  ns_spoken :: "TextSendData set"
  ns_names :: "string set"

fun write_bytes :: "client_write \<Rightarrow> bytes" where
  "write_bytes (LoginWrite f) = f"
| "write_bytes (QueueWrite f) = f"

fun sent_bytes :: "sent \<Rightarrow> bytes" where
  "sent_bytes (Queued f) = f"
| "sent_bytes (Direct f) = f"

text \<open>A handler ran: the writes that it started are in flight behind the earlier ones. After the first
  write of a client, which \<open>ns_dialing\<close> tracks, all its writes are those of its queue.\<close>

definition client_acts :: "nat \<Rightarrow> client \<Rightarrow> 'h net \<Rightarrow> 'h net" where
  "client_acts p c n =
     n\<lparr>ns_users := (ns_users n)(p := c),
       ns_up := (ns_up n)(p := ns_up n p @
         concat (map write_bytes (drop (length (cl_started (ns_users n p))) (cl_started c)))),
       ns_writing := (if cl_started c = cl_started (ns_users n p) then ns_writing n else insert p (ns_writing n))\<rparr>"

text \<open>What a step of the server started to write goes into the stream frame by frame: the pieces of two
  writes that are under way at once on one socket, a direct one and one of the queue, are not mixed.\<close>

definition server_acts :: "'h server \<Rightarrow> 'h net \<Rightarrow> 'h net" where
  "server_acts s n =
     n\<lparr>ns_server := s,
       ns_down := (\<lambda>p. ns_down n p @
         concat (map sent_bytes (drop (length (cn_started (conns (ns_server n) p))) (cn_started (conns s p)))))\<rparr>"

definition take_up :: "nat \<Rightarrow> bytes \<Rightarrow> 'h net \<Rightarrow> 'h net" where
  "take_up p rest n = n\<lparr>ns_up := (ns_up n)(p := rest)\<rparr>"

definition take_down :: "nat \<Rightarrow> bytes \<Rightarrow> 'h net \<Rightarrow> 'h net" where
  "take_down p rest n = n\<lparr>ns_down := (ns_down n)(p := rest)\<rparr>"

text \<open>The number of bytes that the pending read of a client waits for.\<close>

definition client_wants :: "client \<Rightarrow> nat" where
  "client_wants c = (if cl_reading c = WaitHeader then SIZE_HEADER else length (cl_read_buffer c))"

section \<open>Steps\<close>

text \<open>What the users of the closed system type: text that is not empty, without quotes and null bytes, in
  UTF-8, and short enough for a message, also with the announcements around it. The windows let users
  type more; what a quote and an empty text do then is shown by \<open>quoted_registration_double_free\<close> and
  \<open>empty_text_breaks_history\<close>.\<close>

definition login_typed :: "pb_rt \<Rightarrow> string \<Rightarrow> string \<Rightarrow> bool" where
  "login_typed rt l pw \<longleftrightarrow> plain l \<and> l \<noteq> [] \<and> str_ok rt l \<and> plain pw \<and> pw \<noteq> [] \<and> str_ok rt pw \<and>
     (\<forall>r. readable rt (joined l r) \<and> readable rt (left l r))"

definition text_typed :: "pb_rt \<Rightarrow> string \<Rightarrow> bool" where
  "text_typed rt t \<longleftrightarrow> plain t \<and> t \<noteq> [] \<and> str_ok rt t"

text \<open>What happens of itself once the users have acted: completions without error, bytes that arrive,
  and the tasks of the server.\<close>

inductive delivers ::
  "pb_rt \<Rightarrow> 'h sqlite \<Rightarrow> (nat \<Rightarrow> string) \<Rightarrow> nat \<Rightarrow> nat \<Rightarrow> 'h net \<Rightarrow> 'h net \<Rightarrow> bool"
  for rt eng fmt02 alloc calloc n where
  dialed: "p \<in> ns_dialing n \<Longrightarrow>
    delivers rt eng fmt02 alloc calloc n
      (client_acts p (login_written False (ns_users n p)) (n\<lparr>ns_dialing := ns_dialing n - {p}\<rparr>))"
| wrote: "p \<in> ns_writing n \<Longrightarrow>
    delivers rt eng fmt02 alloc calloc n
      (client_acts p (msg_write_handler False (ns_users n p)) (n\<lparr>ns_writing := ns_writing n - {p}\<rparr>))"
| hears: "\<lbrakk>p \<in> set (pool (ns_server n)); cl_reading (ns_users n p) \<noteq> Idle;
      ns_down n p = block @ rest; length block = client_wants (ns_users n p);
      read_completes rt calloc (Some block) (ns_users n p) = Inr c\<rbrakk> \<Longrightarrow>
    delivers rt eng fmt02 alloc calloc n (take_down p rest (client_acts p c n))"
| header_comes: "\<lbrakk>p \<in> set (pool (ns_server n)); cn_reading (conns (ns_server n) p) = ReadHeader;
      ns_up n p = block @ rest; length block = SIZE_HEADER;
      do_parse_pb_header rt alloc p (Some block) (ns_server n) = Inr s\<rbrakk> \<Longrightarrow>
    delivers rt eng fmt02 alloc calloc n (take_up p rest (server_acts s n))"
| body_comes: "\<lbrakk>p \<in> set (pool (ns_server n)); cn_reading (conns (ns_server n) p) = ReadBody h;
      ns_up n p = data @ rest; length data = unat (hdr_length h)\<rbrakk> \<Longrightarrow>
    delivers rt eng fmt02 alloc calloc n
      (take_up p rest (server_acts (body_handler rt h p data (ns_server n)) n))"
| works: "\<lbrakk>tasks (ns_server n) = before @ t # after;
      run_task rt eng fmt02 t ((ns_server n)\<lparr>tasks := before @ after\<rparr>) = Inr s\<rbrakk> \<Longrightarrow>
    delivers rt eng fmt02 alloc calloc n (server_acts s n)"
| sent: "\<lbrakk>p \<in> set (pool (ns_server n)); cn_writing (conns (ns_server n) p)\<rbrakk> \<Longrightarrow>
    delivers rt eng fmt02 alloc calloc n (server_acts (queue_write_handler rt p True (ns_server n)) n)"

text \<open>What can go wrong: a write that is in flight, or a read. A direct write of the server is not
  followed by anything, unless it fails.\<close>

inductive breaks ::
  "pb_rt \<Rightarrow> nat \<Rightarrow> nat \<Rightarrow> 'h net \<Rightarrow> 'h net \<Rightarrow> bool"
  for rt alloc calloc n where
  dial_fails: "p \<in> ns_dialing n \<Longrightarrow>
    breaks rt alloc calloc n
      (client_acts p (login_written True (ns_users n p)) (n\<lparr>ns_dialing := ns_dialing n - {p}\<rparr>))"
| write_fails: "p \<in> ns_writing n \<Longrightarrow>
    breaks rt alloc calloc n
      (client_acts p (msg_write_handler True (ns_users n p)) (n\<lparr>ns_writing := ns_writing n - {p}\<rparr>))"
| hears_no_more: "\<lbrakk>p \<in> set (pool (ns_server n));
      read_completes rt calloc None (ns_users n p) = Inr c\<rbrakk> \<Longrightarrow>
    breaks rt alloc calloc n (client_acts p c n)"
| header_lost: "\<lbrakk>p \<in> set (pool (ns_server n)); cn_reading (conns (ns_server n) p) = ReadHeader;
      do_parse_pb_header rt alloc p None (ns_server n) = Inr s\<rbrakk> \<Longrightarrow>
    breaks rt alloc calloc n (server_acts s n)"
| not_sent: "\<lbrakk>p \<in> set (pool (ns_server n)); cn_writing (conns (ns_server n) p)\<rbrakk> \<Longrightarrow>
    breaks rt alloc calloc n (server_acts (queue_write_handler rt p False (ns_server n)) n)"
| sent_directly: "\<lbrakk>p \<in> set (pool (ns_server n)); Direct f \<in> set (cn_started (conns (ns_server n) p))\<rbrakk> \<Longrightarrow>
    breaks rt alloc calloc n (server_acts (direct_write_handler rt p ok (ns_server n)) n)"

text \<open>A user who opens a channel makes it the current one and asks for its history.\<close>

definition open_channel :: "int32 \<Rightarrow> client \<Rightarrow> client" where
  "open_channel r c = snd (client_get_history r (set_current_channel r c))"

text \<open>A step of the system is one of these or an act of a user.\<close>

inductive net_step ::
  "pb_rt \<Rightarrow> 'h sqlite \<Rightarrow> (nat \<Rightarrow> string) \<Rightarrow> nat \<Rightarrow> nat \<Rightarrow> 'h net \<Rightarrow> 'h net \<Rightarrow> bool"
  for rt eng fmt02 alloc calloc n where
  delivered: "delivers rt eng fmt02 alloc calloc n n' \<Longrightarrow> net_step rt eng fmt02 alloc calloc n n'"
| broken: "breaks rt alloc calloc n n' \<Longrightarrow> net_step rt eng fmt02 alloc calloc n n'"
| dial: "\<lbrakk>login_typed rt l pw; login_frame rt l pw cmd = Inr frame; length header = SIZE_HEADER;
      p = length (pool (ns_server n))\<rbrakk> \<Longrightarrow>
    net_step rt eng fmt02 alloc calloc n
      (n\<lparr>ns_server := scan_acception False i header (ns_server n),
         ns_users := (ns_users n)(p := do_connect False frame (set_login l (Client_ctor ci cheader))),
         ns_up := (ns_up n)(p := frame), ns_down := (ns_down n)(p := []),
         ns_dialing := insert p (ns_dialing n), ns_names := insert l (ns_names n)\<rparr>)"
| asks: "p \<in> set (pool (ns_server n)) \<Longrightarrow>
    net_step rt eng fmt02 alloc calloc n (client_acts p (client_change_room rt r (ns_users n p)) n)"
| says: "\<lbrakk>p \<in> set (pool (ns_server n)); text_typed rt t;
      d = \<lparr>td_room_id = r, td_login = cl_login (ns_users n p), td_text = t\<rparr>\<rbrakk> \<Longrightarrow>
    net_step rt eng fmt02 alloc calloc n
      (client_acts p (send_msg_to_server rt t r (ns_users n p)) (n\<lparr>ns_spoken := insert d (ns_spoken n)\<rparr>))"
| browses: "p \<in> set (pool (ns_server n)) \<Longrightarrow>
    net_step rt eng fmt02 alloc calloc n (client_acts p (open_channel r (ns_users n p)) n)"

text \<open>The start: no connection yet, and in the file nothing but readable texts.\<close>

definition net_start :: "'h Database \<Rightarrow> TextSendData set \<Rightarrow> 'h net" where
  "net_start db past =
     \<lparr>ns_server = Server_ctor (Some db), ns_users = (\<lambda>p. Client_ctor 0 []), ns_up = (\<lambda>p. []),
      ns_down = (\<lambda>p. []), ns_dialing = {}, ns_writing = {}, ns_spoken = past, ns_names = {[], ''unused''}\<rparr>"

inductive net_reach ::
  "pb_rt \<Rightarrow> 'h sqlite \<Rightarrow> (nat \<Rightarrow> string) \<Rightarrow> nat \<Rightarrow> nat \<Rightarrow> 'h Database \<Rightarrow> TextSendData set \<Rightarrow> 'h net \<Rightarrow> bool"
  for rt eng fmt02 alloc calloc db past where
  start: "net_reach rt eng fmt02 alloc calloc db past (net_start db past)"
| step: "net_reach rt eng fmt02 alloc calloc db past n \<Longrightarrow> net_step rt eng fmt02 alloc calloc n n' \<Longrightarrow>
    net_reach rt eng fmt02 alloc calloc db past n'"

section \<open>Frames and streams\<close>

text \<open>A read of \<open>n\<close> bytes at the start of a frame takes the head of the frame, the read of as many
  bytes as are left of it takes the rest.\<close>

lemma head_of_stream:
  assumes "concat fs = block @ rest" and "length block = n" and "0 < n" and "\<forall>f \<in> set fs. n \<le> length f"
  shows "\<exists>f fs'. fs = f # fs' \<and> block = take n f \<and> rest = drop n f @ concat fs'"
proof (cases fs)
  case (Cons f fs')
  have "block = take n (concat fs)" and "rest = drop n (concat fs)"
    using assms(1,2) by simp_all
  with Cons assms(4) show ?thesis by auto
qed (use assms in simp)

definition asks_bytes :: "pb_rt \<Rightarrow> TextSendData set \<Rightarrow> string set \<Rightarrow> bytes \<Rightarrow> bool" where
  "asks_bytes rt S N f \<longleftrightarrow> (\<exists>a q. asked rt S N a q \<and> f = request_bytes rt (a, q))"

lemma asks_bytes_mono: "asks_bytes rt S N f \<Longrightarrow> S \<subseteq> S' \<Longrightarrow> N \<subseteq> N' \<Longrightarrow> asks_bytes rt S' N' f"
  by (auto simp: asks_bytes_def intro: asked_mono)

text \<open>A stream of whole frames.\<close>

definition frames_of :: "(bytes \<Rightarrow> bool) \<Rightarrow> bytes \<Rightarrow> bool" where
  "frames_of P stream \<longleftrightarrow> (\<exists>fs. list_all P fs \<and> stream = concat fs)"

lemma frames_of_concat [simp]: "list_all P fs \<Longrightarrow> frames_of P (concat fs)"
  by (auto simp: frames_of_def)

lemma frames_of_more: "frames_of P stream \<Longrightarrow> list_all P fs \<Longrightarrow> frames_of P (stream @ concat fs)"
  unfolding frames_of_def by (metis concat_append list_all_append)

lemma link_mono:
  assumes "S \<subseteq> S'" and "N \<subseteq> N'"
  shows "frames_of (asks_bytes rt S N) stream \<Longrightarrow> frames_of (asks_bytes rt S' N') stream"
    and "list_all (asks_bytes rt S N) fs \<Longrightarrow> list_all (asks_bytes rt S' N') fs"
  using asks_bytes_mono [OF _ assms]
  unfolding frames_of_def list_all_iff by blast+

text \<open>What is in flight on the way up fits what the server reads next.\<close>

inductive request_link :: "pb_rt \<Rightarrow> TextSendData set \<Rightarrow> string set \<Rightarrow> Header \<Rightarrow> bytes \<Rightarrow> bool"
  for rt S N h where
  request_linkI: "\<lbrakk>asked rt S N (TypeCommand_cast (hdr_command h)) q;
      body = drop SIZE_HEADER (request_bytes rt (TypeCommand_cast (hdr_command h), q));
      unat (hdr_length h) = length body; frames_of (asks_bytes rt S N) rest\<rbrakk> \<Longrightarrow>
    request_link rt S N h (body @ rest)"

definition server_link :: "pb_rt \<Rightarrow> TextSendData set \<Rightarrow> string set \<Rightarrow> reading \<Rightarrow> bytes \<Rightarrow> bool" where
  "server_link rt S N rd stream \<longleftrightarrow>
     (case rd of
        ReadHeader \<Rightarrow> frames_of (asks_bytes rt S N) stream
      | ReadBody h \<Rightarrow> request_link rt S N h stream
      | _ \<Rightarrow> True)"

text \<open>A write of the server: a message that was heard, from the queue, or an answer, directly.\<close>

inductive utters :: "pb_rt \<Rightarrow> TextSendData set \<Rightarrow> string set \<Rightarrow> sent \<Rightarrow> TypeCommand \<Rightarrow> Response \<Rightarrow> bool"
  for rt S N where
  utters_text: "heard S N d \<Longrightarrow> utters rt S N (Queued (message_frame rt d)) EchoResponse
    (create_text_response (td_login d) (td_room_id d) (td_text d))"
| utters_answer: "answered rt a m \<Longrightarrow> utters rt S N (Direct (response_bytes rt (a, m))) a m"

definition uttered :: "pb_rt \<Rightarrow> TextSendData set \<Rightarrow> string set \<Rightarrow> sent \<Rightarrow> bool" where
  "uttered rt S N w \<longleftrightarrow> (\<exists>a m. utters rt S N w a m)"

lemma utters_mono: "utters rt S N w a m \<Longrightarrow> S \<subseteq> S' \<Longrightarrow> N \<subseteq> N' \<Longrightarrow> utters rt S' N' w a m"
  by (induction rule: utters.induct) (auto intro: utters.intros heard_mono)

lemma utters_sent:
  "utters rt S N w a m \<Longrightarrow> sent_out rt S N a m \<and> sent_bytes w = response_bytes rt (a, m)"
  by (induction rule: utters.induct) (auto intro: sent_out.intros simp: server_frame_bytes)

text \<open>What a client shows: of a list of messages each in the history of its room, in order.\<close>

definition shows_all :: "client \<Rightarrow> TextSendData list \<Rightarrow> bool" where
  "shows_all c es \<longleftrightarrow>
     (\<forall>r. fst (client_get_history r c) = map shown (filter (\<lambda>d. td_room_id d = r) es))"

lemma shows_all_same: "cl_channels_history c' = cl_channels_history c \<Longrightarrow> shows_all c' es = shows_all c es"
  by (simp add: shows_all_def client_get_history_eq)

lemma open_channel_fields [simp]:
  "cl_login (open_channel r c) = cl_login c" "cl_queue (open_channel r c) = cl_queue c"
  "cl_started (open_channel r c) = cl_started c" "cl_reading (open_channel r c) = cl_reading c"
  "cl_read_buffer (open_channel r c) = cl_read_buffer c" "cl_current_room (open_channel r c) = r"
  "cl_signals (open_channel r c) = cl_signals c"
  "fst (client_get_history q (open_channel r c)) = fst (client_get_history q c)"
  by (auto simp: open_channel_def client_get_history_def set_current_channel_def Let_def um_simps split: option.split)

text \<open>The writes of the server that a client has heard, those that are still coming, and what is in
  flight of them: whole frames, or first the rest of a frame whose header the client has read.\<close>

inductive body_link :: "pb_rt \<Rightarrow> TextSendData set \<Rightarrow> string set \<Rightarrow> client \<Rightarrow> sent list \<Rightarrow> bytes \<Rightarrow> bool"
  for rt S N c where
  body_linkI: "\<lbrakk>utters rt S N w a m; reading_for a = cl_reading c;
      body = drop SIZE_HEADER (sent_bytes w); length (cl_read_buffer c) = length body\<rbrakk> \<Longrightarrow>
    body_link rt S N c (w # coming) (body @ concat (map sent_bytes coming))"

definition awaits :: "pb_rt \<Rightarrow> TextSendData set \<Rightarrow> string set \<Rightarrow> bool \<Rightarrow> client \<Rightarrow> sent list \<Rightarrow> bytes \<Rightarrow> bool" where
  "awaits rt S N dialing c coming stream \<longleftrightarrow>
     (cl_reading c = WaitHeader \<or> dialing \<longrightarrow> stream = concat (map sent_bytes coming)) \<and>
     (cl_reading c \<noteq> Idle \<and> cl_reading c \<noteq> WaitHeader \<longrightarrow> body_link rt S N c coming stream)"

inductive hears_all :: "pb_rt \<Rightarrow> TextSendData set \<Rightarrow> string set \<Rightarrow> bool \<Rightarrow> client \<Rightarrow> sent list \<Rightarrow> bytes \<Rightarrow> bool"
  for rt S N dialing c where
  hears_allI: "\<lbrakk>List.map_filter queued_of past = map (message_frame rt) es; list_all (heard S N) es;
      shows_all c es; awaits rt S N dialing c coming stream\<rbrakk> \<Longrightarrow>
    hears_all rt S N dialing c (past @ coming) stream"

text \<open>The client's end: whom it speaks for, what it has queued, and what it has heard.\<close>

definition client_link ::
  "pb_rt \<Rightarrow> TextSendData set \<Rightarrow> string set \<Rightarrow> bool \<Rightarrow> client \<Rightarrow> sent list \<Rightarrow> bytes \<Rightarrow> bool" where
  "client_link rt S N dialing c started stream \<longleftrightarrow>
     plain (cl_login c) \<and> cl_login c \<noteq> [] \<and> str_ok rt (cl_login c) \<and>
     list_all (asks_bytes rt S N) (cl_queue c) \<and> (dialing \<longrightarrow> cl_reading c = Idle) \<and>
     list_all (uttered rt S N) started \<and> hears_all rt S N dialing c started stream"

lemma body_link_same:
  assumes "body_link rt S N c coming stream" and "cl_reading c' = cl_reading c"
    and "length (cl_read_buffer c') = length (cl_read_buffer c)"
  shows "body_link rt S N c' coming stream"
  using assms by (induction rule: body_link.induct) (auto intro: body_linkI)

text \<open>A client that took nothing off the stream.\<close>

lemma hears_all_change:
  assumes "hears_all rt S N dialing c started stream" and "cl_channels_history c' = cl_channels_history c"
    and "\<And>coming. awaits rt S N dialing c coming stream \<Longrightarrow> awaits rt S N dialing' c' coming stream"
  shows "hears_all rt S N dialing' c' started stream"
  using assms(1)
proof cases
  case (hears_allI past es coming)
  then show ?thesis
    using shows_all_same [OF assms(2)] assms(3) by (auto intro: hears_all.hears_allI)
qed

lemma hears_all_same:
  assumes "hears_all rt S N dialing c started stream" and "cl_reading c' = cl_reading c"
    and "length (cl_read_buffer c') = length (cl_read_buffer c)" and "cl_channels_history c' = cl_channels_history c"
  shows "hears_all rt S N dialing c' started stream"
  using assms(1,4) by (rule hears_all_change) (use body_link_same [OF _ assms(2,3)] assms(2) in \<open>auto simp: awaits_def\<close>)

lemma hears_all_opens:
  assumes "hears_all rt S N dialing c started stream"
  shows "hears_all rt S N dialing (open_channel r c) started stream"
  using assms
proof cases
  case (hears_allI past es coming)
  have "awaits rt S N dialing (open_channel r c) coming stream"
    using hears_allI(5) body_link_same [of rt S N c coming stream "open_channel r c"] by (auto simp: awaits_def)
  then show ?thesis
    using hears_allI(1-4) by (auto intro: hears_all.hears_allI simp: shows_all_def)
qed

lemma server_link_mono:
  assumes "server_link rt S N rd stream" and "S \<subseteq> S'" and "N \<subseteq> N'"
  shows "server_link rt S' N' rd stream"
proof -
  have "request_link rt S N h stream \<Longrightarrow> request_link rt S' N' h stream" for h
    by (induction rule: request_link.induct)
      (blast intro: request_linkI link_mono(1) [OF assms(2,3)] asked_mono [OF _ assms(2,3)])
  then show ?thesis
    using assms(1) link_mono(1) [OF assms(2,3)] by (cases rd) (simp_all add: server_link_def)
qed

lemma client_link_mono:
  assumes "client_link rt S N dialing c started stream" and "S \<subseteq> S'" and "N \<subseteq> N'"
  shows "client_link rt S' N' dialing c started stream"
proof -
  have "body_link rt S N c coming stream \<Longrightarrow> body_link rt S' N' c coming stream" for coming
    by (induction rule: body_link.induct) (blast intro: body_linkI utters_mono [OF _ assms(2,3)])
  then have waits: "awaits rt S N dialing c coming stream \<Longrightarrow> awaits rt S' N' dialing c coming stream" for coming
    unfolding awaits_def by blast
  have texts: "list_all (heard S N) es \<Longrightarrow> list_all (heard S' N') es" for es
    using heard_mono [OF _ assms(2,3)] by (simp add: list_all_iff)
  have "hears_all rt S N dialing c started stream"
    using assms(1) by (simp add: client_link_def)
  then have "hears_all rt S' N' dialing c started stream"
  proof cases
    case (hears_allI past es coming)
    show ?thesis
      unfolding hears_allI(1)
      by (rule hears_all.hears_allI [OF hears_allI(2) texts [OF hears_allI(3)] hears_allI(4) waits [OF hears_allI(5)]])
  qed
  moreover have "list_all (uttered rt S' N') started"
    using assms(1) utters_mono [OF _ assms(2,3)] unfolding client_link_def uttered_def list_all_iff by meson
  ultimately show ?thesis
    using assms(1) link_mono(2) [OF assms(2,3), of rt] unfolding client_link_def by blast
qed

lemma server_link_more:
  assumes "server_link rt S N rd stream" and "list_all (asks_bytes rt S N) fs"
  shows "server_link rt S N rd (stream @ concat fs)"
proof -
  have "request_link rt S N h stream \<Longrightarrow> request_link rt S N h (stream @ concat fs)" for h
    by (induction rule: request_link.induct)
      (unfold append.assoc, blast intro: request_linkI frames_of_more [OF _ assms(2)])
  then show ?thesis
    using assms(1) frames_of_more [OF _ assms(2)] by (cases rd) (simp_all add: server_link_def)
qed

lemma client_link_more:
  assumes "client_link rt S N dialing c started stream" and "list_all (uttered rt S N) new"
  shows "client_link rt S N dialing c (started @ new) (stream @ concat (map sent_bytes new))"
proof -
  have "body_link rt S N c coming stream \<Longrightarrow>
      body_link rt S N c (coming @ new) (stream @ concat (map sent_bytes new))" for coming
    by (induction rule: body_link.induct)
      (unfold append.assoc append_Cons concat_append [symmetric] map_append [symmetric], blast intro: body_linkI)
  then have waits: "awaits rt S N dialing c coming stream \<Longrightarrow>
      awaits rt S N dialing c (coming @ new) (stream @ concat (map sent_bytes new))" for coming
    by (simp add: awaits_def)
  have "hears_all rt S N dialing c started stream"
    using assms(1) by (simp add: client_link_def)
  then have "hears_all rt S N dialing c (started @ new) (stream @ concat (map sent_bytes new))"
  proof cases
    case (hears_allI past es coming)
    show ?thesis
      unfolding hears_allI(1) append.assoc
      by (rule hears_all.hears_allI [OF hears_allI(2-4) waits [OF hears_allI(5)]])
  qed
  then show ?thesis
    using assms unfolding client_link_def by simp
qed

section \<open>The client's reads\<close>

definition same_session :: "client \<Rightarrow> client \<Rightarrow> bool" where
  "same_session c c' \<longleftrightarrow> cl_login c' = cl_login c \<and> cl_queue c' = cl_queue c \<and> cl_started c' = cl_started c"

lemma response_bytes_read:
  assumes "pb_runtime rt" and "sent_out rt S N a m" and "\<And>d. heard S N d \<Longrightarrow> readable rt d"
  shows "\<exists>h. ParseFromArray (Header_InternalParse rt) Header_SharedCtor (take SIZE_HEADER (response_bytes rt (a, m))) = (True, h) \<and>
    TypeCommand_cast (hdr_command h) = a \<and>
    unat (hdr_length h) = length (drop SIZE_HEADER (response_bytes rt (a, m))) \<and>
    unat (hdr_length h) < 1073741910 \<and>
    ParseFromArray (Response_InternalParse rt) Response_SharedCtor (drop SIZE_HEADER (response_bytes rt (a, m))) = (True, m)"
    and "SIZE_HEADER \<le> length (response_bytes rt (a, m))"
proof -
  note wf = sent_out_wf [OF assms(2,3)]
  obtain h where h: "ParseFromArray (Header_InternalParse rt) Header_SharedCtor (take SIZE_HEADER (response_bytes rt (a, m))) = (True, h)"
    "TypeCommand_cast (hdr_command h) = a"
    "unat (hdr_length h) = length (drop SIZE_HEADER (response_bytes rt (a, m)))"
    "ParseFromArray (Response_InternalParse rt) Response_SharedCtor (drop SIZE_HEADER (response_bytes rt (a, m))) = (True, m)"
    using pb_runtime.response_frame_read [OF assms(1), of m a] wf by (auto simp: response_bytes_def)
  have "length (drop SIZE_HEADER (response_bytes rt (a, m))) = Response_ByteSizeLong rt m"
    using pb_runtime.response_frame [OF assms(1), of m a] wf pb_runtime.Response_size [OF assms(1), of m]
    by (simp add: response_bytes_def)
  with h pb_runtime.Response_small [OF assms(1), of m] wf
  show "\<exists>h. ParseFromArray (Header_InternalParse rt) Header_SharedCtor (take SIZE_HEADER (response_bytes rt (a, m))) = (True, h) \<and>
    TypeCommand_cast (hdr_command h) = a \<and>
    unat (hdr_length h) = length (drop SIZE_HEADER (response_bytes rt (a, m))) \<and>
    unat (hdr_length h) < 1073741910 \<and>
    ParseFromArray (Response_InternalParse rt) Response_SharedCtor (drop SIZE_HEADER (response_bytes rt (a, m))) = (True, m)"
    by (intro exI [of _ h]) simp
  show "SIZE_HEADER \<le> length (response_bytes rt (a, m))"
    using pb_runtime.response_frame [OF assms(1), of m a] wf by (simp add: response_bytes_def)
qed

lemma client_head:
  assumes "pb_runtime rt" and "sent_out rt S N a m" and "\<And>d. heard S N d \<Longrightarrow> readable rt d"
    and "1073741910 \<le> calloc" and "cl_reading c = WaitHeader"
  shows "\<exists>c'. read_completes rt calloc (Some (take SIZE_HEADER (response_bytes rt (a, m)))) c = Inr c' \<and>
    cl_reading c' = reading_for a \<and>
    length (cl_read_buffer c') = length (drop SIZE_HEADER (response_bytes rt (a, m))) \<and>
    cl_channels_history c' = cl_channels_history c \<and> same_session c c'"
proof -
  obtain h where h: "ParseFromArray (Header_InternalParse rt) Header_SharedCtor (take SIZE_HEADER (response_bytes rt (a, m))) = (True, h)"
    "TypeCommand_cast (hdr_command h) = a" "unat (hdr_length h) = length (drop SIZE_HEADER (response_bytes rt (a, m)))"
    "unat (hdr_length h) < 1073741910"
    using response_bytes_read(1) [OF assms(1-3)] by blast
  from h(4) assms(4) have "unat (hdr_length h) \<le> calloc" by simp
  then show ?thesis
    unfolding h(3) [symmetric]
    by (simp add: read_completes_def assms(5) do_read_pb_header_def h(1,2) async_read_pb_msg_reading
        resize_def same_session_def)
qed

lemma client_body:
  assumes "pb_runtime rt" and "utters rt S N w a m" and "\<And>d. heard S N d \<Longrightarrow> readable rt d"
    and "reading_for a = cl_reading c"
  shows "\<exists>c' ds. read_completes rt calloc (Some (drop SIZE_HEADER (sent_bytes w))) c = Inr c' \<and>
    cl_reading c' \<in> {Idle, WaitHeader} \<and> same_session c c' \<and>
    List.map_filter queued_of [w] = map (message_frame rt) ds \<and> list_all (heard S N) ds \<and>
    (\<forall>es. shows_all c es \<longrightarrow> shows_all c' (es @ ds))"
proof -
  have w: "sent_out rt S N a m" "sent_bytes w = response_bytes rt (a, m)"
    using utters_sent [OF assms(2)] by auto
  have parse: "parse_response rt (body_read (drop SIZE_HEADER (sent_bytes w)) c) = (True, m)"
    using response_bytes_read(1) [OF assms(1) w(1) assms(3)] by (auto simp: parse_response_def body_read_def w(2))
  note read = read_completes_def reading_for_def client_handlers same_session_def body_read_def
  show ?thesis
    using assms(2)
  proof cases
    case (utters_text d)
    define c' where "c' = client_async_read_pb_header (emit (SendText (shown d))
      ((body_read (drop SIZE_HEADER (sent_bytes w)) c)\<lparr>cl_channels_history := push_history (shown d) (cl_channels_history c)\<rparr>))"
    have "read_completes rt calloc (Some (drop SIZE_HEADER (sent_bytes w))) c = Inr c'"
      using assms(4) parse utters_text by (simp add: read c'_def shown_def)
    moreover have "cl_reading c' \<in> {Idle, WaitHeader}" "same_session c c'"
      by (simp_all add: c'_def read)
    moreover have "shows_all c es \<longrightarrow> shows_all c' (es @ [d])" for es
      by (auto simp: c'_def shows_all_def read client_get_history_eq push_history_simps shown_def split: option.splits)
    ultimately show ?thesis
      using utters_text by (intro exI [of _ c'] exI [of _ "[d]"]) (simp add: List.map_filter_def)
  next
    case utters_answer
    have "\<exists>c'. read_completes rt calloc (Some (drop SIZE_HEADER (sent_bytes w))) c = Inr c' \<and>
        cl_reading c' \<in> {Idle, WaitHeader} \<and> same_session c c' \<and>
        (\<forall>r. fst (client_get_history r c') = fst (client_get_history r c))"
      using utters_answer(2)
    proof cases
      case (1 i)
      with assms(4) parse show ?thesis by (auto simp: read client_get_history_eq)
    next
      case (2 i)
      with assms(4) parse show ?thesis by (auto simp: read client_get_history_eq)
    next
      case (3 r flag)
      with assms(4) parse show ?thesis
        by (auto simp: read client_get_history_eq um_simps split: option.split)
    qed
    then obtain c' where "read_completes rt calloc (Some (drop SIZE_HEADER (sent_bytes w))) c = Inr c'"
      "cl_reading c' \<in> {Idle, WaitHeader}" "same_session c c'" "shows_all c' es = shows_all c es" for es
      by (auto simp: shows_all_def)
    then show ?thesis
      using utters_answer(1) by (intro exI [of _ c'] exI [of _ "[]"]) (simp add: List.map_filter_def)
  qed
qed

lemma client_read_fails:
  assumes "read_completes rt calloc None c = Inr c'"
  shows "cl_reading c' = Idle \<and> same_session c c' \<and> cl_channels_history c' = cl_channels_history c"
  using assms
  by (auto simp: read_completes_def do_read_pb_header_def client_handlers same_session_def split: client_reading.splits)

end
