(* ===== verification/WireTypes.thy ===== *)
theory WireTypes
  imports MsgFactory
begin

text \<open>
  What the parsers of the generated classes guarantee about bytes that nobody vouches for: a message
  that was parsed to its end holds only valid UTF-8 in its strings; and a message with something
  behind it is reported as a failure although its fields were read.
\<close>

section \<open>An invariant of the parse loop\<close>

lemma parse_loop_keeps:
  assumes "\<And>tag m bs m' bs'. I m \<Longrightarrow> field tag m bs = FieldOk m' bs' \<Longrightarrow> I m'"
    and "\<And>u m. I m \<Longrightarrow> I (upd (\<lambda>_. u) m)"
  shows "I m \<Longrightarrow> parse_loop rt field unk upd f m bs = Ended m' t \<Longrightarrow> I m'"
proof (induction f arbitrary: m bs)
  case (Suc f)
  show ?case
  proof (cases "bs = []")
    case False
    then obtain tag bs1 where read: "rt_ReadTag rt bs = Some (tag, bs1)"
      using Suc.prems(2) by (auto split: option.splits)
    show ?thesis
    proof (cases "field tag m bs1")
      case (FieldOk m1 bs2)
      then show ?thesis
        using Suc.IH [of m1 bs2] Suc.prems assms(1) [OF Suc.prems(1) FieldOk] False read by simp
    next
      case (FieldFail m1)
      then show ?thesis using Suc.prems(2) False read by simp
    next
      case FieldOutOfFuel
      then show ?thesis using Suc.prems(2) False read by simp
    next
      case Unusual
      obtain u rest where unk: "rt_UnknownFieldParse rt tag (unk m) bs1 = (u, rest)"
        by (cases "rt_UnknownFieldParse rt tag (unk m) bs1")
      show ?thesis
        using Suc.IH [OF assms(2) [OF Suc.prems(1)]] Suc.prems False read Unusual unk
        by (auto split: if_splits option.splits)
    qed
  qed (use Suc.prems in simp)
qed simp

lemma parse_message_keeps:
  assumes "parse_message rt field unk upd m bs = Ended m' t" and "I m"
    and "\<And>tag m bs m' bs'. I m \<Longrightarrow> field tag m bs = FieldOk m' bs' \<Longrightarrow> I m'"
    and "\<And>u m. I m \<Longrightarrow> I (upd (\<lambda>_. u) m)"
  shows "I m'"
  using parse_loop_keeps [of I field upd m rt unk "Suc (length bs)" bs m' t] assms
  by (simp add: parse_message_def del: parse_loop.simps)

text \<open>What a field that was understood leaves behind.\<close>

lemma string_field_ok:
  "string_field rt get upd m bs = FieldOk m' bs' \<Longrightarrow> \<exists>s. rt_VerifyUTF8 rt s \<and> m' = upd (\<lambda>_. s) m"
  by (auto simp: string_field_def Let_def split: prod.splits option.splits if_splits)

lemma varint_field_ok:
  "varint_field rt upd m bs = FieldOk m' bs' \<Longrightarrow> \<exists>v. m' = upd (\<lambda>_. v) m"
  by (auto simp: varint_field_def Let_def split: prod.splits option.splits)

lemma enum_field_ok:
  "enum_field rt upd m bs = FieldOk m' bs' \<Longrightarrow> \<exists>v. m' = upd (\<lambda>_. v) m"
  by (auto simp: enum_field_def split: prod.splits option.splits)

lemma message_field_ok:
  "message_field rt inner sub put bs = FieldOk m' bs' \<Longrightarrow>
    \<exists>sub' bs1. inner sub bs1 = Ended sub' None \<and> m' = put sub'"
  by (auto simp: message_field_def ParseMessage_def
      split: prod.splits option.splits parse_result.splits if_splits)

lemmas fields_ok = string_field_ok varint_field_ok enum_field_ok

section \<open>Strings of requests and responses\<close>

definition Request_utf8 :: "pb_rt \<Rightarrow> Request \<Rightarrow> bool" where
  "Request_utf8 rt r \<longleftrightarrow> (case req_msg r of
     kRegisterRequest x \<Rightarrow> rt_VerifyUTF8 rt (reg_login x) \<and> rt_VerifyUTF8 rt (reg_password x)
   | kInputRequest x \<Rightarrow> rt_VerifyUTF8 rt (inp_login x) \<and> rt_VerifyUTF8 rt (inp_password x)
   | kTextRequest x \<Rightarrow> rt_VerifyUTF8 rt (txt_login x) \<and> rt_VerifyUTF8 rt (txt_text x)
   | kJoinRoomRequest x \<Rightarrow> True | Request_MSG_NOT_SET \<Rightarrow> True)"

definition Response_utf8 :: "pb_rt \<Rightarrow> Response \<Rightarrow> bool" where
  "Response_utf8 rt r \<longleftrightarrow> (case res_msg r of
     kTextResponse x \<Rightarrow> rt_VerifyUTF8 rt (trs_login x) \<and> rt_VerifyUTF8 rt (trs_text x)
   | _ \<Rightarrow> True)"

lemma InRequest_keeps_utf8:
  assumes "InRequest_InternalParse rt m bs = Ended m' t" and "rt_VerifyUTF8 rt (inp_login m)"
    and "rt_VerifyUTF8 rt (inp_password m)"
  shows "rt_VerifyUTF8 rt (inp_login m') \<and> rt_VerifyUTF8 rt (inp_password m')"
  by (rule parse_message_keeps [where I = "\<lambda>m. rt_VerifyUTF8 rt (inp_login m) \<and> rt_VerifyUTF8 rt (inp_password m)",
        OF assms(1) [unfolded InRequest_InternalParse_def]])
    (use assms(2,3) in \<open>auto simp: InRequest_field_def split: if_splits dest!: fields_ok\<close>)

lemma RegRequest_keeps_utf8:
  assumes "RegRequest_InternalParse rt m bs = Ended m' t" and "rt_VerifyUTF8 rt (reg_login m)"
    and "rt_VerifyUTF8 rt (reg_password m)"
  shows "rt_VerifyUTF8 rt (reg_login m') \<and> rt_VerifyUTF8 rt (reg_password m')"
  by (rule parse_message_keeps [where I = "\<lambda>m. rt_VerifyUTF8 rt (reg_login m) \<and> rt_VerifyUTF8 rt (reg_password m)",
        OF assms(1) [unfolded RegRequest_InternalParse_def]])
    (use assms(2,3) in \<open>auto simp: RegRequest_field_def split: if_splits dest!: fields_ok\<close>)

lemma TextRequest_keeps_utf8:
  assumes "TextRequest_InternalParse rt m bs = Ended m' t" and "rt_VerifyUTF8 rt (txt_login m)"
    and "rt_VerifyUTF8 rt (txt_text m)"
  shows "rt_VerifyUTF8 rt (txt_login m') \<and> rt_VerifyUTF8 rt (txt_text m')"
  by (rule parse_message_keeps [where I = "\<lambda>m. rt_VerifyUTF8 rt (txt_login m) \<and> rt_VerifyUTF8 rt (txt_text m)",
        OF assms(1) [unfolded TextRequest_InternalParse_def]])
    (use assms(2,3) in \<open>auto simp: TextRequest_field_def split: if_splits dest!: fields_ok\<close>)

lemma TextResponse_keeps_utf8:
  assumes "TextResponse_InternalParse rt m bs = Ended m' t" and "rt_VerifyUTF8 rt (trs_login m)"
    and "rt_VerifyUTF8 rt (trs_text m)"
  shows "rt_VerifyUTF8 rt (trs_login m') \<and> rt_VerifyUTF8 rt (trs_text m')"
  by (rule parse_message_keeps [where I = "\<lambda>m. rt_VerifyUTF8 rt (trs_login m) \<and> rt_VerifyUTF8 rt (trs_text m)",
        OF assms(1) [unfolded TextResponse_InternalParse_def]])
    (use assms(2,3) in \<open>auto simp: TextResponse_field_def split: if_splits dest!: fields_ok\<close>)

lemmas keeps_utf8 = InRequest_keeps_utf8 RegRequest_keeps_utf8 TextRequest_keeps_utf8 TextResponse_keeps_utf8

lemma Request_keeps_utf8:
  assumes "rt_VerifyUTF8 rt []" and "Request_InternalParse rt m bs = Ended m' t" and "Request_utf8 rt m"
  shows "Request_utf8 rt m'"
  by (rule parse_message_keeps [where I = "Request_utf8 rt", OF assms(2) [unfolded Request_InternalParse_def] assms(3)])
    (use assms(1) in \<open>auto simp: Request_field_def Request_utf8_def Request_slot_defs Let_def
        InRequest_SharedCtor_def RegRequest_SharedCtor_def TextRequest_SharedCtor_def
      split: if_splits Request_msg.splits dest!: message_field_ok dest: keeps_utf8\<close>)

lemma Response_keeps_utf8:
  assumes "rt_VerifyUTF8 rt []" and "Response_InternalParse rt m bs = Ended m' t" and "Response_utf8 rt m"
  shows "Response_utf8 rt m'"
  by (rule parse_message_keeps [where I = "Response_utf8 rt", OF assms(2) [unfolded Response_InternalParse_def] assms(3)])
    (use assms(1) in \<open>auto simp: Response_field_def Response_utf8_def Response_slot_defs Let_def TextResponse_SharedCtor_def
      split: if_splits Response_msg.splits dest!: message_field_ok dest: keeps_utf8\<close>)

text \<open>C18: whatever bytes arrive, a request or a response that the parser accepts holds only valid UTF-8
  in its logins, passwords and texts.\<close>

theorem parsed_strings_are_utf8:
  assumes "pb_runtime rt"
  shows "(ParseFromArray (Request_InternalParse rt) Request_SharedCtor bs = (True, req) \<longrightarrow> Request_utf8 rt req) \<and>
    (ParseFromArray (Response_InternalParse rt) Response_SharedCtor bs = (True, res) \<longrightarrow> Response_utf8 rt res)"
proof -
  have empty: "rt_VerifyUTF8 rt []"
    using pb_runtime.ascii_utf8 [OF assms, of "[]"] by simp
  show ?thesis
    using Request_keeps_utf8 [OF empty, of Request_SharedCtor bs] Response_keeps_utf8 [OF empty, of Response_SharedCtor bs]
    by (auto simp: ParseFromArray_def Request_utf8_def Response_utf8_def Request_SharedCtor_def Response_SharedCtor_def
        split: parse_result.splits option.splits)
qed

theorem parsed_strings_are_utf8_witness:
  "ParseFromArray (Request_InternalParse std_rt) Request_SharedCtor
      (Request_InternalSerialize std_rt (create_text_request ''ann'' 5 ''hello'')) =
      (True, create_text_request ''ann'' 5 ''hello'') \<and>
   Request_utf8 std_rt (create_text_request ''ann'' 5 ''hello'')"
proof -
  have "ParseFromArray (Request_InternalParse std_rt) Request_SharedCtor
      (Request_InternalSerialize std_rt (create_text_request ''ann'' 5 ''hello'')) =
      (True, create_text_request ''ann'' 5 ''hello'')"
    by (simp add: ParseFromArray_def pb_runtime.Request_roundtrip [OF std.pb_runtime_axioms] wire_simps std_str_ok)
  with parsed_strings_are_utf8 [OF std.pb_runtime_axioms] show ?thesis by blast
qed

section \<open>Something behind the message\<close>

context pb_runtime
begin

lemma Request_zero: "Request_InternalParse rt m (0 # bs) = Ended m (Some 0)"
  unfolding Request_InternalParse_def by (rule parse_message_zero) (simp add: Request_field_def)

lemma request_with_tail:
  assumes "Request_wf rt req"
  shows "ParseFromArray (Request_InternalParse rt) Request_SharedCtor (Request_InternalSerialize rt req @ 0 # tail) =
    (False, req)"
proof -
  have "Request_InternalParse rt Request_SharedCtor (Request_InternalSerialize rt req @ 0 # tail) = Ended req (Some 0)"
    using assms
    by (cases req; cases "req_msg req")
      (simp_all add: Request_wf_def Request_InternalSerialize_def Request_SharedCtor_def Request_slot_defs
        Request_parse_register_request Request_parse_input_request Request_parse_join_room_request
        Request_parse_text_request Request_zero del: One_nat_def)
  then show ?thesis by (simp add: ParseFromArray_def)
qed

end

end
