(* ===== verification/Buffers.thy ===== *)
theory Buffers
  imports Reading WireTypes
begin

text \<open>
  The reading buffers of the server in every reachable state: their sizes, and what a malformed body
  in them leads to.
\<close>

section \<open>Sizes\<close>

definition buffers_ok :: "nat \<Rightarrow> connection \<Rightarrow> bool" where
  "buffers_ok alloc c \<longleftrightarrow> length (cn_buffer_header c) = SIZE_HEADER \<and> length (cn_buffer_msg c) \<le> alloc \<and>
     (\<forall>h. cn_reading c = ReadBody h \<longrightarrow> length (cn_buffer_msg c) = unat (hdr_length h))"

definition all_buffers_ok :: "nat \<Rightarrow> 'h server \<Rightarrow> bool" where
  "all_buffers_ok alloc s \<longleftrightarrow> (\<forall>p \<in> set (pool s). buffers_ok alloc (conns s p))"

text \<open>Everything but the two reading handlers leaves the buffers alone.\<close>

definition same_buffers :: "connection \<Rightarrow> connection \<Rightarrow> bool" where
  "same_buffers c c' \<longleftrightarrow> cn_buffer_header c' = cn_buffer_header c \<and> cn_buffer_msg c' = cn_buffer_msg c \<and>
     cn_reading c' = cn_reading c"

lemma same_buffers_refl [simp]: "same_buffers c c"
  by (simp add: same_buffers_def)

lemma same_buffers_updates [simp]:
  "same_buffers c (c'\<lparr>cn_client_id := i\<rparr>) = same_buffers c c'" "same_buffers c (c'\<lparr>cn_login := l\<rparr>) = same_buffers c c'"
  "same_buffers c (c'\<lparr>cn_password := l\<rparr>) = same_buffers c c'" "same_buffers c (c'\<lparr>cn_busy := b\<rparr>) = same_buffers c c'"
  "same_buffers c (c'\<lparr>cn_room_id := r\<rparr>) = same_buffers c c'" "same_buffers c (c'\<lparr>cn_writing := b\<rparr>) = same_buffers c c'"
  "same_buffers c (start_direct f c') = same_buffers c c'" "same_buffers c (close_and_reset c') = same_buffers c c'"
  "same_buffers c (add_msg_send_queue f c') = same_buffers c c'" "same_buffers c (queue_written c') = same_buffers c c'"
  by (simp_all add: same_buffers_def start_direct_def close_and_reset_def add_msg_send_queue_def queue_written_def
      sending_msgs_to_client_def Let_def)

lemma buffers_ok_same: "buffers_ok alloc c \<Longrightarrow> same_buffers c c' \<Longrightarrow> buffers_ok alloc c'"
  by (simp add: buffers_ok_def same_buffers_def)

lemma all_buffers_ok_same:
  assumes "all_buffers_ok alloc s" and "pool s' = pool s" and "\<And>p. same_buffers (conns s p) (conns s' p)"
  shows "all_buffers_ok alloc s'"
  using assms buffers_ok_same by (auto simp: all_buffers_ok_def)

lemma buffers_kept: "kept_by_calls (connection_subscriber rt) (\<lambda>w. \<forall>p. same_buffers (w0 p) (w p))"
  by (auto simp: kept_by_calls_def connection_subscriber_def send_msg_to_client_def)

lemma free_connection_buffers: "pool (free_connection rt p s) = pool s \<and> same_buffers (conns s q) (conns (free_connection rt p s) q)"
  using kept_leave_all [OF buffers_kept [of rt "conns s"], of "conns s" "cn_client_id (conns s p)" "manager s"]
  by (simp add: free_connection_def split_beta Let_def)

lemma free_keeps: "all_buffers_ok alloc s \<Longrightarrow> all_buffers_ok alloc (free_connection rt p s)"
  by (erule all_buffers_ok_same) (simp_all add: free_connection_buffers)

lemma run_task_buffers:
  assumes "run_task rt eng fmt02 t s = Inr s'"
  shows "pool s' = pool s \<and> same_buffers (conns s q) (conns s' q)"
proof (cases t)
  case (DoAutorisation p r)
  then show ?thesis
    using assms free_connection_buffers
    by (auto simp: do_autorisation_def Let_def split: if_splits option.splits)
next
  case (DoRegistration p r)
  then show ?thesis
    using assms free_connection_buffers
    by (auto simp: do_registration_def Let_def dest: register_login_same(2,3) split: if_splits)
next
  case (DoJoinRoom p r)
  have "pool s' = pool s \<and> same_buffers (conns s q) (conns s' q)"
    if "join_channel rt eng p room s = Inr (flag, s')" for room flag s'
    using that kept_join [OF buffers_kept [of rt "conns s"], of "conns s" eng p room "database s" "manager s"]
    by (auto simp: join_channel_def)
  with DoJoinRoom assms show ?thesis
    by (fastforce simp: do_join_room_def Let_def split: if_splits)
next
  case (DoTextMsg p r)
  then show ?thesis
    using assms kept_send [OF buffers_kept [of rt "conns s"], of "conns s" _ "manager s"]
    by (auto simp: do_text_msg_def deliver_and_save_def Let_def split_beta split: if_splits option.splits)
qed (use assms in \<open>auto simp: send_auto_response_def send_reg_response_def send_join_room_response_def\<close>)

lemma header_buffers:
  assumes "all_buffers_ok alloc s" and "case outcome of None \<Rightarrow> True | Some block \<Rightarrow> length block = SIZE_HEADER"
    and "do_parse_pb_header rt alloc p outcome s = Inr s'"
  shows "all_buffers_ok alloc s'"
proof (cases outcome)
  case None
  let ?s = "on_conn p (\<lambda>c. c\<lparr>cn_reading := NoRead\<rparr>) s"
  have "all_buffers_ok alloc ?s"
    using assms(1) by (simp add: all_buffers_ok_def buffers_ok_def)
  then show ?thesis
    using None assms(3) by (auto simp: do_parse_pb_header_def free_keeps)
next
  case (Some block)
  then show ?thesis
    using assms
    by (auto simp: do_parse_pb_header_def all_buffers_ok_def buffers_ok_def Let_def split_beta async_read_pb_header_def
        split: if_splits)
qed

lemma body_buffers:
  assumes "all_buffers_ok alloc s" and "cn_reading (conns s p) = ReadBody h" and "length data \<le> unat (hdr_length h)"
    and "p \<in> set (pool s)"
  shows "all_buffers_ok alloc (body_handler rt h p data s)"
  using assms
  by (auto simp: body_handler_def process_msg_def all_buffers_ok_def buffers_ok_def Let_def split_beta
      async_read_pb_header_def split: TypeCommand.split)

lemma step_buffers:
  assumes "server_step rt eng fmt02 alloc s s'" and "all_buffers_ok alloc s"
  shows "all_buffers_ok alloc s'"
  using assms
proof cases
  case (accept garbage_header error garbage_id)
  with assms(2) show ?thesis
    by (auto simp: all_buffers_ok_def buffers_ok_def scan_acception_def get_connection_def Let_def
        Connection_ctor_def async_read_pb_header_def)
next
  case (header_read p outcome)
  then show ?thesis using header_buffers assms(2) by blast
next
  case (body_read p header data)
  then show ?thesis using body_buffers assms(2) by blast
next
  case (run before t after)
  then show ?thesis
    using run_task_buffers [OF run(2)] by (intro all_buffers_ok_same [OF assms(2)]) auto
next
  case (queue_write p ok)
  have "all_buffers_ok alloc (on_conn p (\<lambda>c. c\<lparr>cn_writing := False\<rparr>) s)" "all_buffers_ok alloc (on_conn p queue_written s)"
    using assms(2) by (auto intro: all_buffers_ok_same)
  then show ?thesis
    by (simp add: queue_write queue_write_handler_def free_keeps)
next
  case (direct_write p f ok)
  then show ?thesis
    using assms(2) by (simp add: direct_write_handler_def free_keeps)
qed

lemma reach_buffers: "server_reach rt eng fmt02 alloc db s \<Longrightarrow> all_buffers_ok alloc s"
proof (induction rule: server_reach.induct)
  case start
  then show ?case by (simp add: all_buffers_ok_def Server_ctor_def)
qed (blast intro: step_buffers)

text \<open>C19: in every reachable state each connection of the pool has a header buffer of 19 bytes and a
  body buffer no longer than what can be allocated, and while it reads a body the buffer has just the
  length that the header announced: no read can run past a buffer.\<close>

theorem reachable_buffers_bounded:
  assumes "server_reach rt eng fmt02 alloc db s" and "p \<in> set (pool s)"
  shows "length (cn_buffer_header (conns s p)) = 19 \<and> length (cn_buffer_msg (conns s p)) \<le> alloc \<and>
    (\<forall>h. cn_reading (conns s p) = ReadBody h \<longrightarrow> length (cn_buffer_msg (conns s p)) = unat (hdr_length h))"
proof -
  have "all_buffers_ok alloc s"
    using assms(1) by (rule reach_buffers)
  then show ?thesis
    using assms(2) by (auto simp: all_buffers_ok_def buffers_ok_def SIZE_HEADER_eq)
qed

theorem reachable_buffers_bounded_witness:
  "length (cn_buffer_header (conns (scan_acception False 9 (replicate 19 0) (demo_server [] [])) 0)) = 19"
proof -
  have "server_reach std_rt mini_engine std_fmt02 1000 (Some (mini_db [] []))
      (scan_acception False 9 (replicate 19 0) (demo_server [] []))"
    unfolding demo_server_def
    by (rule server_reach.step [OF server_reach.start server_step.accept]) (simp add: SIZE_HEADER_eq)
  from reachable_buffers_bounded [OF this, of 0] show ?thesis
    by (simp add: scan_acception_def get_connection_def demo_server_def Server_ctor_def Let_def)
qed

section \<open>Malformed bodies\<close>

text \<open>C35: a body that the parser rejects is processed all the same: for a request that is followed by a
  zero byte and anything behind that, \<open>ParseFromArray\<close> reports failure, and the server posts the task
  of the command with the request that had been read up to there. (Bytes that happen to be further
  fields would be accepted.)\<close>

theorem rejected_body_still_served:
  assumes "pb_runtime rt" and "Request_wf rt req" and "data = Request_InternalSerialize rt req @ 0 # tail"
    and "length (cn_buffer_msg (conns s p)) = length data"
  shows "fst (parse_request rt data) = False \<and>
    tasks (body_handler rt h p data s) = tasks s @ task_for (TypeCommand_cast (hdr_command h)) p req"
  using pb_runtime.request_with_tail [OF assms(1,2), of tail] assms(3,4)
  by (simp add: body_handler_def process_msg_tasks parse_request_def)

theorem rejected_body_still_served_witness:
  "\<exists>s h. tasks (body_handler std_rt h 0
      (Request_InternalSerialize std_rt (create_input_request ''ann'' ''pw'') @ [0, 7]) s) =
    tasks (s :: mini server) @ [DoAutorisation 0 (create_input_request ''ann'' ''pw'')]"
proof -
  let ?data = "Request_InternalSerialize std_rt (create_input_request ''ann'' ''pw'') @ [0, 7]"
  let ?s = "on_conn 0 (\<lambda>c. c\<lparr>cn_buffer_msg := ?data\<rparr>) (demo_server [] [])"
  let ?h = "Header_set_length 0 (create_header AuthorisationRequest 0)"
  have wf: "Request_wf std_rt (create_input_request ''ann'' ''pw'')"
    by (simp add: wire_simps std_str_ok)
  have cmd: "TypeCommand_cast (hdr_command ?h) = AuthorisationRequest"
    by (simp add: pb_runtime.created_header [OF std.pb_runtime_axioms] TypeCommand_cast_def)
  show ?thesis
    using rejected_body_still_served [OF std.pb_runtime_axioms wf, of ?data "[7]" ?s 0 ?h] cmd
    by (intro exI [of _ ?s] exI [of _ ?h]) (simp add: task_for_def)
qed

text \<open>C33: the handler of a body does not look at the error code of its read. When a connection is lost
  after the header of a request and before its body, the buffer still holds the body of the request
  before it: if both have the same length, the server posts the earlier request once more, under
  the command of the lost one. It is served again when that is its own command; under another
  command the task finds none of its fields and is refused.\<close>

theorem lost_body_replays_request:
  assumes "pb_runtime rt" and "Request_wf rt old" and "Request_wf rt lost" and "Request_has_msg lost" and "enumerator c"
    and "Request_ByteSizeLong rt lost \<le> alloc" and "Request_ByteSizeLong rt old = Request_ByteSizeLong rt lost"
    and "cn_buffer_msg (conns s p) = Request_InternalSerialize rt old"
  shows "\<exists>h s1. do_parse_pb_header rt alloc p
      (Some (take SIZE_HEADER (serialize_request rt (create_header c 0) lost))) s = Inr s1 \<and>
    cn_reading (conns s1 p) = ReadBody h \<and>
    tasks (body_handler rt h p [] s1) = tasks s @ task_for c p old"
proof -
  let ?frame = "serialize_request rt (create_header c 0) lost"
  obtain h where h: "ParseFromArray (Header_InternalParse rt) Header_SharedCtor (take SIZE_HEADER ?frame) = (True, h)"
    "TypeCommand_cast (hdr_command h) = c" "unat (hdr_length h) = length (drop SIZE_HEADER ?frame)"
    using pb_runtime.request_frame_read [OF assms(1,3-5), of 0] by blast
  have "length (drop SIZE_HEADER ?frame) = Request_ByteSizeLong rt lost"
    using pb_runtime.request_frame [OF assms(1,3-5), of 0] pb_runtime.Request_size [OF assms(1,3)] by simp
  then have len: "unat (hdr_length h) = Request_ByteSizeLong rt lost" and fits: "\<not> alloc < unat (hdr_length h)"
    using assms(6) h(3) by simp_all
  have kept: "resize (unat (hdr_length h)) (cn_buffer_msg (conns s p)) = Request_InternalSerialize rt old"
    using pb_runtime.Request_size [OF assms(1,2)] assms(7) by (simp add: len assms(8) resize_def)
  have parse: "parse_request rt (Request_InternalSerialize rt old) = (True, old)"
    using pb_runtime.Request_roundtrip [OF assms(1,2)]
    by (simp add: parse_request_def ParseFromArray_def)
  let ?s1 = "on_conn p (\<lambda>c. c\<lparr>cn_buffer_msg := resize (unat (hdr_length h)) (cn_buffer_msg c),
      cn_reading := ReadBody h\<rparr>) (on_conn p (\<lambda>c. c\<lparr>cn_buffer_header := take SIZE_HEADER ?frame\<rparr>) s)"
  have "do_parse_pb_header rt alloc p (Some (take SIZE_HEADER ?frame)) s = Inr ?s1"
    using fits by (simp add: do_parse_pb_header_def h(1) Let_def)
  moreover have "tasks (body_handler rt h p [] ?s1) = tasks s @ task_for c p old"
    by (simp add: body_handler_def process_msg_tasks kept parse h(2))
  ultimately show ?thesis
    by (intro exI [of _ h] exI [of _ ?s1]) simp
qed

theorem lost_body_replays_request_witness:
  "\<exists>(s :: mini server) h s1. do_parse_pb_header std_rt 2000000000 0 (Some (take SIZE_HEADER
      (serialize_request std_rt (create_header EchoRequest 0) (create_text_request ''ann'' 7 ''world'')))) s = Inr s1 \<and>
    tasks (body_handler std_rt h 0 [] s1) = tasks s @ [DoTextMsg 0 (create_text_request ''ann'' 7 ''hello'')]"
proof -
  let ?old = "create_text_request ''ann'' 7 ''hello''" and ?lost = "create_text_request ''ann'' 7 ''world''"
  let ?s = "on_conn 0 (\<lambda>c. c\<lparr>cn_buffer_msg := Request_InternalSerialize std_rt ?old\<rparr>) (demo_server [] [])"
  have req: "Request_wf std_rt ?old" "Request_wf std_rt ?lost" "Request_has_msg ?lost"
    "enumerator EchoRequest"
    by (simp_all add: wire_simps std_str_ok)
  have "Request_ByteSizeLong std_rt ?lost \<le> 2000000000"
    using pb_runtime.Request_small [OF std.pb_runtime_axioms req(2)] by simp
  moreover have "Request_ByteSizeLong std_rt ?old = Request_ByteSizeLong std_rt ?lost"
    by (simp add: request_factory_defs Request_ByteSizeLong_def TextRequest_ByteSizeLong_def std_rt_def
        std_delimited_def bytes_of_def)
  ultimately obtain h s1 where "do_parse_pb_header std_rt 2000000000 0 (Some (take SIZE_HEADER
      (serialize_request std_rt (create_header EchoRequest 0) ?lost))) ?s = Inr s1"
    "tasks (body_handler std_rt h 0 [] s1) = tasks ?s @ task_for EchoRequest 0 ?old"
    using lost_body_replays_request [OF std.pb_runtime_axioms req(1-4), of 2000000000 ?s 0] by auto
  then show ?thesis
    by (intro exI [of _ ?s] exI [of _ h] exI [of _ s1]) (simp add: task_for_def)
qed

end
