(* ===== verification/NetworkSafety.thy ===== *)
theory NetworkSafety
  imports Network Buffers
begin

text \<open>
  The invariant of the closed system and what it gives: the two ends of every connection stay in
  step, no task and no read fails, and no client ever shows a message that nobody wrote.
\<close>

section \<open>The invariant\<close>

definition net_ok :: "pb_rt \<Rightarrow> ('h \<Rightarrow> entry list) \<Rightarrow> ('h \<Rightarrow> entry list) \<Rightarrow> ('h \<Rightarrow> bool) \<Rightarrow> 'h net \<Rightarrow> bool" where
  "net_ok rt logins history intact n \<longleftrightarrow>
     sound_server rt logins history intact (ns_spoken n) (ns_names n) (ns_server n) \<and>
     [] \<in> ns_names n \<and> ''unused'' \<in> ns_names n \<and>
     (\<forall>d. heard (ns_spoken n) (ns_names n) d \<longrightarrow> readable rt d) \<and>
     ns_dialing n \<subseteq> set (pool (ns_server n)) \<and>
     (\<forall>p \<in> ns_writing n. p \<in> set (pool (ns_server n)) \<and> cl_queue (ns_users n p) \<noteq> []) \<and>
     (\<forall>p \<in> set (pool (ns_server n)).
        server_link rt (ns_spoken n) (ns_names n) (cn_reading (conns (ns_server n) p)) (ns_up n p) \<and>
        client_link rt (ns_spoken n) (ns_names n) (p \<in> ns_dialing n) (ns_users n p)
          (cn_started (conns (ns_server n) p)) (ns_down n p))"

lemma net_okD:
  assumes "net_ok rt logins history intact n"
  shows "sound_server rt logins history intact (ns_spoken n) (ns_names n) (ns_server n)"
    and "[] \<in> ns_names n" and "''unused'' \<in> ns_names n"
    and "heard (ns_spoken n) (ns_names n) d \<Longrightarrow> readable rt d"
    and "ns_dialing n \<subseteq> set (pool (ns_server n))"
    and "p \<in> set (pool (ns_server n)) \<Longrightarrow>
      server_link rt (ns_spoken n) (ns_names n) (cn_reading (conns (ns_server n) p)) (ns_up n p)"
    and "p \<in> set (pool (ns_server n)) \<Longrightarrow>
      client_link rt (ns_spoken n) (ns_names n) (p \<in> ns_dialing n) (ns_users n p)
        (cn_started (conns (ns_server n) p)) (ns_down n p)"
    and "p \<in> ns_writing n \<Longrightarrow> p \<in> set (pool (ns_server n)) \<and> cl_queue (ns_users n p) \<noteq> []"
  using assms by (simp_all add: net_ok_def)

lemma client_acts_simps [simp]:
  "ns_server (client_acts p c n) = ns_server n" "ns_names (client_acts p c n) = ns_names n"
  "ns_spoken (client_acts p c n) = ns_spoken n" "ns_dialing (client_acts p c n) = ns_dialing n"
  "ns_down (client_acts p c n) = ns_down n"
  "ns_users (client_acts p c n) q = (if q = p then c else ns_users n q)"
  "q \<noteq> p \<Longrightarrow> ns_up (client_acts p c n) q = ns_up n q"
  by (simp_all add: client_acts_def)

lemma client_acts_writing:
  "ns_writing (client_acts p c n) =
    (if cl_started c = cl_started (ns_users n p) then ns_writing n else insert p (ns_writing n))"
  by (simp add: client_acts_def)

lemma client_acts_up:
  "cl_started c = cl_started (ns_users n p) @ new \<Longrightarrow>
    ns_up (client_acts p c n) p = ns_up n p @ concat (map write_bytes new)"
  by (simp add: client_acts_def)

lemma server_acts_simps [simp]:
  "ns_server (server_acts s n) = s" "ns_names (server_acts s n) = ns_names n"
  "ns_spoken (server_acts s n) = ns_spoken n" "ns_dialing (server_acts s n) = ns_dialing n"
  "ns_up (server_acts s n) = ns_up n" "ns_users (server_acts s n) = ns_users n"
  "ns_writing (server_acts s n) = ns_writing n"
  by (simp_all add: server_acts_def)

lemma take_simps [simp]:
  "ns_server (take_up p rest n) = ns_server n" "ns_server (take_down p rest n) = ns_server n"
  "ns_names (take_up p rest n) = ns_names n" "ns_names (take_down p rest n) = ns_names n"
  "ns_spoken (take_up p rest n) = ns_spoken n" "ns_spoken (take_down p rest n) = ns_spoken n"
  "ns_dialing (take_up p rest n) = ns_dialing n" "ns_dialing (take_down p rest n) = ns_dialing n"
  "ns_users (take_up p rest n) = ns_users n" "ns_users (take_down p rest n) = ns_users n"
  "ns_writing (take_up p rest n) = ns_writing n" "ns_writing (take_down p rest n) = ns_writing n"
  "ns_down (take_up p rest n) = ns_down n" "ns_up (take_down p rest n) = ns_up n"
  "ns_up (take_up p rest n) q = (if q = p then rest else ns_up n q)"
  "ns_down (take_down p rest n) q = (if q = p then rest else ns_down n q)"
  by (simp_all add: take_up_def take_down_def)

section \<open>Steps of a client\<close>

lemma net_ok_client:
  assumes "net_ok rt logins history intact n" and "p \<in> set (pool (ns_server n))"
    and "ns_server n' = ns_server n" and "ns_names n' = ns_names n" and "ns_spoken n \<subseteq> ns_spoken n'"
    and "\<And>d. d \<in> ns_spoken n' \<Longrightarrow> d \<notin> ns_spoken n \<Longrightarrow> readable rt d"
    and "ns_dialing n' \<subseteq> ns_dialing n" and "\<And>q. q \<noteq> p \<Longrightarrow> q \<in> ns_dialing n' \<longleftrightarrow> q \<in> ns_dialing n"
    and "\<And>q. q \<noteq> p \<Longrightarrow> ns_users n' q = ns_users n q \<and> ns_up n' q = ns_up n q \<and> ns_down n' q = ns_down n q"
    and "ns_up n' p = ns_up n p @ concat fs" and "list_all (asks_bytes rt (ns_spoken n') (ns_names n)) fs"
    and "client_link rt (ns_spoken n') (ns_names n) (p \<in> ns_dialing n') (ns_users n' p)
      (cn_started (conns (ns_server n) p)) (ns_down n' p)"
    and "ns_writing n' \<subseteq> insert p (ns_writing n)" and "p \<in> ns_writing n' \<Longrightarrow> cl_queue (ns_users n' p) \<noteq> []"
  shows "net_ok rt logins history intact n'"
proof -
  note ok = net_okD [OF assms(1)]
  note grow = assms(5) subset_refl [of "ns_names n"]
  have "server_link rt (ns_spoken n') (ns_names n) (cn_reading (conns (ns_server n) q)) (ns_up n' q) \<and>
      client_link rt (ns_spoken n') (ns_names n) (q \<in> ns_dialing n') (ns_users n' q)
        (cn_started (conns (ns_server n) q)) (ns_down n' q)"
    if q: "q \<in> set (pool (ns_server n))" for q
  proof (cases "q = p")
    case True
    have "server_link rt (ns_spoken n') (ns_names n) (cn_reading (conns (ns_server n) p)) (ns_up n p)"
      using server_link_mono [OF ok(6) [OF assms(2)] grow] .
    then show ?thesis
      using server_link_more [OF _ assms(11)] assms(10,12) True by simp
  next
    case False
    then show ?thesis
      using server_link_mono [OF ok(6) [OF q] grow] client_link_mono [OF ok(7) [OF q] grow] assms(8,9) by simp
  qed
  moreover have "readable rt d" if "heard (ns_spoken n') (ns_names n) d" for d
    using that assms(6) ok(4) by (auto simp: heard_def)
  moreover have "q \<in> set (pool (ns_server n)) \<and> cl_queue (ns_users n' q) \<noteq> []" if "q \<in> ns_writing n'" for q
    using that ok(8) [of q] assms(2,9,13,14) by (cases "q = p") auto
  ultimately show ?thesis
    using sound_server_mono [OF ok(1) grow] ok(2,3,5) assms(3,4,7) by (auto simp: net_ok_def)
qed

lemma add_msg_to_send_fields:
  "cl_login (add_msg_to_send f c) = cl_login c" "cl_reading (add_msg_to_send f c) = cl_reading c"
  "cl_channels_history (add_msg_to_send f c) = cl_channels_history c"
  "cl_read_buffer (add_msg_to_send f c) = cl_read_buffer c" "cl_queue (add_msg_to_send f c) = cl_queue c @ [f]"
  "cl_started (add_msg_to_send f c) = cl_started c @ (if cl_queue c = [] then [QueueWrite f] else [])"
  by (auto simp: add_msg_to_send_def start_send_msgs_def Let_def)

lemma client_link_add:
  assumes "client_link rt S N dialing c started stream" and "asks_bytes rt S N f"
  shows "client_link rt S N dialing (add_msg_to_send f c) started stream"
  using assms hears_all_same [of rt S N dialing c started stream "add_msg_to_send f c"]
  unfolding client_link_def by (simp add: add_msg_to_send_fields)

lemma net_ok_asks:
  assumes "net_ok rt logins history intact n" and "p \<in> set (pool (ns_server n))" and "ns_spoken n \<subseteq> S"
    and "\<And>d. d \<in> S \<Longrightarrow> d \<notin> ns_spoken n \<Longrightarrow> readable rt d" and "asks_bytes rt S (ns_names n) f"
  shows "net_ok rt logins history intact
    (client_acts p (add_msg_to_send f (ns_users n p)) (n\<lparr>ns_spoken := S\<rparr>))"
proof (rule net_ok_client [OF assms(1,2), where fs = "if cl_queue (ns_users n p) = [] then [f] else []"])
  let ?n = "client_acts p (add_msg_to_send f (ns_users n p)) (n\<lparr>ns_spoken := S\<rparr>)"
  show "ns_up ?n p = ns_up n p @ concat (if cl_queue (ns_users n p) = [] then [f] else [])"
    using client_acts_up [of "add_msg_to_send f (ns_users n p)" "n\<lparr>ns_spoken := S\<rparr>" p]
    by (simp add: add_msg_to_send_fields)
  show "client_link rt (ns_spoken ?n) (ns_names n) (p \<in> ns_dialing ?n) (ns_users ?n p)
        (cn_started (conns (ns_server n) p)) (ns_down ?n p)"
    using client_link_add [OF client_link_mono [OF net_okD(7) [OF assms(1,2)] assms(3) subset_refl] assms(5)] by simp
qed (use assms(3-5) in \<open>auto simp: client_acts_writing add_msg_to_send_fields\<close>)

lemma net_ok_wrote:
  assumes "net_ok rt logins history intact n" and "p \<in> ns_writing n"
  shows "net_ok rt logins history intact
    (client_acts p (msg_write_handler ec (ns_users n p)) (n\<lparr>ns_writing := ns_writing n - {p}\<rparr>))"
proof -
  have pool: "p \<in> set (pool (ns_server n))" and busy: "cl_queue (ns_users n p) \<noteq> []"
    using net_okD(8) [OF assms] by auto
  let ?c = "ns_users n p" and ?c' = "msg_write_handler ec (ns_users n p)"
  let ?new = "if \<not> ec \<and> tl (cl_queue ?c) \<noteq> [] then [hd (tl (cl_queue ?c))] else []"
  have link: "client_link rt (ns_spoken n) (ns_names n) (p \<in> ns_dialing n) ?c
      (cn_started (conns (ns_server n) p)) (ns_down n p)"
    using net_okD(7) [OF assms(1) pool] .
  have fields: "cl_login ?c' = cl_login ?c" "cl_reading ?c' = cl_reading ?c"
    "cl_channels_history ?c' = cl_channels_history ?c" "cl_read_buffer ?c' = cl_read_buffer ?c"
    "cl_queue ?c' = (if ec then cl_queue ?c else tl (cl_queue ?c))"
    "cl_started ?c' = cl_started ?c @ map QueueWrite ?new"
    by (auto simp: msg_write_handler_def msg_written_def start_send_msgs_def close_connection_def Let_def)
  have queue: "list_all (asks_bytes rt (ns_spoken n) (ns_names n)) (cl_queue ?c)"
    using link by (simp add: client_link_def)
  then have rest: "list_all (asks_bytes rt (ns_spoken n) (ns_names n)) (tl (cl_queue ?c))"
    using busy by (cases "cl_queue ?c") simp_all
  then have new: "list_all (asks_bytes rt (ns_spoken n) (ns_names n)) ?new"
    by (cases "tl (cl_queue ?c)") simp_all
  show ?thesis
  proof (rule net_ok_client [OF assms(1) pool, where fs = ?new])
    let ?n = "client_acts p ?c' (n\<lparr>ns_writing := ns_writing n - {p}\<rparr>)"
    show "ns_up ?n p = ns_up n p @ concat ?new"
      using client_acts_up [of ?c' "n\<lparr>ns_writing := ns_writing n - {p}\<rparr>" p "map QueueWrite ?new"]
      by (simp add: fields(6) comp_def)
    show "client_link rt (ns_spoken ?n) (ns_names n) (p \<in> ns_dialing ?n) (ns_users ?n p)
        (cn_started (conns (ns_server n) p)) (ns_down ?n p)"
      using link queue rest hears_all_same [of rt "ns_spoken n" "ns_names n" "p \<in> ns_dialing n" ?c _ _ ?c']
      unfolding client_link_def by (simp add: fields)
    show "cl_queue (ns_users ?n p) \<noteq> []" if "p \<in> ns_writing ?n"
      using that by (auto simp: client_acts_writing fields split: if_splits)
  qed (use new in \<open>auto simp: client_acts_writing\<close>)
qed

lemma net_ok_dialed:
  assumes "net_ok rt logins history intact n" and "p \<in> ns_dialing n"
  shows "net_ok rt logins history intact
    (client_acts p (login_written ec (ns_users n p)) (n\<lparr>ns_dialing := ns_dialing n - {p}\<rparr>))"
proof -
  have pool: "p \<in> set (pool (ns_server n))"
    using net_okD(5) [OF assms(1)] assms(2) by blast
  have link: "client_link rt (ns_spoken n) (ns_names n) True (ns_users n p)
      (cn_started (conns (ns_server n) p)) (ns_down n p)"
    using net_okD(7) [OF assms(1) pool] assms(2) by simp
  have fields: "cl_started (login_written ec c) = cl_started c" "cl_login (login_written ec c) = cl_login c"
    "cl_queue (login_written ec c) = cl_queue c" "cl_channels_history (login_written ec c) = cl_channels_history c"
    "cl_reading (login_written ec c) = (if ec then cl_reading c else WaitHeader)" for c
    by (simp_all add: login_written_def client_async_read_pb_header_def close_connection_def)
  show ?thesis
  proof (rule net_ok_client [OF assms(1) pool, where fs = "[]"])
    let ?n = "client_acts p (login_written ec (ns_users n p)) (n\<lparr>ns_dialing := ns_dialing n - {p}\<rparr>)"
    show "ns_up ?n p = ns_up n p @ concat []"
      using client_acts_up [of "login_written ec (ns_users n p)" "n\<lparr>ns_dialing := ns_dialing n - {p}\<rparr>" p "[]"]
      by (simp add: fields)
    show "client_link rt (ns_spoken ?n) (ns_names n) (p \<in> ns_dialing ?n) (ns_users ?n p)
        (cn_started (conns (ns_server n) p)) (ns_down ?n p)"
      using link hears_all_change [of rt "ns_spoken n" "ns_names n" True "ns_users n p" _ _
          "login_written ec (ns_users n p)" False]
      unfolding client_link_def by (simp add: fields awaits_def)
  qed (use net_okD(8) [OF assms(1), of p] in \<open>auto simp: client_acts_writing fields\<close>)
qed

text \<open>A read: what it took off the stream is a head or the rest of a frame.\<close>

lemma net_ok_read:
  assumes "net_ok rt logins history intact n" and "p \<in> set (pool (ns_server n))"
    and "same_session (ns_users n p) c" and "p \<in> ns_dialing n \<Longrightarrow> cl_reading c = Idle"
    and "hears_all rt (ns_spoken n) (ns_names n) (p \<in> ns_dialing n) c (cn_started (conns (ns_server n) p)) rest"
  shows "net_ok rt logins history intact (take_down p rest (client_acts p c n))"
proof (rule net_ok_client [OF assms(1,2), where fs = "[]"])
  let ?n = "take_down p rest (client_acts p c n)"
  show "ns_up ?n p = ns_up n p @ concat []"
    using client_acts_up [of c n p "[]"] assms(3) by (simp add: same_session_def)
  show "client_link rt (ns_spoken ?n) (ns_names n) (p \<in> ns_dialing ?n) (ns_users ?n p)
      (cn_started (conns (ns_server n) p)) (ns_down ?n p)"
    using net_okD(7) [OF assms(1,2)] assms(3-5) unfolding client_link_def same_session_def by simp
qed (use assms(3) net_okD(8) [OF assms(1), of p] in \<open>auto simp: client_acts_writing same_session_def\<close>)

text \<open>A header, then a body.\<close>

lemma hears_header:
  assumes "pb_runtime rt" and "1073741910 \<le> calloc" and "\<And>d. heard S N d \<Longrightarrow> readable rt d"
    and "list_all (uttered rt S N) started" and "hears_all rt S N False c started (block @ rest)"
    and "cl_reading c = WaitHeader" and "length block = SIZE_HEADER"
  shows "\<exists>c'. read_completes rt calloc (Some block) c = Inr c' \<and> same_session c c' \<and>
    hears_all rt S N False c' started rest"
  using assms(5)
proof cases
  case (hears_allI past es coming)
  have coming: "concat (map sent_bytes coming) = block @ rest"
    using hears_allI(5) assms(6) by (simp add: awaits_def)
  have utters: "uttered rt S N w" if "w \<in> set coming" for w
    using assms(4) hears_allI(1) that by (simp add: list_all_iff)
  then have "\<forall>f \<in> set (map sent_bytes coming). SIZE_HEADER \<le> length f"
    using utters_sent response_bytes_read(2) [OF assms(1) _ assms(3)] by (fastforce simp: uttered_def)
  then obtain w coming' where w: "coming = w # coming'" "block = take SIZE_HEADER (sent_bytes w)"
    "rest = drop SIZE_HEADER (sent_bytes w) @ concat (map sent_bytes coming')"
    using head_of_stream [OF coming assms(7)] by (auto simp: SIZE_HEADER_eq)
  obtain a m where m: "utters rt S N w a m"
    using utters [of w] w(1) by (auto simp: uttered_def)
  obtain c' where c': "read_completes rt calloc (Some block) c = Inr c'" "cl_reading c' = reading_for a"
    "length (cl_read_buffer c') = length (drop SIZE_HEADER (sent_bytes w))"
    "cl_channels_history c' = cl_channels_history c" "same_session c c'"
    using client_head [OF assms(1) _ assms(3,2,6)] utters_sent [OF m] w(2) by metis
  have "body_link rt S N c' coming rest"
    unfolding w(1,3) by (rule body_linkI [OF m]) (use c'(2,3) in simp_all)
  moreover have "cl_reading c' \<noteq> WaitHeader"
    by (simp add: c'(2) reading_for_def)
  ultimately have "awaits rt S N False c' coming rest"
    by (simp add: awaits_def)
  moreover have "shows_all c' es"
    using hears_allI(4) shows_all_same [OF c'(4)] by simp
  ultimately have "hears_all rt S N False c' started rest"
    unfolding hears_allI(1) using hears_allI(2,3) by (intro hears_all.hears_allI)
  with c'(1,5) show ?thesis by blast
qed

lemma hears_body:
  assumes "pb_runtime rt" and "\<And>d. heard S N d \<Longrightarrow> readable rt d"
    and "hears_all rt S N False c started (block @ rest)"
    and "cl_reading c \<noteq> Idle" and "cl_reading c \<noteq> WaitHeader" and "length block = length (cl_read_buffer c)"
  shows "\<exists>c'. read_completes rt calloc (Some block) c = Inr c' \<and> same_session c c' \<and>
    cl_reading c' \<in> {Idle, WaitHeader} \<and> hears_all rt S N False c' started rest"
  using assms(3)
proof cases
  case (hears_allI past es coming)
  then have "body_link rt S N c coming (block @ rest)"
    using assms(4,5) by (simp add: awaits_def)
  then show ?thesis
  proof cases
    case (body_linkI w a m body coming')
    then have split: "block = drop SIZE_HEADER (sent_bytes w)" "rest = concat (map sent_bytes coming')"
      using assms(6) by simp_all
    obtain c' ds where c': "read_completes rt calloc (Some block) c = Inr c'" "cl_reading c' \<in> {Idle, WaitHeader}"
      "same_session c c'" "List.map_filter queued_of [w] = map (message_frame rt) ds" "list_all (heard S N) ds"
      "shows_all c' (es @ ds)"
      using client_body [OF assms(1) body_linkI(3) assms(2) body_linkI(4), of calloc] hears_allI(4) split(1) by blast
    have "awaits rt S N False c' coming' rest"
      using c'(2) split(2) by (auto simp: awaits_def)
    then have "hears_all rt S N False c' ((past @ [w]) @ coming') rest"
      using hears_allI(2,3) c'(4-6) by (intro hears_all.hears_allI) simp_all
    then show ?thesis
      using c'(1-3) hears_allI(1) body_linkI(1) by auto
  qed
qed

lemma net_ok_hears:
  assumes "pb_runtime rt" and "1073741910 \<le> calloc"
    and "net_ok rt logins history intact n" and "p \<in> set (pool (ns_server n))"
    and "cl_reading (ns_users n p) \<noteq> Idle" and "ns_down n p = block @ rest"
    and "length block = client_wants (ns_users n p)"
  shows "\<exists>c. read_completes rt calloc (Some block) (ns_users n p) = Inr c \<and> same_session (ns_users n p) c \<and>
    (cl_reading (ns_users n p) \<noteq> WaitHeader \<longrightarrow> cl_reading c \<in> {Idle, WaitHeader}) \<and>
    net_ok rt logins history intact (take_down p rest (client_acts p c n))"
proof -
  note ok = net_okD [OF assms(3)]
  let ?started = "cn_started (conns (ns_server n) p)"
  have link: "p \<notin> ns_dialing n" "list_all (uttered rt (ns_spoken n) (ns_names n)) ?started"
    "hears_all rt (ns_spoken n) (ns_names n) False (ns_users n p) ?started (block @ rest)"
    using ok(7) [OF assms(4)] assms(5,6) by (auto simp: client_link_def)
  obtain c where "read_completes rt calloc (Some block) (ns_users n p) = Inr c" "same_session (ns_users n p) c"
    "cl_reading (ns_users n p) \<noteq> WaitHeader \<longrightarrow> cl_reading c \<in> {Idle, WaitHeader}"
    "hears_all rt (ns_spoken n) (ns_names n) False c ?started rest"
  proof (cases "cl_reading (ns_users n p) = WaitHeader")
    case True
    then show ?thesis
      using hears_header [OF assms(1,2) ok(4) link(2,3) True] assms(7) that by (auto simp: client_wants_def)
  next
    case False
    then show ?thesis
      using hears_body [OF assms(1) ok(4) link(3) assms(5) False] assms(7) that by (auto simp: client_wants_def)
  qed
  then show ?thesis
    using net_ok_read [OF assms(3,4)] link(1) by auto
qed

lemma net_ok_hears_no_more:
  assumes "net_ok rt logins history intact n" and "p \<in> set (pool (ns_server n))"
    and "read_completes rt calloc None (ns_users n p) = Inr c"
  shows "net_ok rt logins history intact (client_acts p c n)"
proof -
  let ?S = "ns_spoken n" and ?N = "ns_names n"
  note fails = client_read_fails [OF assms(3)]
  have "hears_all rt ?S ?N (p \<in> ns_dialing n) c (cn_started (conns (ns_server n) p)) (ns_down n p)"
    by (rule hears_all_change [where c = "ns_users n p"])
      (use net_okD(7) [OF assms(1,2)] fails in \<open>auto simp: client_link_def awaits_def\<close>)
  then have "net_ok rt logins history intact (take_down p (ns_down n p) (client_acts p c n))"
    using fails by (intro net_ok_read [OF assms(1,2)]) auto
  moreover have "client_acts p c n = take_down p (ns_down n p) (client_acts p c n)"
    by (simp add: take_down_def client_acts_def)
  ultimately show ?thesis by simp
qed

section \<open>Steps of the server\<close>

text \<open>Everything that a sound server started to write are answers and messages that were heard.\<close>

lemma net_ok_server:
  assumes "net_ok rt logins history intact n"
    and "sound_server rt logins history intact (ns_spoken n) (ns_names n) s"
    and "pool s = pool (ns_server n)"
    and "\<And>q. \<exists>new. cn_started (conns s q) = cn_started (conns (ns_server n) q) @ new \<and>
      (\<forall>f. Direct f \<in> set new \<longrightarrow> (\<exists>a m. answered rt a m \<and> f = response_bytes rt (a, m)))"
    and "\<And>q. q \<in> set (pool s) \<Longrightarrow> server_link rt (ns_spoken n) (ns_names n) (cn_reading (conns s q)) (ns_up n' q)"
    and "n' = server_acts s n \<or> (\<exists>p rest. n' = take_up p rest (server_acts s n))"
  shows "net_ok rt logins history intact n'"
proof -
  let ?S = "ns_spoken n" and ?N = "ns_names n"
  note ok = net_okD [OF assms(1)]
  have same: "ns_server n' = s" "ns_names n' = ?N" "ns_spoken n' = ?S" "ns_dialing n' = ns_dialing n"
    "ns_writing n' = ns_writing n" "ns_users n' = ns_users n" "ns_down n' = ns_down (server_acts s n)"
    using assms(6) by auto
  have "client_link rt ?S ?N (q \<in> ns_dialing n) (ns_users n q) (cn_started (conns s q)) (ns_down (server_acts s n) q)"
    if "q \<in> set (pool s)" for q
  proof -
    obtain new where new: "cn_started (conns s q) = cn_started (conns (ns_server n) q) @ new"
      "\<forall>f. Direct f \<in> set new \<longrightarrow> (\<exists>a m. answered rt a m \<and> f = response_bytes rt (a, m))"
      using assms(4) by blast
    have "uttered rt ?S ?N w" if w: "w \<in> set new" for w
    proof (cases w)
      case (Queued f)
      then have "f \<in> set (frames_to (conns s) q)"
        using w new(1) by (force simp: frames_to_def conn_queue.outbox_def queued_started_def
            List.map_filter_def)
      then obtain d where "heard ?S ?N d" "f = message_frame rt d"
        using assms(2) honest.honestD(2) [of rt ?S ?N "chat_of s"] by (auto simp: sound_server_def)
      then show ?thesis
        unfolding Queued uttered_def by (blast intro: utters_text)
    next
      case (Direct f)
      then show ?thesis
        using w new(2) unfolding uttered_def by (blast intro: utters_answer)
    qed
    then have "list_all (uttered rt ?S ?N) new"
      by (simp add: list_all_iff)
    from client_link_more [OF ok(7) this] that show ?thesis
      by (simp add: server_acts_def new(1) assms(3))
  qed
  then show ?thesis
    using assms(2,3,5) ok(2-5,8) by (simp add: net_ok_def same)
qed

lemma sound_body_server:
  assumes "sound_server rt logins history intact S N s" and "p \<in> set (pool s)"
    and "asked rt S N (TypeCommand_cast (hdr_command h)) q"
    and "ParseFromArray (Request_InternalParse rt) Request_SharedCtor body = (True, q)"
    and "length body = length (cn_buffer_msg (conns s p))"
  shows "sound_server rt logins history intact S N (body_handler rt h p body s)"
proof -
  have buf: "body @ drop (length body) (cn_buffer_msg (conns s p)) = body"
    using assms(5) by simp
  have tasks: "tasks (body_handler rt h p body s) = tasks s @ task_for (TypeCommand_cast (hdr_command h)) p q"
    unfolding body_handler_def process_msg_tasks by (simp add: buf parse_request_def assms(4))
  have "sound_task rt S N t" if "t \<in> set (task_for (TypeCommand_cast (hdr_command h)) p q)" for t
    using that assms(3) by (auto simp: task_for_def split: if_splits)
  moreover have "chat_of (body_handler rt h p body s) = chat_of s"
    by (intro chat_of_same) (auto simp: body_handler_def process_msg_def Let_def split_beta
        async_read_pb_header_def frames_to_def split: TypeCommand.split)
  moreover have "server_ok (body_handler rt h p body s)"
    using assms(1,2) by (intro body_handler_ok) (simp_all add: sound_server_def)
  ultimately show ?thesis
    by (intro sound_server_same [OF assms(1)]) (auto simp: tasks body_handler_untouched)
qed

lemma no_new_writes:
  "cn_started c' = cn_started c \<Longrightarrow> \<exists>new. cn_started c' = cn_started c @ new \<and> (\<forall>f. Direct f \<in> set new \<longrightarrow> P f)"
  by simp

lemma net_ok_header:
  assumes "pb_runtime rt" and "1073741910 \<le> alloc"
    and "net_ok rt logins history intact n" and "p \<in> set (pool (ns_server n))"
    and "cn_reading (conns (ns_server n) p) = ReadHeader" and "ns_up n p = block @ rest" and "length block = SIZE_HEADER"
  shows "\<exists>s. do_parse_pb_header rt alloc p (Some block) (ns_server n) = Inr s \<and> pool s = pool (ns_server n) \<and>
    (\<forall>q. q \<noteq> p \<longrightarrow> cn_reading (conns s q) = cn_reading (conns (ns_server n) q)) \<and> (\<exists>h. cn_reading (conns s p) = ReadBody h) \<and>
    net_ok rt logins history intact (take_up p rest (server_acts s n))"
proof -
  let ?S = "ns_spoken n" and ?N = "ns_names n" and ?s = "ns_server n"
  note ok = net_okD [OF assms(3)]
  obtain fs where fs: "list_all (asks_bytes rt ?S ?N) fs" "concat fs = block @ rest"
    using ok(6) [OF assms(4)] assms(5,6) by (auto simp: server_link_def frames_of_def)
  have "\<forall>f \<in> set fs. SIZE_HEADER \<le> length f"
    using fs(1) request_bytes_read(2) [OF assms(1)] by (auto simp: list_all_iff asks_bytes_def)
  then obtain f fs' where f: "fs = f # fs'" "block = take SIZE_HEADER f" "rest = drop SIZE_HEADER f @ concat fs'"
    using head_of_stream [OF fs(2) assms(7)] by (auto simp: SIZE_HEADER_eq)
  obtain a q where q: "asked rt ?S ?N a q" "f = request_bytes rt (a, q)"
    using fs(1) f(1) by (auto simp: asks_bytes_def)
  obtain h where h: "ParseFromArray (Header_InternalParse rt) Header_SharedCtor block = (True, h)"
    "TypeCommand_cast (hdr_command h) = a" "unat (hdr_length h) = length (drop SIZE_HEADER f)"
    "unat (hdr_length h) < 1073741910"
    using request_bytes_read(1) [OF assms(1) q(1)] f(2) q(2) by auto
  let ?s' = "on_conn p (\<lambda>c. c\<lparr>cn_buffer_msg := resize (unat (hdr_length h)) (cn_buffer_msg c), cn_reading := ReadBody h\<rparr>)
    (on_conn p (\<lambda>c. c\<lparr>cn_buffer_header := block\<rparr>) ?s)"
  have run: "do_parse_pb_header rt alloc p (Some block) ?s = Inr ?s'"
    using h(4) assms(2) by (simp add: do_parse_pb_header_def h(1) Let_def)
  have "server_ok ?s"
    using ok(1) by (simp add: sound_server_def)
  then have "server_ok ?s'"
    using do_parse_pb_header_ok run by blast
  moreover have "chat_of ?s' = chat_of ?s"
    by (intro chat_of_same) (simp_all add: frames_to_def)
  ultimately have "sound_server rt logins history intact ?S ?N ?s'"
    by (rule sound_server_same [OF ok(1)]) simp_all
  moreover have "request_link rt ?S ?N h rest"
    unfolding f(3) by (rule request_linkI) (use h(2,3) q fs(1) f(1) in simp_all)
  then have "server_link rt ?S ?N (cn_reading (conns ?s' q)) (ns_up (take_up p rest (server_acts ?s' n)) q)"
    if "q \<in> set (pool ?s')" for q
    using that ok(6) [of q] by (cases "q = p") (simp_all, simp add: server_link_def)
  ultimately have "net_ok rt logins history intact (take_up p rest (server_acts ?s' n))"
    by (intro net_ok_server [OF assms(3), of ?s'] no_new_writes) auto
  moreover have "cn_reading (conns ?s' p) = ReadBody h" by simp
  moreover have "pool ?s' = pool ?s" "q \<noteq> p \<Longrightarrow> cn_reading (conns ?s' q) = cn_reading (conns ?s q)" for q
    by simp_all
  ultimately show ?thesis using run by blast
qed

lemma body_handler_reading:
  "pool (body_handler rt h p data s) = pool s"
  "cn_reading (conns (body_handler rt h p data s) q) = (if q = p then ReadHeader else cn_reading (conns s q))"
  by (auto simp: body_handler_def process_msg_def Let_def split_beta async_read_pb_header_def split: TypeCommand.split)

lemma net_ok_body:
  assumes "pb_runtime rt" and "net_ok rt logins history intact n" and "all_buffers_ok alloc (ns_server n)"
    and "p \<in> set (pool (ns_server n))" and "cn_reading (conns (ns_server n) p) = ReadBody h"
    and "ns_up n p = data @ rest" and "length data = unat (hdr_length h)"
  shows "fst (parse_request rt data) \<and>
    net_ok rt logins history intact (take_up p rest (server_acts (body_handler rt h p data (ns_server n)) n))"
proof -
  let ?S = "ns_spoken n" and ?N = "ns_names n" and ?s = "ns_server n"
  let ?s' = "body_handler rt h p data ?s"
  note ok = net_okD [OF assms(2)]
  have "request_link rt ?S ?N h (data @ rest)"
    using ok(6) [OF assms(4)] assms(5,6) by (simp add: server_link_def)
  then show ?thesis
  proof cases
    case (request_linkI q body rest')
    then have split: "data = body" "rest = rest'"
      using assms(7) by simp_all
    have parse: "ParseFromArray (Request_InternalParse rt) Request_SharedCtor data = (True, q)"
      using request_bytes_read(1) [OF assms(1) request_linkI(2)] request_linkI(3) split(1) by auto
    have "length data = length (cn_buffer_msg (conns ?s p))"
      using assms(3-5,7) by (simp add: all_buffers_ok_def buffers_ok_def)
    then have sound: "sound_server rt logins history intact ?S ?N ?s'"
      using sound_body_server [OF ok(1) assms(4) request_linkI(2) parse] by simp
    have "net_ok rt logins history intact (take_up p rest (server_acts ?s' n))"
    proof (rule net_ok_server [OF assms(2) sound])
      show "pool ?s' = pool ?s" by (rule body_handler_reading)
      show "server_link rt ?S ?N (cn_reading (conns ?s' q)) (ns_up (take_up p rest (server_acts ?s' n)) q)"
        if "q \<in> set (pool ?s')" for q
        using that ok(6) [of q] request_linkI(5) split(2) \<open>pool ?s' = pool ?s\<close>
        by (cases "q = p") (simp_all add: body_handler_reading, simp add: server_link_def)
    qed (auto intro: no_new_writes simp: body_handler_untouched)
    with parse show ?thesis by (simp add: parse_request_def)
  qed
qed

lemma goes_on_started:
  "goes_on rt c c' \<Longrightarrow> \<exists>new. cn_started c' = cn_started c @ new \<and>
    (\<forall>f. Direct f \<in> set new \<longrightarrow> (\<exists>a m. answered rt a m \<and> f = response_bytes rt (a, m)))"
  by (simp add: goes_on_def)

lemma goes_on_reading: "goes_on rt c c' \<Longrightarrow> cn_reading c' = cn_reading c"
  by (simp add: goes_on_def)

lemma net_ok_goes_on:
  assumes "net_ok rt logins history intact n"
    and "sound_server rt logins history intact (ns_spoken n) (ns_names n) s"
    and "pool s = pool (ns_server n)" and "\<forall>q. goes_on rt (conns (ns_server n) q) (conns s q)"
  shows "net_ok rt logins history intact (server_acts s n)"
proof (rule net_ok_server [OF assms(1-3) goes_on_started])
  show "goes_on rt (conns (ns_server n) q) (conns s q)" for q
    using assms(4) by blast
  show "server_link rt (ns_spoken n) (ns_names n) (cn_reading (conns s q)) (ns_up (server_acts s n) q)"
    if "q \<in> set (pool s)" for q
    using net_okD(6) [OF assms(1), of q] goes_on_reading [OF assms(4) [rule_format, of q]] assms(3) that by simp
qed simp

lemma net_ok_works:
  assumes "sqlite_laws eng logins history intact" and "boost_format fmt02"
    and "net_ok rt logins history intact n" and "tasks (ns_server n) = before @ t # after"
  shows "\<exists>s. run_task rt eng fmt02 t ((ns_server n)\<lparr>tasks := before @ after\<rparr>) = Inr s \<and>
    pool s = pool (ns_server n) \<and> (\<forall>q. goes_on rt (conns (ns_server n) q) (conns s q)) \<and>
    net_ok rt logins history intact (server_acts s n)"
proof -
  let ?s = "ns_server n"
  let ?s1 = "?s\<lparr>tasks := before @ after\<rparr>"
  note ok = net_okD [OF assms(3)]
  have t: "sound_task rt (ns_spoken n) (ns_names n) t" "task_conn t \<in> set (pool ?s)"
    using ok(1) server_okD(4) [of ?s t] assms(4) by (auto simp: sound_server_def)
  have sok: "server_ok ?s"
    using ok(1) by (simp add: sound_server_def)
  have "server_ok ?s1"
    by (rule server_ok_same [OF sok]) (auto simp: assms(4))
  then have s1: "sound_server rt logins history intact (ns_spoken n) (ns_names n) ?s1"
    by (rule sound_server_same [OF ok(1)]) (auto simp: assms(4))
  obtain s where "run_task rt eng fmt02 t ?s1 = Inr s" "pool s = pool ?s"
    "sound_server rt logins history intact (ns_spoken n) (ns_names n) s" "\<forall>q. goes_on rt (conns ?s q) (conns s q)"
    using sound_run [OF assms(1,2) s1 t(1)] t(2) by auto
  then show ?thesis
    using net_ok_goes_on [OF assms(3)] by blast
qed

section \<open>The invariant holds\<close>

lemma net_ok_frees:
  assumes "net_ok rt logins history intact n"
    and "s = on_conn p f (ns_server n)" and "\<And>c. conn_ok c \<Longrightarrow> conn_ok (f c)"
    and "\<And>c. cn_client_id (f c) = cn_client_id c \<and> cn_login (f c) = cn_login c \<and>
      conn_queue.outbox (f c) = conn_queue.outbox c \<and> cn_started (f c) = cn_started c"
    and "\<And>c. cn_reading (f c) = cn_reading c \<or> cn_reading (f c) = NoRead"
  shows "net_ok rt logins history intact (server_acts (free_connection rt p s) n)"
proof -
  note ok = net_okD [OF assms(1)]
  have "server_ok s"
    unfolding assms(2) using ok(1) by (intro server_ok_on_conn assms(3)) (simp_all add: sound_server_def)
  moreover have "chat_of s = chat_of (ns_server n)"
    unfolding assms(2) using assms(4) by (intro chat_of_on_conn) simp_all
  ultimately have "sound_server rt logins history intact (ns_spoken n) (ns_names n) s"
    by (rule sound_server_same [OF ok(1)]) (simp_all add: assms(2))
  note free = sound_free [OF this ok(3), of p]
  have pool: "pool s = pool (ns_server n)" by (simp add: assms(2))
  have started: "cn_started (conns s q) = cn_started (conns (ns_server n) q)" for q
    using assms(4) by (simp add: assms(2))
  have reading: "cn_reading (conns s q) = cn_reading (conns (ns_server n) q) \<or> cn_reading (conns s q) = NoRead" for q
    using assms(5) by (simp add: assms(2))
  show ?thesis
  proof (rule net_ok_server [OF assms(1)])
    show "\<exists>new. cn_started (conns (free_connection rt p s) q) = cn_started (conns (ns_server n) q) @ new \<and>
        (\<forall>f. Direct f \<in> set new \<longrightarrow> (\<exists>a m. answered rt a m \<and> f = response_bytes rt (a, m)))" for q
      using goes_on_started free started by metis
    show "server_link rt (ns_spoken n) (ns_names n) (cn_reading (conns (free_connection rt p s) q))
        (ns_up (server_acts (free_connection rt p s) n) q)" if "q \<in> set (pool (free_connection rt p s))" for q
    proof -
      have "cn_reading (conns (free_connection rt p s) q) = cn_reading (conns s q)"
        using free by (blast intro: goes_on_reading)
      then show ?thesis
        using reading [of q] ok(6) [of q] that free pool by (auto simp: server_link_def)
    qed
  qed (use free pool in simp_all)
qed

lemma login_frame_asks:
  assumes "login_typed rt l pw" and "login_frame rt l pw cmd = Inr frame" and "l \<in> N"
  shows "asks_bytes rt S N frame"
proof -
  obtain req where "asked rt S N cmd req" "frame = request_bytes rt (cmd, req)"
    using assms by (auto simp: login_frame_def request_bytes_def login_typed_def split: if_splits
        intro: asks_login asks_registration)
  then show ?thesis by (auto simp: asks_bytes_def)
qed

lemma accepted_simps:
  "pool (scan_acception False i header s) = pool s @ [length (pool s)]"
  "manager (scan_acception False i header s) = manager s"
  "tasks (scan_acception False i header s) = tasks s" "database (scan_acception False i header s) = database s"
  "conns (scan_acception False i header s) q = (if q = length (pool s)
     then async_read_pb_header (Connection_ctor i header) else conns s q)"
  by (simp_all add: scan_acception_def get_connection_def Let_def)

lemma net_ok_dial:
  assumes "net_ok rt logins history intact n" and "login_typed rt l pw" and "login_frame rt l pw cmd = Inr frame"
    and "length header = SIZE_HEADER" and "p = length (pool (ns_server n))"
  shows "net_ok rt logins history intact
    (n\<lparr>ns_server := scan_acception False i header (ns_server n),
       ns_users := (ns_users n)(p := do_connect False frame (set_login l (Client_ctor ci cheader))),
       ns_up := (ns_up n)(p := frame), ns_down := (ns_down n)(p := []),
       ns_dialing := insert p (ns_dialing n), ns_names := insert l (ns_names n)\<rparr>)"
proof -
  let ?S = "ns_spoken n" and ?N = "insert l (ns_names n)" and ?s' = "scan_acception False i header (ns_server n)"
  let ?c = "do_connect False frame (set_login l (Client_ctor ci cheader))"
  note ok = net_okD [OF assms(1)]
  have grow: "?S \<subseteq> ?S" "ns_names n \<subseteq> ?N" by auto
  have old: "sound_server rt logins history intact ?S ?N (ns_server n)"
    by (rule sound_server_mono [OF ok(1) grow])
  have sok: "server_ok (ns_server n)"
    using ok(1) by (simp add: sound_server_def)
  have "server_ok ?s'"
    by (rule server_step_ok [OF server_step.accept [OF assms(4)] sok])
  moreover have "honest.honest rt ?S ?N (chat_of ?s')"
    unfolding chat_of_accept by (rule honest.honest_connect) (use old ok(2) in \<open>simp_all add: sound_server_def\<close>)
  ultimately have sound: "sound_server rt logins history intact ?S ?N ?s'"
    using old by (simp add: sound_server_def accepted_simps)
  have pool: "p \<notin> set (pool (ns_server n))"
    using server_okD(3) [OF sok] assms(5) by (metis atLeastLessThan_iff less_irrefl set_upt)
  have "server_link rt ?S ?N (cn_reading (conns ?s' p)) frame"
    using frames_of_concat [of "asks_bytes rt ?S ?N" "[frame]"] login_frame_asks [OF assms(2,3), of ?N ?S]
    by (simp add: accepted_simps assms(5) async_read_pb_header_def server_link_def)
  moreover have "hears_all rt ?S ?N True ?c ([] @ []) []"
    by (rule hears_allI [where es = "[]"])
      (simp_all add: awaits_def shows_all_def do_connect_def send_login_request_def set_login_def Client_ctor_def
        client_get_history_eq List.map_filter_def)
  then have "client_link rt ?S ?N True ?c (cn_started (conns ?s' p)) []"
    using assms(2) by (simp add: client_link_def do_connect_def send_login_request_def set_login_def Client_ctor_def
        login_typed_def accepted_simps assms(5) async_read_pb_header_def Connection_ctor_def)
  moreover have "server_link rt ?S ?N (cn_reading (conns (ns_server n) q)) (ns_up n q) \<and>
      client_link rt ?S ?N (q \<in> ns_dialing n) (ns_users n q) (cn_started (conns (ns_server n) q)) (ns_down n q)" if "q \<in> set (pool (ns_server n))" for q
    using server_link_mono [OF ok(6) [OF that] grow] client_link_mono [OF ok(7) [OF that] grow] by simp
  moreover have "readable rt d" if "heard ?S ?N d" for d
    using that ok(4) assms(2) by (auto simp: heard_def login_typed_def)
  moreover have "q \<in> set (pool (ns_server n)) \<and> cl_queue (ns_users n q) \<noteq> [] \<and> q \<noteq> p" if "q \<in> ns_writing n" for q
    using ok(8) [OF that] pool by auto
  ultimately show ?thesis
    using sound ok(2,3,5) pool by (auto simp: net_ok_def accepted_simps assms(5))
qed

lemma net_ok_sent:
  assumes "net_ok rt logins history intact n" and "cn_writing (conns (ns_server n) p)"
  shows "net_ok rt logins history intact (server_acts (queue_write_handler rt p ok (ns_server n)) n)"
proof (cases ok)
  case True
  let ?s = "on_conn p queue_written (ns_server n)"
  note inv = net_okD [OF assms(1)]
  have sok: "server_ok (ns_server n)"
    using inv(1) by (simp add: sound_server_def)
  then have queue: "cn_queue (conns (ns_server n) p) \<noteq> []"
    using server_okD(2) [of "ns_server n" p] assms(2) by (simp add: conn_ok_def)
  have "server_ok ?s"
    using sok by (rule server_ok_on_conn) simp
  moreover have "chat_of ?s = chat_of (ns_server n)"
    by (intro chat_of_on_conn conn_queue.outbox_written queue)
      (simp_all add: queue_written_def sending_msgs_to_client_def Let_def)
  ultimately have "sound_server rt logins history intact (ns_spoken n) (ns_names n) ?s"
    by (rule sound_server_same [OF inv(1)]) simp_all
  then have "net_ok rt logins history intact (server_acts ?s n)"
    by (rule net_ok_goes_on [OF assms(1)]) (simp_all add: goes_on_written)
  with True show ?thesis by (simp add: queue_write_handler_def)
next
  case False
  then show ?thesis
    unfolding queue_write_handler_def
    using net_ok_frees [OF assms(1) refl, of "\<lambda>c. c\<lparr>cn_writing := False\<rparr>" p] by simp
qed

lemma net_ok_delivers:
  assumes "pb_runtime rt" and "sqlite_laws eng logins history intact" and "boost_format fmt02"
    and "1073741910 \<le> alloc" and "1073741910 \<le> calloc"
    and "delivers rt eng fmt02 alloc calloc n n'" and "all_buffers_ok alloc (ns_server n)"
    and "net_ok rt logins history intact n"
  shows "net_ok rt logins history intact n'"
  using assms(6)
proof cases
  case (dialed p)
  show ?thesis unfolding dialed(1) by (rule net_ok_dialed [OF assms(8) dialed(2)])
next
  case (wrote p)
  show ?thesis unfolding wrote(1) by (rule net_ok_wrote [OF assms(8) wrote(2)])
next
  case (hears p block rest c)
  then show ?thesis
    using net_ok_hears [OF assms(1,5,8) hears(2-5)] by auto
next
  case (header_comes p block rest s)
  then show ?thesis
    using net_ok_header [OF assms(1,4,8) header_comes(2-5)] by auto
next
  case (body_comes p h data rest)
  then show ?thesis
    using net_ok_body [OF assms(1,8,7) body_comes(2-5)] by simp
next
  case (works before t after s)
  then show ?thesis
    using net_ok_works [OF assms(2,3,8) works(2)] by auto
next
  case (sent p)
  show ?thesis unfolding sent(1) by (rule net_ok_sent [OF assms(8) sent(3)])
qed

text \<open>Opening a channel changes neither what a client shows nor what it waits for.\<close>

lemma net_ok_opens:
  assumes "net_ok rt logins history intact n" and "p \<in> set (pool (ns_server n))"
  shows "net_ok rt logins history intact (client_acts p (open_channel r (ns_users n p)) n)"
proof -
  let ?c = "open_channel r (ns_users n p)"
  have "hears_all rt (ns_spoken n) (ns_names n) (p \<in> ns_dialing n) ?c (cn_started (conns (ns_server n) p)) (ns_down n p)"
    and "p \<in> ns_dialing n \<Longrightarrow> cl_reading ?c = Idle"
    using net_okD(7) [OF assms] hears_all_opens by (auto simp: client_link_def)
  then have "net_ok rt logins history intact (take_down p (ns_down n p) (client_acts p ?c n))"
    by (intro net_ok_read [OF assms]) (simp_all add: same_session_def)
  moreover have "take_down p (ns_down n p) (client_acts p ?c n) = client_acts p ?c n"
    by (simp add: take_down_def client_acts_def)
  ultimately show ?thesis by simp
qed

lemma net_ok_breaks:
  assumes "breaks rt alloc calloc n n'" and "net_ok rt logins history intact n"
  shows "net_ok rt logins history intact n'"
  using assms(1)
proof cases
  case (dial_fails p)
  show ?thesis unfolding dial_fails(1) by (rule net_ok_dialed [OF assms(2) dial_fails(2)])
next
  case (write_fails p)
  show ?thesis unfolding write_fails(1) by (rule net_ok_wrote [OF assms(2) write_fails(2)])
next
  case (hears_no_more p c)
  show ?thesis unfolding hears_no_more(1) by (rule net_ok_hears_no_more [OF assms(2) hears_no_more(2,3)])
next
  case (header_lost p s)
  have "s = free_connection rt p (on_conn p (\<lambda>c. c\<lparr>cn_reading := NoRead\<rparr>) (ns_server n))"
    using header_lost(4) by (simp add: do_parse_pb_header_def)
  then show ?thesis
    using net_ok_frees [OF assms(2) refl, of "\<lambda>c. c\<lparr>cn_reading := NoRead\<rparr>" p] by (simp add: header_lost(1))
next
  case (not_sent p)
  show ?thesis unfolding not_sent(1) by (rule net_ok_sent [OF assms(2) not_sent(3)])
next
  case (sent_directly p f ok)
  have "net_ok rt logins history intact (server_acts (free_connection rt p (ns_server n)) n)"
    using net_ok_frees [OF assms(2), where f = "\<lambda>c. c" and p = p] by (simp add: on_conn_def)
  moreover have "net_ok rt logins history intact (server_acts (ns_server n) n)"
    using net_okD(1) [OF assms(2)] by (rule net_ok_goes_on [OF assms(2)]) simp_all
  ultimately show ?thesis
    by (simp add: sent_directly(1) direct_write_handler_def)
qed

lemma net_ok_step:
  assumes "pb_runtime rt" and "sqlite_laws eng logins history intact" and "boost_format fmt02"
    and "1073741910 \<le> alloc" and "1073741910 \<le> calloc"
    and "net_step rt eng fmt02 alloc calloc n n'" and "all_buffers_ok alloc (ns_server n)"
    and "net_ok rt logins history intact n"
  shows "net_ok rt logins history intact n'"
  using assms(6)
proof cases
  case delivered
  then show ?thesis by (rule net_ok_delivers [OF assms(1-5) _ assms(7,8)])
next
  case broken
  then show ?thesis by (rule net_ok_breaks [OF _ assms(8)])
next
  case dial
  show ?thesis unfolding dial(1) by (rule net_ok_dial [OF assms(8) dial(2-5)])
next
  case (asks p r)
  have "asks_bytes rt (ns_spoken n) (ns_names n) (request_bytes rt (JoinRoomRequestCmd, join_room_request r))"
    unfolding asks_bytes_def using asks_room by blast
  then show ?thesis
    using net_ok_asks [OF assms(8) asks(2), of "ns_spoken n"]
    by (simp add: asks(1) client_change_room_def request_bytes_def Let_def)
next
  case (says p t d r)
  let ?S = "insert d (ns_spoken n)" and ?l = "cl_login (ns_users n p)"
  have l: "plain ?l" "?l \<noteq> []" "str_ok rt ?l"
    using net_okD(7) [OF assms(8) says(2)] by (simp_all add: client_link_def)
  have "asked rt ?S (ns_names n) EchoRequest (create_text_request ?l r t)"
    using l says(3,4) by (intro asks_text) (simp_all add: text_typed_def)
  then have "asks_bytes rt ?S (ns_names n) (request_bytes rt (EchoRequest, create_text_request ?l r t))"
    unfolding asks_bytes_def by blast
  moreover have "readable rt d"
    using l(3) says(3,4) by (simp add: readable_def text_typed_def)
  ultimately show ?thesis
    using net_ok_asks [OF assms(8) says(2), of ?S]
    by (simp add: says(1) send_msg_to_server_def request_bytes_def Let_def subset_insertI)
next
  case (browses p r)
  show ?thesis unfolding browses(1) by (rule net_ok_opens [OF assms(8) browses(2)])
qed

text \<open>Every step of the system is a step of the server or leaves the server alone.\<close>

lemma delivers_server:
  assumes "delivers rt eng fmt02 alloc calloc n n'"
  shows "ns_server n' = ns_server n \<or> server_step rt eng fmt02 alloc (ns_server n) (ns_server n')"
  using assms
proof cases
  case (header_comes p block rest s)
  then show ?thesis by (auto intro!: server_step.header_read)
next
  case (body_comes p h data rest)
  then show ?thesis by (auto intro!: server_step.body_read)
next
  case (works before t after s)
  then show ?thesis by (auto intro: server_step.run)
next
  case (sent p)
  then show ?thesis by (auto intro: server_step.queue_write)
qed simp_all

lemma breaks_server:
  assumes "breaks rt alloc calloc n n'"
  shows "ns_server n' = ns_server n \<or> server_step rt eng fmt02 alloc (ns_server n) (ns_server n')"
  using assms
proof cases
  case (header_lost p s)
  then show ?thesis by (auto intro!: server_step.header_read)
next
  case (not_sent p)
  then show ?thesis by (auto intro: server_step.queue_write)
next
  case (sent_directly p f ok)
  then show ?thesis by (auto intro: server_step.direct_write)
qed simp_all

lemma net_step_server:
  assumes "net_step rt eng fmt02 alloc calloc n n'"
  shows "ns_server n' = ns_server n \<or> server_step rt eng fmt02 alloc (ns_server n) (ns_server n')"
  using assms
proof cases
  case delivered
  then show ?thesis by (rule delivers_server)
next
  case broken
  then show ?thesis by (rule breaks_server)
next
  case dial
  then show ?thesis by (simp add: server_step.accept)
qed simp_all

lemma net_server_reach:
  "net_reach rt eng fmt02 alloc calloc db past n \<Longrightarrow> server_reach rt eng fmt02 alloc (Some db) (ns_server n)"
proof (induction rule: net_reach.induct)
  case start
  then show ?case by (simp add: net_start_def server_reach.start)
next
  case (step n n')
  then show ?case using net_step_server server_reach.step by metis
qed

section \<open>What the closed system guarantees\<close>

text \<open>A start from which it does: a database that is open and well kept, and readable texts in it.\<close>

definition starts_well :: "pb_rt \<Rightarrow> ('h \<Rightarrow> entry list) \<Rightarrow> ('h \<Rightarrow> entry list) \<Rightarrow> ('h \<Rightarrow> bool) \<Rightarrow>
    'h Database \<Rightarrow> TextSendData set \<Rightarrow> bool" where
  "starts_well rt logins history intact db past \<longleftrightarrow> sound_db logins history intact past (Some db) \<and>
     (\<forall>d. heard past {[], ''unused''} d \<longrightarrow> readable rt d)"

lemma net_start_ok:
  assumes "starts_well rt logins history intact db past"
  shows "net_ok rt logins history intact (net_start db past)"
proof -
  have "honest.honest rt past {[], ''unused''} (chat_of (Server_ctor (Some db)))"
    unfolding chat_of_start honest.honest_def by (simp add: chat_init_def)
  moreover have "tasks (Server_ctor (Some db)) = []" "database (Server_ctor (Some db)) = Some db"
    "pool (Server_ctor (Some db)) = []"
    by (simp_all add: Server_ctor_def)
  ultimately show ?thesis
    using assms Server_ctor_ok [of "Some db"]
    by (simp add: net_ok_def net_start_def sound_server_def starts_well_def)
qed

lemma net_reach_ok:
  assumes "pb_runtime rt" and "sqlite_laws eng logins history intact" and "boost_format fmt02"
    and "1073741910 \<le> alloc" and "1073741910 \<le> calloc" and "starts_well rt logins history intact db past"
    and "net_reach rt eng fmt02 alloc calloc db past n"
  shows "net_ok rt logins history intact n \<and> all_buffers_ok alloc (ns_server n)"
  using assms(7)
proof induction
  case start
  then show ?case
    using net_start_ok [OF assms(6)] reach_buffers [OF server_reach.start] by (simp add: net_start_def)
next
  case (step n n')
  then show ?case
    using net_ok_step [OF assms(1-5) step.hyps(2)] reach_buffers [OF net_server_reach]
      net_reach.step [OF step.hyps] by blast
qed

end
