(* ===== verification/ClosedSystem.thy ===== *)
theory ClosedSystem
  imports NetworkSafety
begin

text \<open>
  What the closed system of server and clients guarantees, and that it can do what it is for: a
  concrete run in which a client logs in, joins a room and shows the room's announcement.
\<close>

section \<open>Two steps of the network\<close>

text \<open>A request that is in flight can be taken in by the server.\<close>

lemma takes:
  assumes "pb_runtime rt" and "asked rt S N a q" and "1073741910 \<le> alloc" and "p \<in> set (pool (ns_server n))"
    and "cn_reading (conns (ns_server n) p) = ReadHeader" and "ns_up n p = request_bytes rt (a, q) @ rest"
  shows "\<exists>n1 n2. delivers rt eng fmt02 alloc calloc n n1 \<and> delivers rt eng fmt02 alloc calloc n1 n2 \<and>
    manager (ns_server n1) = manager (ns_server n) \<and> ns_writing n2 = ns_writing n \<and> ns_spoken n2 = ns_spoken n \<and>
    ns_users n2 = ns_users n \<and> ns_dialing n2 = ns_dialing n \<and> ns_down n2 = ns_down n \<and> ns_up n2 p = rest \<and>
    tasks (ns_server n2) = tasks (ns_server n) @ task_for a p q \<and>
    manager (ns_server n2) = manager (ns_server n) \<and> database (ns_server n2) = database (ns_server n) \<and>
    pool (ns_server n2) = pool (ns_server n) \<and> cn_reading (conns (ns_server n2) p) = ReadHeader \<and>
    cn_queue (conns (ns_server n2) p) = cn_queue (conns (ns_server n) p)"
proof -
  let ?f = "request_bytes rt (a, q)" and ?s = "ns_server n"
  note wf = asked_wf [OF assms(2)]
  have fits: "Request_ByteSizeLong rt q \<le> alloc"
    using pb_runtime.Request_small [OF assms(1), of q] wf assms(3) by simp
  obtain h s1 where s1: "do_parse_pb_header rt alloc p (Some (take SIZE_HEADER ?f)) ?s = Inr s1"
    "cn_reading (conns s1 p) = ReadBody h" "unat (hdr_length h) = length (drop SIZE_HEADER ?f)"
    "tasks (body_handler rt h p (drop SIZE_HEADER ?f) s1) = tasks ?s @ task_for a p q"
    "cn_reading (conns (body_handler rt h p (drop SIZE_HEADER ?f) s1) p) = ReadHeader"
    using request_frame_posts [OF assms(1) _ _ _ fits, of a p _ ?s] wf unfolding request_bytes_def prod.case by blast
  let ?s2 = "body_handler rt h p (drop SIZE_HEADER ?f) s1"
  let ?n1 = "take_up p (drop SIZE_HEADER ?f @ rest) (server_acts s1 n)"
  let ?n2 = "take_up p rest (server_acts ?s2 ?n1)"
  have pool: "pool s1 = pool ?s" "pool ?s2 = pool s1"
    using s1(1) by (auto simp: do_parse_pb_header_def body_handler_def process_msg_def Let_def split_beta
        split: if_splits TypeCommand.split)
  have "length (take SIZE_HEADER ?f) = SIZE_HEADER"
    using request_bytes_read(2) [OF assms(1,2)] by simp
  then have "delivers rt eng fmt02 alloc calloc n ?n1"
    using assms(4-6) s1(1) by (intro delivers.header_comes) simp_all
  moreover have "delivers rt eng fmt02 alloc calloc ?n1 ?n2"
    using assms(4) s1(2,3) pool(1) delivers.body_comes [of p ?n1 h "drop SIZE_HEADER ?f" rest]
    by simp
  moreover have "ns_down ?n2 = ns_down n"
    by (simp add: server_acts_def fun_eq_iff body_handler_untouched parse_header_untouched [OF s1(1)])
  ultimately show ?thesis
    using s1(4,5) pool parse_header_untouched [OF s1(1)]
    by (intro exI [of _ ?n1] exI [of _ ?n2]) (simp add: body_handler_untouched)
qed

lemma net_takes:
  assumes "pb_runtime rt" and "asked rt S N a q" and "1073741910 \<le> alloc" and "p \<in> set (pool (ns_server n))"
    and "cn_reading (conns (ns_server n) p) = ReadHeader" and "ns_up n p = request_bytes rt (a, q) @ rest"
  shows "\<exists>n1 n2. net_step rt eng fmt02 alloc calloc n n1 \<and> net_step rt eng fmt02 alloc calloc n1 n2 \<and>
    manager (ns_server n1) = manager (ns_server n) \<and> ns_writing n2 = ns_writing n \<and> ns_spoken n2 = ns_spoken n \<and>
    ns_users n2 = ns_users n \<and> ns_dialing n2 = ns_dialing n \<and> ns_down n2 = ns_down n \<and> ns_up n2 p = rest \<and>
    tasks (ns_server n2) = tasks (ns_server n) @ task_for a p q \<and>
    manager (ns_server n2) = manager (ns_server n) \<and> database (ns_server n2) = database (ns_server n) \<and>
    pool (ns_server n2) = pool (ns_server n) \<and> cn_reading (conns (ns_server n2) p) = ReadHeader \<and>
    cn_queue (conns (ns_server n2) p) = cn_queue (conns (ns_server n) p)"
  using takes [OF assms] by (meson net_step.delivered)

text \<open>A message that is in flight can be heard.\<close>

lemma hears:
  assumes "pb_runtime rt" and "1073741910 \<le> calloc" and "readable rt d" and "p \<in> set (pool (ns_server n))"
    and "cl_reading (ns_users n p) = WaitHeader" and "ns_down n p = message_frame rt d @ rest"
  shows "\<exists>n1 n2. delivers rt eng fmt02 alloc calloc n n1 \<and> delivers rt eng fmt02 alloc calloc n1 n2 \<and>
    ns_server n1 = ns_server n \<and> ns_server n2 = ns_server n \<and> ns_up n2 p = ns_up n p \<and> ns_down n2 p = rest \<and>
    ns_writing n2 = ns_writing n \<and> ns_spoken n2 = ns_spoken n \<and> ns_dialing n2 = ns_dialing n \<and> cl_reading (ns_users n2 p) = WaitHeader \<and>
    cl_queue (ns_users n2 p) = cl_queue (ns_users n p) \<and> shown d \<in> set (fst (client_get_history (td_room_id d) (ns_users n2 p)))"
proof -
  let ?f = "message_frame rt d" and ?c = "ns_users n p"
  let ?m = "create_text_response (td_login d) (td_room_id d) (td_text d)"
  have sent: "sent_out rt {d} {} EchoResponse ?m"
    by (rule sends_text) (simp add: heard_def)
  have read: "readable rt d'" if "heard {d} {} d'" for d'
    using that assms(3) by (simp add: heard_def)
  obtain c1 where c1: "read_completes rt calloc (Some (take SIZE_HEADER ?f)) ?c = Inr c1"
    "cl_reading c1 = reading_for EchoResponse" "length (cl_read_buffer c1) = length (drop SIZE_HEADER ?f)"
    "same_session ?c c1"
    using client_head [OF assms(1) sent read assms(2,5)] unfolding server_frame_bytes by blast
  have "Response_ByteSizeLong rt ?m \<le> calloc"
    using pb_runtime.Response_small [OF assms(1), of ?m] sent_out_wf [OF sent read] assms(2) by simp
  then obtain c2 where "receive_frame rt calloc ?f ?c = Inr c2" and reading: "cl_reading c2 = WaitHeader"
    and hist: "fst (client_get_history (td_room_id d) c2) = fst (client_get_history (td_room_id d) ?c) @ [shown d]"
    using text_received [OF assms(1,5), of "td_login d" "td_text d" "td_room_id d" calloc] assms(3)
    by (auto simp: readable_def message_frame_def shown_def)
  then have c2: "read_completes rt calloc (Some (drop SIZE_HEADER ?f)) c1 = Inr c2"
    using received_eq [OF c1(1)] by simp
  have utters: "utters rt {d} {} (Queued ?f) EchoResponse ?m"
    by (rule utters_text) (simp add: heard_def)
  from client_body [OF assms(1) this read c1(2) [symmetric], of calloc] c1(4)
  have same: "same_session ?c c1" "same_session ?c c2"
    by (auto simp: c2 same_session_def)
  have len: "SIZE_HEADER \<le> length ?f"
    using response_bytes_read(2) [OF assms(1) sent read] unfolding server_frame_bytes .
  let ?n1 = "take_down p (drop SIZE_HEADER ?f @ rest) (client_acts p c1 n)"
  let ?n2 = "take_down p rest (client_acts p c2 ?n1)"
  have "delivers rt eng fmt02 alloc calloc n ?n1"
    using assms(4-6) c1(1) len by (intro delivers.hears) (simp_all add: client_wants_def)
  moreover have "delivers rt eng fmt02 alloc calloc ?n1 ?n2"
    using assms(4) c1(2,3) c2 by (intro delivers.hears) (simp_all add: client_wants_def reading_for_def)
  moreover have "ns_up ?n2 p = ns_up n p" "ns_writing ?n2 = ns_writing n" "cl_queue (ns_users ?n2 p) = cl_queue ?c"
    using same by (simp_all add: same_session_def client_acts_def)
  ultimately show ?thesis
    using hist reading by (intro exI [of _ ?n1] exI [of _ ?n2]) simp
qed


lemma net_hears:
  assumes "pb_runtime rt" and "1073741910 \<le> calloc" and "readable rt d" and "p \<in> set (pool (ns_server n))"
    and "cl_reading (ns_users n p) = WaitHeader" and "ns_down n p = message_frame rt d @ rest"
  shows "\<exists>n1 n2. net_step rt eng fmt02 alloc calloc n n1 \<and> net_step rt eng fmt02 alloc calloc n1 n2 \<and>
    ns_server n1 = ns_server n \<and> ns_server n2 = ns_server n \<and> ns_up n2 p = ns_up n p \<and> ns_down n2 p = rest \<and>
    ns_writing n2 = ns_writing n \<and> ns_spoken n2 = ns_spoken n \<and> ns_dialing n2 = ns_dialing n \<and> cl_reading (ns_users n2 p) = WaitHeader \<and>
    cl_queue (ns_users n2 p) = cl_queue (ns_users n p) \<and> shown d \<in> set (fst (client_get_history (td_room_id d) (ns_users n2 p)))"
  using hears [OF assms] by (meson net_step.delivered)
text \<open>The first join of a server: the new member is handed its own announcement.\<close>

lemma first_join:
  assumes "manager s = Manager_ctor" and "database s = Some db" and "get_history eng r db = Inr ([], db)"
    and "cn_queue (conns s p) = []"
  shows "\<exists>s' ch. do_join_room rt eng p (join_room_request r) s = Inr s' \<and> pool s' = pool s \<and>
    map_of (channels (manager s')) r = Some ch \<and> subscribers ch = [(cn_client_id (conns s p), p)] \<and>
    history_room ch = [joined (cn_login (conns s p)) r] \<and> database s' = Some db \<and>
    cn_reading (conns s' p) = cn_reading (conns s p) \<and> cn_writing (conns s' p) \<and>
    cn_queue (conns s' p) = [message_frame rt (joined (cn_login (conns s p)) r)] \<and>
    cn_started (conns s' p) = cn_started (conns s p) @ [Queued (message_frame rt (joined (cn_login (conns s p)) r))]"
  using assms
  by (simp add: do_join_room_def join_channel_def Manager_join_def Manager_ctor_def Channel_ctor_def
      Channel_join_def Channel_notification_def connection_subscriber_def send_msg_to_client_def send_data_def
      joined_def notice_def message_frame_def add_msg_send_queue_def sending_msgs_to_client_def Let_def split_beta
      um_try_emplace_def)

section \<open>A session\<close>

lemma std_readable:
  assumes "ascii l" and "length l < 1000"
  shows "readable std_rt (joined l r)" and "readable std_rt (left l r)"
proof -
  note short = length_to_string_int32 [of r]
  show "readable std_rt (joined l r)" "readable std_rt (left l r)"
    using assms short
    by (auto simp: readable_def joined_def left_def notice_def join_message_def leave_message_def
        std_str_ok [folded ascii_def])
qed

lemma demo_typed: "login_typed std_rt ''ann'' ''pw''"
  by (auto simp: login_typed_def std_readable std_str_ok [folded ascii_def])

lemma demo_starts_well: "starts_well std_rt fst snd (\<lambda>_. True) (mini_db [] []) {}"
  by (auto simp: starts_well_def sound_db_def mini_db_def history_ok_def heard_def std_readable)

definition demo_net :: "mini net" where
  "demo_net = net_start (mini_db [] []) {}"

abbreviation demo_step :: "mini net \<Rightarrow> mini net \<Rightarrow> bool" where
  "demo_step \<equiv> net_step std_rt mini_engine std_fmt02 2000000000 2000000000"

abbreviation demo_reach :: "mini net \<Rightarrow> bool" where
  "demo_reach \<equiv> net_reach std_rt mini_engine std_fmt02 2000000000 2000000000 (mini_db [] []) {}"

text \<open>The user ann connects, to register or to log in.\<close>

lemma demo_dials_with:
  assumes "login_frame std_rt ''ann'' ''pw'' cmd = Inr frame"
  shows "\<exists>n. demo_reach n \<and> ns_spoken n = {} \<and> pool (ns_server n) = [0] \<and> tasks (ns_server n) = [] \<and>
    manager (ns_server n) = Manager_ctor \<and> database (ns_server n) = Some (mini_db [] []) \<and>
    cn_reading (conns (ns_server n) 0) = ReadHeader \<and> cn_queue (conns (ns_server n) 0) = [] \<and>
    ns_dialing n = {0} \<and> ns_writing n = {} \<and> cl_queue (ns_users n 0) = [] \<and> ns_down n 0 = [] \<and>
    ns_up n 0 = frame"
proof -
  let ?start = "net_start (mini_db [] []) {} :: mini net"
  let ?dialed = "?start\<lparr>ns_server := scan_acception False 0 (replicate SIZE_HEADER 0) (ns_server ?start),
      ns_users := (ns_users ?start)(0 := do_connect False frame (set_login ''ann'' (Client_ctor 0 []))),
      ns_up := (ns_up ?start)(0 := frame), ns_down := (ns_down ?start)(0 := []),
      ns_dialing := insert 0 (ns_dialing ?start), ns_names := insert ''ann'' (ns_names ?start)\<rparr>"
  have "demo_step ?start ?dialed"
    by (rule net_step.dial [OF demo_typed assms]) (simp_all add: net_start_def Server_ctor_def)
  then have "demo_reach ?dialed"
    by (rule net_reach.step [OF net_reach.start])
  then show ?thesis
    by (intro exI [of _ ?dialed]) (simp add: net_start_def accepted_simps Server_ctor_def async_read_pb_header_def
        Connection_ctor_def do_connect_def send_login_request_def set_login_def Client_ctor_def)
qed

lemma demo_dials:
  "\<exists>n. demo_reach n \<and> ns_spoken n = {} \<and> pool (ns_server n) = [0] \<and> tasks (ns_server n) = [] \<and>
    manager (ns_server n) = Manager_ctor \<and> database (ns_server n) = Some (mini_db [] []) \<and>
    cn_reading (conns (ns_server n) 0) = ReadHeader \<and> cn_queue (conns (ns_server n) 0) = [] \<and>
    ns_dialing n = {0} \<and> ns_writing n = {} \<and> cl_queue (ns_users n 0) = [] \<and> ns_down n 0 = [] \<and>
    ns_up n 0 = request_bytes std_rt (AuthorisationRequest, create_input_request ''ann'' ''pw'')"
  by (rule demo_dials_with [of AuthorisationRequest]) (simp add: login_frame_def request_bytes_def)

text \<open>She asks for the room 7 and the server takes in her login and this request.\<close>

lemma demo_asks:
  "\<exists>n t. demo_reach n \<and> ns_spoken n = {} \<and> pool (ns_server n) = [0] \<and> ns_dialing n = {0} \<and> ns_writing n = {0} \<and>
    cl_queue (ns_users n 0) \<noteq> [] \<and> tl (cl_queue (ns_users n 0)) = [] \<and> ns_up n 0 = [] \<and> ns_down n 0 = [] \<and>
    tasks (ns_server n) = [t] @ [DoJoinRoom 0 (join_room_request 7)] \<and> manager (ns_server n) = Manager_ctor \<and>
    database (ns_server n) = Some (mini_db [] []) \<and> cn_reading (conns (ns_server n) 0) = ReadHeader \<and>
    cn_queue (conns (ns_server n) 0) = []"
proof -
  let ?login = "create_input_request ''ann'' ''pw''" and ?join = "join_room_request 7"
  let ?b1 = "request_bytes std_rt (AuthorisationRequest, ?login)"
  let ?b2 = "request_bytes std_rt (JoinRoomRequestCmd, ?join)"
  have asked: "asked std_rt {} {''ann''} AuthorisationRequest ?login" "asked std_rt {} {''ann''} JoinRoomRequestCmd ?join"
    using demo_typed by (auto simp: login_typed_def intro: asks_login asks_room)
  have room: "(1073741910 :: nat) \<le> 2000000000" by simp
  obtain n1 where n1: "demo_reach n1" "pool (ns_server n1) = [0]" "tasks (ns_server n1) = []"
    "manager (ns_server n1) = Manager_ctor" "database (ns_server n1) = Some (mini_db [] [])"
    "cn_reading (conns (ns_server n1) 0) = ReadHeader" "cn_queue (conns (ns_server n1) 0) = []"
    "ns_dialing n1 = {0}" "cl_queue (ns_users n1 0) = []" "ns_down n1 0 = []" "ns_up n1 0 = ?b1" "ns_writing n1 = {}"
    "ns_spoken n1 = {}"
    using demo_dials by blast
  let ?c2 = "client_change_room std_rt 7 (ns_users n1 0)"
  let ?n2 = "client_acts 0 ?c2 n1"
  have r2: "demo_reach ?n2"
    by (rule net_reach.step [OF n1(1) net_step.asks]) (simp add: n1(2))
  have c2: "cl_started ?c2 = cl_started (ns_users n1 0) @ [QueueWrite ?b2]" "cl_queue ?c2 = [?b2]"
    by (simp_all add: client_change_room_def add_msg_to_send_fields n1(9) request_bytes_def Let_def)
  from client_acts_up [OF c2(1)] have up2: "ns_up ?n2 0 = ?b1 @ ?b2"
    by (simp add: n1(11))
  have w2: "ns_writing ?n2 = {0}"
    by (simp add: client_acts_writing c2(1) n1(12))
  obtain n3 n4 where n4: "demo_step ?n2 n3" "demo_step n3 n4" "ns_dialing n4 = {0}" "ns_down n4 0 = []"
    "ns_up n4 0 = ?b2" "tasks (ns_server n4) = [DoAutorisation 0 ?login]" "manager (ns_server n4) = Manager_ctor"
    "database (ns_server n4) = Some (mini_db [] [])" "pool (ns_server n4) = [0]"
    "cn_reading (conns (ns_server n4) 0) = ReadHeader" "cn_queue (conns (ns_server n4) 0) = []"
    "ns_users n4 = ns_users ?n2" "ns_writing n4 = {0}" "ns_spoken n4 = {}"
    using net_takes [OF std.pb_runtime_axioms asked(1) room _ _ up2, where eng = mini_engine and ?fmt02.0 = std_fmt02
        and calloc = 2000000000] n1 w2
    by (auto simp: task_for_def)
  obtain n5 n6 where n6: "demo_step n4 n5" "demo_step n5 n6" "ns_dialing n6 = {0}" "ns_down n6 0 = []"
    "tasks (ns_server n6) = [DoAutorisation 0 ?login] @ [DoJoinRoom 0 ?join]" "manager (ns_server n6) = Manager_ctor"
    "database (ns_server n6) = Some (mini_db [] [])" "pool (ns_server n6) = [0]" "cn_queue (conns (ns_server n6) 0) = []"
    "ns_up n6 0 = []" "cn_reading (conns (ns_server n6) 0) = ReadHeader" "ns_users n6 = ns_users ?n2" "ns_writing n6 = {0}"
    "ns_spoken n6 = {}"
    using net_takes [OF std.pb_runtime_axioms asked(2) room, of 0 n4 "[]", where eng = mini_engine and ?fmt02.0 = std_fmt02
        and calloc = 2000000000] n4(3-14)
    by (auto simp: task_for_def)
  have "demo_reach n6"
    by (intro net_reach.step [OF _ n6(2)] net_reach.step [OF _ n6(1)] net_reach.step [OF _ n4(2)]
        net_reach.step [OF r2 n4(1)])
  with n6 c2(2) show ?thesis
    by (intro exI [of _ n6] exI [of _ "DoAutorisation 0 ?login"]) simp
qed

text \<open>The second task runs first; then her first write completes, and the announcement that she joined
  is in flight to her.\<close>

lemma demo_joins:
  "\<exists>n d ch c. demo_reach n \<and> ns_spoken n = {} \<and> pool (ns_server n) = [0] \<and> ns_dialing n = {} \<and> ns_writing n = {0} \<and>
    cl_queue (ns_users n 0) \<noteq> [] \<and> tl (cl_queue (ns_users n 0)) = [] \<and> cl_reading (ns_users n 0) = WaitHeader \<and>
    ns_up n 0 = [] \<and> ns_down n 0 = message_frame std_rt d \<and> readable std_rt d \<and> td_room_id d = 7 \<and>
    map_of (channels (manager (ns_server n))) 7 = Some ch \<and> subscribers ch = [(c, 0)] \<and>
    database (ns_server n) = Some (mini_db [] []) \<and> cn_reading (conns (ns_server n) 0) = ReadHeader \<and>
    cn_writing (conns (ns_server n) 0) \<and> cn_queue (conns (ns_server n) 0) = [message_frame std_rt d]"
proof -
  have room: "(1073741910 :: nat) \<le> 2000000000" by simp
  obtain n6 t where n6: "demo_reach n6" "pool (ns_server n6) = [0]" "ns_dialing n6 = {0}" "ns_writing n6 = {0}"
    "cl_queue (ns_users n6 0) \<noteq> []" "tl (cl_queue (ns_users n6 0)) = []" "ns_up n6 0 = []" "ns_down n6 0 = []"
    "tasks (ns_server n6) = [t] @ DoJoinRoom 0 (join_room_request 7) # []" "manager (ns_server n6) = Manager_ctor"
    "database (ns_server n6) = Some (mini_db [] [])" "cn_reading (conns (ns_server n6) 0) = ReadHeader"
    "cn_queue (conns (ns_server n6) 0) = []" "ns_spoken n6 = {}"
    using demo_asks by auto
  have past: "get_history mini_engine 7 (mini_db [] []) = Inr ([], mini_db [] [])"
    using sqlite_laws.get_history_open [OF mini.sqlite_laws_axioms, of "mini_db [] []" "([], [])" 7]
    by (auto simp: mini_db_def history_ok_def)
  let ?s6 = "(ns_server n6)\<lparr>tasks := [t]\<rparr>"
  define d where "d = joined (cn_login (conns (ns_server n6) 0)) 7"
  obtain s7 ch where s7: "do_join_room std_rt mini_engine 0 (join_room_request 7) ?s6 = Inr s7" "pool s7 = [0]"
    "cn_started (conns s7 0) = cn_started (conns (ns_server n6) 0) @ [Queued (message_frame std_rt d)]"
    "map_of (channels (manager s7)) 7 = Some ch" "subscribers ch = [(cn_client_id (conns (ns_server n6) 0), 0)]"
    "database s7 = Some (mini_db [] [])" "cn_reading (conns s7 0) = ReadHeader" "cn_writing (conns s7 0)"
    "cn_queue (conns s7 0) = [message_frame std_rt d]"
    using first_join [of ?s6 "mini_db [] []" mini_engine 7 0 std_rt] past n6(2,10-13) by (auto simp: d_def)
  let ?n7 = "server_acts s7 n6"
  have "demo_step n6 ?n7"
    using s7(1) by (intro net_step.delivered delivers.works [OF n6(9)]) simp
  with n6(1) have r7: "demo_reach ?n7" by (rule net_reach.step)
  have down7: "ns_down ?n7 0 = message_frame std_rt d"
    by (simp add: server_acts_def s7(3) n6(8))
  let ?c8 = "login_written False (ns_users ?n7 0)"
  let ?n8 = "client_acts 0 ?c8 (?n7\<lparr>ns_dialing := ns_dialing ?n7 - {0}\<rparr>)"
  have c8: "cl_started ?c8 = cl_started (ns_users ?n7 0) @ []" "cl_reading ?c8 = WaitHeader"
    "cl_queue ?c8 = cl_queue (ns_users ?n7 0)"
    by (simp_all add: login_written_def client_async_read_pb_header_def)
  have r8: "demo_reach ?n8"
    by (rule net_reach.step [OF r7 net_step.delivered [OF delivers.dialed]]) (simp add: n6(3))
  have up8: "ns_up ?n8 0 = []"
    using client_acts_up [of ?c8 "?n7\<lparr>ns_dialing := ns_dialing ?n7 - {0}\<rparr>" 0 "[]"] c8(1) n6(7) by simp
  have "net_ok std_rt fst snd (\<lambda>_. True) n6"
    using net_reach_ok [OF std.pb_runtime_axioms mini.sqlite_laws_axioms std_format.boost_format_axioms room room
        demo_starts_well n6(1)] by blast
  note ok6 = net_okD [OF this]
  have "cn_login (conns (ns_server n6) 0) \<in> ns_names n6"
    using ok6(1) honest.honestD(3) [of std_rt "ns_spoken n6" "ns_names n6" "chat_of (ns_server n6)" 0]
    by (simp add: sound_server_def)
  then have "readable std_rt d"
    by (intro ok6(4)) (auto simp: heard_def d_def)
  moreover have "td_room_id d = 7"
    by (simp add: d_def joined_def notice_def)
  ultimately show ?thesis
    using r8 up8 down7 s7 n6 c8 by (intro exI [of _ ?n8] exI [of _ d] exI [of _ ch]) (simp add: client_acts_writing)
qed

text \<open>She hears it.\<close>

lemma demo_session:
  "\<exists>n d. demo_reach n \<and> ns_spoken n = {} \<and> pool (ns_server n) = [0] \<and> td_room_id d = 7 \<and>
    shown d \<in> set (fst (client_get_history 7 (ns_users n 0)))"
proof -
  have room: "(1073741910 :: nat) \<le> 2000000000" by simp
  obtain n8 d where n8: "demo_reach n8" "pool (ns_server n8) = [0]" "cl_reading (ns_users n8 0) = WaitHeader"
    "ns_down n8 0 = message_frame std_rt d @ []" "readable std_rt d" "td_room_id d = 7" "ns_spoken n8 = {}"
    using demo_joins by auto
  obtain n9 n10 where n10: "demo_step n8 n9" "demo_step n9 n10" "ns_server n10 = ns_server n8" "ns_spoken n10 = {}"
    "shown d \<in> set (fst (client_get_history (td_room_id d) (ns_users n10 0)))"
    using net_hears [OF std.pb_runtime_axioms room n8(5) _ n8(3,4), of mini_engine std_fmt02 2000000000] n8(2,7) by auto
  have "demo_reach n10"
    by (rule net_reach.step [OF net_reach.step [OF n8(1) n10(1)] n10(2)])
  with n10(3-5) n8(2,6) show ?thesis
    by (intro exI [of _ n10] exI [of _ d]) simp
qed

section \<open>The guarantees\<close>

text \<open>C9: nothing is made up on the way: in every state that the server and its clients can reach
  together, every message that a client shows in a room is a text that some user wrote into that room
  under that login, or that the database held from the start, or the announcement that a user of that
  login joined or left the room.
  Users type text that is not empty, is UTF-8 and needs no escaping in SQL, the database file is
  intact, and tasks and frames are whole steps (see the header of \<open>Spec2Isabelle\<close>).\<close>

theorem nothing_made_up:
  assumes "pb_runtime rt" and "sqlite_laws eng logins history intact" and "boost_format fmt02"
    and "1073741910 \<le> alloc" and "1073741910 \<le> calloc" and "starts_well rt logins history intact db past"
    and "net_reach rt eng fmt02 alloc calloc db past n" and "p \<in> set (pool (ns_server n))"
    and "m \<in> set (fst (client_get_history r (ns_users n p)))"
  shows "\<exists>d. m = shown d \<and> td_room_id d = r \<and>
    (d \<in> ns_spoken n \<or> (\<exists>l \<in> ns_names n. d = joined l r \<or> d = left l r))"
proof -
  have "net_ok rt logins history intact n"
    using net_reach_ok [OF assms(1-7)] by blast
  then have "hears_all rt (ns_spoken n) (ns_names n) (p \<in> ns_dialing n) (ns_users n p)
      (cn_started (conns (ns_server n) p)) (ns_down n p)"
    using net_okD(7) assms(8) unfolding client_link_def by blast
  then obtain es where "list_all (heard (ns_spoken n) (ns_names n)) es" "shows_all (ns_users n p) es"
    by (auto elim: hears_all.cases)
  then obtain d where d: "heard (ns_spoken n) (ns_names n) d" "td_room_id d = r" "m = shown d"
    using assms(9) by (auto simp: shows_all_def list_all_iff)
  then show ?thesis
    by (fastforce simp: heard_def joined_def left_def notice_def)
qed

theorem nothing_made_up_witness:
  "\<exists>n d. demo_reach n \<and> shown d \<in> set (fst (client_get_history 7 (ns_users n 0))) \<and> td_room_id d = 7 \<and>
    (d \<in> ns_spoken n \<or> (\<exists>l \<in> ns_names n. d = joined l 7 \<or> d = left l 7))"
proof -
  obtain n d where n: "demo_reach n" "pool (ns_server n) = [0]" "shown d \<in> set (fst (client_get_history 7 (ns_users n 0)))"
    using demo_session by blast
  have room: "(1073741910 :: nat) \<le> 2000000000" by simp
  obtain d' where "shown d = shown d'" "td_room_id d' = 7"
    "d' \<in> ns_spoken n \<or> (\<exists>l \<in> ns_names n. d' = joined l 7 \<or> d' = left l 7)"
    using nothing_made_up [OF std.pb_runtime_axioms mini.sqlite_laws_axioms std_format.boost_format_axioms room room
        demo_starts_well n(1) _ n(3)] n(2) by auto
  moreover from this(1) have "d = d'"
    by (cases d; cases d') (simp add: shown_def)
  ultimately show ?thesis using n by blast
qed

text \<open>C10: and nothing fails: in every state that they can reach together, every task of the server
  runs to its end without a failure, every header that arrives is accepted, every body that arrives
  is parsed, and every read of a client is handled without an exception. What users may type is what
  makes this true: with a quote or an empty text tasks do fail (\<open>quoted_registration_double_free\<close>,
  \<open>empty_text_breaks_history\<close>).
  Users type text that is not empty, is UTF-8 and needs no escaping in SQL, the database file is
  intact, and tasks and frames are whole steps (see the header of \<open>Spec2Isabelle\<close>).\<close>

theorem genuine_traffic_never_fails:
  assumes "pb_runtime rt" and "sqlite_laws eng logins history intact" and "boost_format fmt02"
    and "1073741910 \<le> alloc" and "1073741910 \<le> calloc" and "starts_well rt logins history intact db past"
    and "net_reach rt eng fmt02 alloc calloc db past n"
  shows "(\<forall>before t after. tasks (ns_server n) = before @ t # after \<longrightarrow>
      (\<exists>s. run_task rt eng fmt02 t ((ns_server n)\<lparr>tasks := before @ after\<rparr>) = Inr s)) \<and>
    (\<forall>p \<in> set (pool (ns_server n)). \<forall>block rest.
      cn_reading (conns (ns_server n) p) = ReadHeader \<and> ns_up n p = block @ rest \<and> length block = SIZE_HEADER \<longrightarrow>
      (\<exists>s h. do_parse_pb_header rt alloc p (Some block) (ns_server n) = Inr s \<and> cn_reading (conns s p) = ReadBody h)) \<and>
    (\<forall>p \<in> set (pool (ns_server n)). \<forall>h data rest.
      cn_reading (conns (ns_server n) p) = ReadBody h \<and> ns_up n p = data @ rest \<and> length data = unat (hdr_length h) \<longrightarrow>
      fst (parse_request rt data)) \<and>
    (\<forall>p \<in> set (pool (ns_server n)). \<forall>data rest.
      cl_reading (ns_users n p) \<noteq> Idle \<and> ns_down n p = data @ rest \<and> length data = client_wants (ns_users n p) \<longrightarrow>
      (\<exists>c. read_completes rt calloc (Some data) (ns_users n p) = Inr c))"
proof -
  have ok: "net_ok rt logins history intact n" and buffers: "all_buffers_ok alloc (ns_server n)"
    using net_reach_ok [OF assms(1-7)] by blast+
  have "\<exists>s. run_task rt eng fmt02 t ((ns_server n)\<lparr>tasks := before @ after\<rparr>) = Inr s"
    if "tasks (ns_server n) = before @ t # after" for before t after
    using net_ok_works [OF assms(2,3) ok that] by blast
  moreover have "\<exists>s h. do_parse_pb_header rt alloc p (Some block) (ns_server n) = Inr s \<and> cn_reading (conns s p) = ReadBody h"
    if "p \<in> set (pool (ns_server n))"
      "cn_reading (conns (ns_server n) p) = ReadHeader \<and> ns_up n p = block @ rest \<and> length block = SIZE_HEADER"
    for p block rest
    using net_ok_header [OF assms(1,4) ok that(1)] that(2) by blast
  moreover have "fst (parse_request rt data)"
    if "p \<in> set (pool (ns_server n))"
      "cn_reading (conns (ns_server n) p) = ReadBody h \<and> ns_up n p = data @ rest \<and> length data = unat (hdr_length h)"
    for p h data rest
    using net_ok_body [OF assms(1) ok buffers that(1)] that(2) by blast
  moreover have "\<exists>c. read_completes rt calloc (Some data) (ns_users n p) = Inr c"
    if "p \<in> set (pool (ns_server n))"
      "cl_reading (ns_users n p) \<noteq> Idle \<and> ns_down n p = data @ rest \<and> length data = client_wants (ns_users n p)"
    for p data rest
    using net_ok_hears [OF assms(1,5) ok that(1)] that(2) by blast
  ultimately show ?thesis by blast
qed

theorem genuine_traffic_never_fails_witness:
  "\<exists>n s h. demo_reach n \<and>
    do_parse_pb_header std_rt 2000000000 0 (Some (take SIZE_HEADER (ns_up n 0))) (ns_server n) = Inr s \<and>
    cn_reading (conns s 0) = ReadBody h"
proof -
  let ?frame = "request_bytes std_rt (AuthorisationRequest, create_input_request ''ann'' ''pw'')"
  obtain n where n: "demo_reach n" "pool (ns_server n) = [0]" "cn_reading (conns (ns_server n) 0) = ReadHeader"
    "ns_up n 0 = ?frame"
    using demo_dials by blast
  have room: "(1073741910 :: nat) \<le> 2000000000" by simp
  have "asked std_rt {} {''ann''} AuthorisationRequest (create_input_request ''ann'' ''pw'')"
    using demo_typed by (auto simp: login_typed_def intro: asks_login)
  then have "length (take SIZE_HEADER ?frame) = SIZE_HEADER"
    using request_bytes_read(2) [OF std.pb_runtime_axioms] by simp
  moreover have "?frame = take SIZE_HEADER ?frame @ drop SIZE_HEADER ?frame" by simp
  ultimately have "\<exists>s h. do_parse_pb_header std_rt 2000000000 0 (Some (take SIZE_HEADER ?frame)) (ns_server n) = Inr s \<and>
      cn_reading (conns s 0) = ReadBody h"
    using genuine_traffic_never_fails [OF std.pb_runtime_axioms mini.sqlite_laws_axioms std_format.boost_format_axioms
        room room demo_starts_well n(1)] n(2-4) by (metis list.set_intros(1))
  with n show ?thesis by auto
qed

end
