(* ===== verification/Accounts.thy ===== *)
theory Accounts
  imports ClosedSystem
begin

text \<open>
  The accounts over the whole life of a server that starts with none: in every state of the closed
  system the identifiers that registrations gave out are 1, 2, 3, ... in the order of the accounts,
  and no login has two accounts, as long as the counter has not overflowed.
\<close>

section \<open>Numbered accounts\<close>

definition numbered :: "entry list \<Rightarrow> int32 \<Rightarrow> bool" where
  "numbered es i \<longleftrightarrow> i = of_nat (length es) \<and>
     map (\<lambda>e. fst (snd e)) es = map (\<lambda>k. of_nat (Suc k)) [0..<length es] \<and>
     list_all (\<lambda>(l, i, p). plain l \<and> plain p \<and> p \<noteq> []) es \<and>
     (length es < 2 ^ 32 \<longrightarrow> distinct (map fst es))"

lemma numbered_empty: "numbered [] 0"
  by (simp add: numbered_def)

lemma numbered_ok: "numbered es i \<Longrightarrow> length es < 2 ^ 32 \<Longrightarrow> accounts_ok es"
  by (simp add: numbered_def accounts_ok_def)

lemma numbered_snoc:
  assumes "numbered es i" and "plain l" and "plain pw" and "pw \<noteq> []"
    and "Suc (length es) < 2 ^ 32 \<Longrightarrow> account es l = None"
  shows "numbered (es @ [(l, i + 1, pw)]) (i + 1)"
  using assms by (auto simp: numbered_def account_def map_of_eq_None_iff)

lemma numbered_distinct_ids:
  assumes "numbered es i" and "length es < 2 ^ 32"
  shows "distinct (map (\<lambda>e. fst (snd e)) es)"
proof -
  have "inj_on (\<lambda>k. of_nat (Suc k) :: int32) {0..<length es}"
    using assms(2) by (intro inj_onI) (simp add: of_nat_word32_inj del: of_nat_Suc)
  then show ?thesis
    using assms(1) by (simp add: numbered_def distinct_map del: of_nat_Suc)
qed

text \<open>The identifier -1, by which \<open>get_loginid\<close> says that there is no account, is that of the account
  before the wrap.\<close>

lemma numbered_account:
  assumes "numbered es i" and "account es l = Some (j, p)" and "Suc (length es) < 2 ^ 32"
  shows "j \<noteq> -1"
proof
  assume "j = -1"
  then have "(-1 :: int32) \<in> set (map (\<lambda>e. fst (snd e)) es)"
    using assms(2) by (force simp: account_def dest: map_of_SomeD)
  moreover have "map (\<lambda>e. fst (snd e)) es = map (\<lambda>k. of_nat (Suc k)) [0..<length es]"
    using assms(1) by (simp add: numbered_def)
  ultimately have "(-1 :: int32) \<in> set (map (\<lambda>k. of_nat (Suc k)) [0..<length es])"
    by metis
  then obtain k where k: "k < length es" "(-1 :: int32) = of_nat (Suc k)"
    by (auto simp del: of_nat_Suc)
  have "(of_nat (Suc (Suc k)) :: int32) = of_nat (Suc k) + 1"
    by (simp add: add.commute)
  then have "(of_nat (Suc (Suc k)) :: int32) = of_nat 0"
    by (simp only: k(2) [symmetric]) simp
  then show False
    using of_nat_word32_inj [of "Suc (Suc k)" 0] k(1) assms(3) by simp
qed

section \<open>The tasks\<close>

definition keeps_accounts :: "('h \<Rightarrow> entry list) \<Rightarrow> ('h \<Rightarrow> bool) \<Rightarrow> 'h server \<Rightarrow> bool" where
  "keeps_accounts logins intact s \<longleftrightarrow>
     (\<exists>db h. database s = Some db \<and> db_ptr db = Some h \<and> intact h \<and> numbered (logins h) (next_id s))"

lemma keeps_accounts_same:
  "keeps_accounts logins intact s \<Longrightarrow> database s' = database s \<Longrightarrow> next_id s' = next_id s \<Longrightarrow> keeps_accounts logins intact s'"
  by (simp add: keeps_accounts_def)

lemma keeps_registration:
  assumes "sqlite_laws eng logins history intact" and "keeps_accounts logins intact s" and "plain l" and "plain pw" and "pw \<noteq> []"
    and "register_login eng l pw s = Inr (i, s')"
  shows "keeps_accounts logins intact s'"
proof -
  obtain db h where db: "database s = Some db" "db_ptr db = Some h" "intact h" "numbered (logins h) (next_id s)"
    using assms(2) by (auto simp: keeps_accounts_def)
  show ?thesis
  proof (cases "get_loginid eng l db = -1")
    case True
    obtain h' where h': "add_logins eng l (next_id s + 1) pw db = Inr (db\<lparr>db_ptr := Some h'\<rparr>)"
      "logins h' = logins h @ [(l, next_id s + 1, pw)]" "intact h'"
      using sqlite_laws.add_logins_open [OF assms(1) db(2,3) assms(3,4)] by blast
    have "account (logins h) l = None" if "Suc (length (logins h)) < 2 ^ 32"
    proof -
      have ok: "accounts_ok (logins h)"
        using numbered_ok [OF db(4)] that by simp
      show ?thesis
        using sqlite_laws.get_loginid_open [OF assms(1) db(2,3) assms(3) ok] True numbered_account [OF db(4) _ that]
        by (auto split: option.splits)
    qed
    then show ?thesis
      using numbered_snoc [OF db(4) assms(3-5)] h' True db(1) assms(6)
      by (auto simp: keeps_accounts_def register_login_def generate_client_id_def Let_def)
  next
    case False
    then show ?thesis
      using assms(2,6) db(1) by (auto simp: register_login_def)
  qed
qed

lemma keeps_task:
  assumes "sqlite_laws eng logins history intact" and "boost_format fmt02"
    and "sound_server rt logins history intact S N s" and "sound_task rt S N t"
    and "keeps_accounts logins intact s" and "run_task rt eng fmt02 t s = Inr s'"
  shows "keeps_accounts logins intact s'"
proof (cases t)
  case (DoAutorisation p q)
  with assms(6) have "database s' = database s \<and> next_id s' = next_id s"
    by (auto simp: do_autorisation_def free_connection_def post_def Let_def split_beta split: if_splits option.splits)
  then show ?thesis using keeps_accounts_same [OF assms(5)] by blast
next
  case (DoRegistration p q)
  with assms(4) obtain l pw where l: "q = create_reg_request l pw" "plain l" "plain pw" "pw \<noteq> []"
    by (auto elim: asked_regE)
  then obtain i s2 where "register_login eng l pw (on_conn p (\<lambda>c. c\<lparr>cn_login := l, cn_password := pw\<rparr>) s) = Inr (i, s2)"
    and s': "s' = post (SendRegResponse p i) (on_conn p (\<lambda>c. c\<lparr>cn_client_id := i\<rparr>) s2)"
    using assms(6) DoRegistration by (auto simp: do_registration_def Let_def)
  moreover have "keeps_accounts logins intact (on_conn p (\<lambda>c. c\<lparr>cn_login := l, cn_password := pw\<rparr>) s)"
    by (rule keeps_accounts_same [OF assms(5)]) simp_all
  ultimately have "keeps_accounts logins intact s2"
    using keeps_registration [OF assms(1) _ l(2-4)] by blast
  then show ?thesis
    unfolding s' by (rule keeps_accounts_same) (simp_all add: post_def)
next
  case (DoJoinRoom p q)
  with assms(4) obtain r where r: "q = join_room_request r"
    by (auto elim: asked_joinE)
  obtain db where db: "database s = Some db" "sound_db logins history intact S (Some db)"
    using assms(3) by (auto simp: sound_server_def sound_db_def)
  obtain past where "get_history eng r db = Inr (past, db)"
    using sound_history [OF assms(1) db(2), where N = N] by blast
  then have "database s' = database s \<and> next_id s' = next_id s"
    using assms(6) DoJoinRoom db(1) r
    by (auto simp: do_join_room_def join_channel_def Manager_join_def Channel_ctor_def post_def Let_def split_beta
        split: option.splits if_splits)
  then show ?thesis using keeps_accounts_same [OF assms(5)] by blast
next
  case (DoTextMsg p q)
  with assms(4) obtain l r t where q: "q = create_text_request l r t" "plain l" "plain t"
    by (auto elim: asked_textE)
  obtain db h where db: "database s = Some db" "db_ptr db = Some h" "intact h" "numbered (logins h) (next_id s)"
    using assms(5) by (auto simp: keeps_accounts_def)
  obtain h' where "database s' = Some (db\<lparr>db_ptr := Some h'\<rparr>)" "logins h' = logins h" "intact h'"
    using do_text_msg_delivers [OF assms(1,2) _ q(2,3) db(3), of s db rt p r] db(1,2) assms(6) DoTextMsg q(1) by auto
  moreover have "next_id s' = next_id s"
    using assms(6) DoTextMsg
    by (auto simp: do_text_msg_def deliver_and_save_def Let_def split_beta split: if_splits option.splits)
  ultimately show ?thesis
    using db(4) by (auto simp: keeps_accounts_def)
qed (use assms(5,6) in \<open>auto intro: keeps_accounts_same\<close>)

section \<open>Every reachable state\<close>

lemma keeps_delivers:
  assumes "sqlite_laws eng logins history intact" and "boost_format fmt02" and "net_ok rt logins history intact n"
    and "keeps_accounts logins intact (ns_server n)" and "delivers rt eng fmt02 alloc calloc n n'"
  shows "keeps_accounts logins intact (ns_server n')"
  using assms(5)
proof cases
  case (header_comes p block rest s)
  then have "next_id s = next_id (ns_server n) \<and> database s = database (ns_server n)"
    by (auto simp: do_parse_pb_header_def Let_def split_beta free_connection_def split: if_splits)
  then show ?thesis
    using keeps_accounts_same [OF assms(4)] by (simp add: header_comes(1))
next
  case (body_comes p h data rest)
  have "next_id (body_handler rt h p data s) = next_id s" for s :: "'a server"
    by (auto simp: body_handler_def process_msg_def Let_def split_beta split: TypeCommand.split)
  then show ?thesis
    by (intro keeps_accounts_same [OF assms(4)]) (simp_all add: body_comes(1) body_handler_untouched)
next
  case (works before t after s)
  let ?s1 = "(ns_server n)\<lparr>tasks := before @ after\<rparr>"
  note sound = net_okD(1) [OF assms(3)]
  have "server_ok (ns_server n)"
    using sound by (simp add: sound_server_def)
  then have "server_ok ?s1"
    by (rule server_ok_same) (auto simp: works(2))
  then have "sound_server rt logins history intact (ns_spoken n) (ns_names n) ?s1"
    by (rule sound_server_same [OF sound]) (auto simp: works(2))
  moreover have "sound_task rt (ns_spoken n) (ns_names n) t"
    using sound works(2) by (auto simp: sound_server_def)
  moreover have "keeps_accounts logins intact ?s1"
    by (rule keeps_accounts_same [OF assms(4)]) simp_all
  ultimately show ?thesis
    using keeps_task [OF assms(1,2) _ _ _ works(3)] by (simp add: works(1))
qed (intro keeps_accounts_same [OF assms(4)]; simp add: queue_write_handler_def)+

lemma keeps_breaks:
  assumes "keeps_accounts logins intact (ns_server n)" and "breaks rt alloc calloc n n'"
  shows "keeps_accounts logins intact (ns_server n')"
proof -
  note same = keeps_accounts_same [OF assms(1)]
  have free: "next_id (free_connection rt p s) = next_id s" "database (free_connection rt p s) = database s" for p and s :: "'a server"
    by (simp_all add: free_connection_def split_beta Let_def)
  from assms(2) show ?thesis
  proof cases
    case (header_lost p s)
    then show ?thesis by (intro same) (auto simp: do_parse_pb_header_def free)
  next
    case (not_sent p)
    then show ?thesis by (intro same) (simp_all add: queue_write_handler_def free)
  next
    case (sent_directly p f ok)
    then show ?thesis by (intro same) (simp_all add: direct_write_handler_def free)
  qed (intro same; simp)+
qed

lemma keeps_step:
  assumes "sqlite_laws eng logins history intact" and "boost_format fmt02" and "net_ok rt logins history intact n"
    and "keeps_accounts logins intact (ns_server n)" and "net_step rt eng fmt02 alloc calloc n n'"
  shows "keeps_accounts logins intact (ns_server n')"
  using assms(5)
proof cases
  case delivered
  then show ?thesis by (rule keeps_delivers [OF assms(1-4)])
next
  case broken
  then show ?thesis by (rule keeps_breaks [OF assms(4)])
next
  case dial
  then show ?thesis
    by (intro keeps_accounts_same [OF assms(4)]) (simp_all add: scan_acception_def get_connection_def Let_def)
qed (intro keeps_accounts_same [OF assms(4)]; simp)+

lemma net_keeps_accounts:
  assumes "pb_runtime rt" and "sqlite_laws eng logins history intact" and "boost_format fmt02"
    and "1073741910 \<le> alloc" and "1073741910 \<le> calloc" and "starts_well rt logins history intact db past"
    and "db_ptr db = Some h0" and "logins h0 = []" and "net_reach rt eng fmt02 alloc calloc db past n"
  shows "keeps_accounts logins intact (ns_server n)"
  using assms(9)
proof induction
  case start
  then show ?case
    using assms(6-8) numbered_empty
    by (auto simp: keeps_accounts_def net_start_def Server_ctor_def starts_well_def sound_db_def)
next
  case (step n n')
  then show ?case
    using keeps_step [OF assms(2,3) _ step.IH step.hyps(2)] net_reach_ok [OF assms(1-6) step.hyps(1)] by blast
qed

text \<open>C11: the accounts of a server that started with none, at the grain of whole tasks: in every
  state that it reaches with its clients they are numbered from 1 in the order of their registration,
  the counter is the number of the last, and no two have the same login or the same identifier, as
  long as the \<open>int\<close> of the counter has not overflowed, that is, with fewer than \<open>2 ^ 31\<close> accounts. The
  database file is intact, and the users type text that is not empty and needs no escaping in SQL.\<close>

theorem accounts_numbered:
  assumes "pb_runtime rt" and "sqlite_laws eng logins history intact" and "boost_format fmt02"
    and "1073741910 \<le> alloc" and "1073741910 \<le> calloc" and "starts_well rt logins history intact db past"
    and "db_ptr db = Some h0" and "logins h0 = []"
    and "net_reach rt eng fmt02 alloc calloc db past n"
  shows "\<exists>db' h. database (ns_server n) = Some db' \<and> db_ptr db' = Some h \<and>
    (length (logins h) < 2 ^ 31 \<longrightarrow>
      map (\<lambda>e. fst (snd e)) (logins h) = map (\<lambda>k. of_nat (Suc k)) [0..<length (logins h)] \<and>
      next_id (ns_server n) = of_nat (length (logins h)) \<and>
      distinct (map fst (logins h)) \<and> distinct (map (\<lambda>e. fst (snd e)) (logins h)))"
proof -
  have "keeps_accounts logins intact (ns_server n)"
    by (rule net_keeps_accounts [OF assms])
  then obtain db' h where "database (ns_server n) = Some db'" "db_ptr db' = Some h"
    "intact h" "numbered (logins h) (next_id (ns_server n))"
    by (auto simp: keeps_accounts_def)
  then show ?thesis
    using numbered_distinct_ids [of "logins h" "next_id (ns_server n)"]
    by (intro exI [of _ db'] exI [of _ h]) (simp add: numbered_def)
qed

text \<open>A first registration.\<close>

lemma demo_registers:
  "\<exists>n db h. demo_reach n \<and> database (ns_server n) = Some db \<and> db_ptr db = Some h \<and> fst h = [(''ann'', 1, ''pw'')]"
proof -
  let ?q = "create_reg_request ''ann'' ''pw''"
  have room: "(1073741910 :: nat) \<le> 2000000000" by simp
  have asked: "asked std_rt {} {''ann''} RegistrationRequest ?q"
    using demo_typed by (auto simp: login_typed_def intro: asks_registration)
  obtain n where n: "demo_reach n" "pool (ns_server n) = [0]" "tasks (ns_server n) = []"
    "database (ns_server n) = Some (mini_db [] [])" "cn_reading (conns (ns_server n) 0) = ReadHeader"
    "ns_up n 0 = request_bytes std_rt (RegistrationRequest, ?q) @ []"
    using demo_dials_with [of RegistrationRequest "request_bytes std_rt (RegistrationRequest, ?q)"]
    by (auto simp: login_frame_def request_bytes_def)
  obtain n1 n2 where n2: "demo_step n n1" "demo_step n1 n2" "tasks (ns_server n2) = [] @ DoRegistration 0 ?q # []"
    "database (ns_server n2) = Some (mini_db [] [])"
    using net_takes [OF std.pb_runtime_axioms asked room _ n(5,6), where eng = mini_engine and ?fmt02.0 = std_fmt02
        and calloc = 2000000000] n(2-4) by (auto simp: task_for_def)
  have r2: "demo_reach n2"
    by (rule net_reach.step [OF net_reach.step [OF n(1) n2(1)] n2(2)])
  let ?s = "(ns_server n2)\<lparr>tasks := []\<rparr>"
  have "next_id ?s = 0"
    using net_keeps_accounts [OF std.pb_runtime_axioms mini.sqlite_laws_axioms std_format.boost_format_axioms
        room room demo_starts_well _ _ r2, of "([], [])"] n2(4) by (auto simp: mini_db_def keeps_accounts_def numbered_def)
  then obtain s' h' db' where s': "do_registration std_rt mini_engine 0 ?q ?s = Inr s'" "database s' = Some db'"
    "db_ptr db' = Some h'" "fst h' = [(''ann'', 1, ''pw'')]"
    using register_login_new [OF mini.sqlite_laws_axioms,
        of "on_conn 0 (\<lambda>c. c\<lparr>cn_login := ''ann'', cn_password := ''pw''\<rparr>) ?s" "mini_db [] []" "([], [])" "''ann''" "''pw''"]
      n2(4) by (auto simp: do_registration_def Let_def mini_db_def accounts_ok_def account_def)
  have "demo_step n2 (server_acts s' n2)"
    using s'(1) by (intro net_step.delivered delivers.works [OF n2(3)]) simp
  then have "demo_reach (server_acts s' n2)"
    by (rule net_reach.step [OF r2])
  with s'(2-4) show ?thesis
    by (intro exI [of _ "server_acts s' n2"] exI [of _ db'] exI [of _ h']) simp
qed

theorem accounts_numbered_witness:
  "\<exists>n db h. demo_reach n \<and> database (ns_server n) = Some db \<and> db_ptr db = Some h \<and>
    fst h = [(''ann'', 1, ''pw'')] \<and> next_id (ns_server n) = 1"
proof -
  obtain n db h where n: "demo_reach n" "database (ns_server n) = Some db" "db_ptr db = Some h" "fst h = [(''ann'', 1, ''pw'')]"
    using demo_registers by blast
  have room: "(1073741910 :: nat) \<le> 2000000000" by simp
  have "next_id (ns_server n) = of_nat (length (fst h))"
    using accounts_numbered [OF std.pb_runtime_axioms mini.sqlite_laws_axioms std_format.boost_format_axioms
        room room demo_starts_well _ _ n(1), of "([], [])"] n(2-4) by (auto simp: mini_db_def)
  then have "next_id (ns_server n) = 1"
    by (simp add: n(4))
  with n show ?thesis by blast
qed

end
