(* ===== verification/Settling.thy ===== *)
theory Settling
  imports ClosedSystem
begin

text \<open>
  The closed system comes to rest: once the users stop acting and nothing fails, every request that
  is in flight is taken in, every task is run, every frame is written and heard, after finitely many
  steps and whatever their order, and nothing is left over but what waits at a closed end.
\<close>

section \<open>Rest\<close>

text \<open>No write in flight, no task posted, no bytes that somebody waits for.\<close>

definition at_rest :: "'h net \<Rightarrow> bool" where
  "at_rest n \<longleftrightarrow> ns_dialing n = {} \<and> ns_writing n = {} \<and> tasks (ns_server n) = [] \<and>
     (\<forall>p \<in> set (pool (ns_server n)).
        \<not> cn_writing (conns (ns_server n) p) \<and>
        (cn_reading (conns (ns_server n) p) = ReadHeader \<longrightarrow> ns_up n p = []) \<and>
        (\<forall>h. cn_reading (conns (ns_server n) p) \<noteq> ReadBody h) \<and>
        (cl_reading (ns_users n p) = Idle \<or> cl_reading (ns_users n p) = WaitHeader \<and> ns_down n p = []))"

section \<open>A measure\<close>

text \<open>What is left to be done at each stage of a request's way; a step of one stage can add to the
  later ones only.\<close>

definition is_body :: "reading \<Rightarrow> bool" where
  "is_body rd \<longleftrightarrow> (case rd of ReadBody h \<Rightarrow> True | _ \<Rightarrow> False)"

lemma is_body_simps [simp]: "is_body (ReadBody h)" "\<not> is_body ReadHeader"
  by (simp_all add: is_body_def)

definition reads_left :: "bool \<Rightarrow> bytes \<Rightarrow> nat" where
  "reads_left body stream = 2 * length stream + of_bool body"

definition on_pool :: "(nat \<Rightarrow> nat) \<Rightarrow> 'h net \<Rightarrow> nat" where
  "on_pool f n = sum_list (map f (pool (ns_server n)))"

fun task_turns :: "task \<Rightarrow> nat" where
  "task_turns (DoAutorisation p r) = 2"
| "task_turns (DoRegistration p r) = 2"
| "task_turns (DoJoinRoom p r) = 2"
| "task_turns t = 1"

text \<open>The stages: first writes, queued requests, requests in flight, tasks, queued frames, frames in
  flight.\<close>

definition requests_queued :: "'h net \<Rightarrow> nat" where
  "requests_queued n = on_pool (\<lambda>p. length (cl_queue (ns_users n p))) n"

definition requests_coming :: "'h net \<Rightarrow> nat" where
  "requests_coming n =
     on_pool (\<lambda>p. reads_left (is_body (cn_reading (conns (ns_server n) p))) (ns_up n p)) n"

definition turns_left :: "'h net \<Rightarrow> nat" where
  "turns_left n = sum_list (map task_turns (tasks (ns_server n)))"

definition frames_queued :: "'h net \<Rightarrow> nat" where
  "frames_queued n = on_pool (\<lambda>p. length (cn_queue (conns (ns_server n) p))) n"

definition frames_coming :: "'h net \<Rightarrow> nat" where
  "frames_coming n = on_pool (\<lambda>p. reads_left (cl_reading (ns_users n p) \<notin> {Idle, WaitHeader}) (ns_down n p)) n"

definition work_left :: "('h net \<Rightarrow> nat) list" where
  "work_left = [\<lambda>n. card (ns_dialing n), requests_queued, requests_coming, turns_left, frames_queued, frames_coming]"

lemma on_pool_less:
  assumes "p \<in> set (pool (ns_server n))" and "pool (ns_server n') = pool (ns_server n)"
    and "f p < g p" and "\<And>q. q \<noteq> p \<Longrightarrow> f q = g q"
  shows "on_pool f n' < on_pool g n"
proof -
  have le: "sum_list (map f xs) \<le> sum_list (map g xs)" for xs
    using assms(3,4) by (intro sum_list_mono) (metis less_imp_le order_refl)
  obtain xs ys where "pool (ns_server n) = xs @ p # ys"
    using assms(1) by (auto dest: split_list)
  then show ?thesis
    using le [of xs] le [of ys] assms(2,3) by (simp add: on_pool_def)
qed

lemma on_pool_same:
  "pool (ns_server n') = pool (ns_server n) \<Longrightarrow> (\<And>q. f q = g q) \<Longrightarrow> on_pool f n' = on_pool g n"
  by (simp add: on_pool_def cong: map_cong)

lemma stages_same:
  assumes "pool (ns_server n') = pool (ns_server n)"
  shows "(\<And>q. cl_queue (ns_users n' q) = cl_queue (ns_users n q)) \<Longrightarrow> requests_queued n' = requests_queued n"
    and "(\<And>q. cn_reading (conns (ns_server n') q) = cn_reading (conns (ns_server n) q)) \<Longrightarrow> ns_up n' = ns_up n \<Longrightarrow>
      requests_coming n' = requests_coming n"
    and "tasks (ns_server n') = tasks (ns_server n) \<Longrightarrow> turns_left n' = turns_left n"
    and "(\<And>q. cn_queue (conns (ns_server n') q) = cn_queue (conns (ns_server n) q)) \<Longrightarrow> frames_queued n' = frames_queued n"
  using assms on_pool_same [OF assms]
  by (simp_all add: requests_queued_def requests_coming_def turns_left_def frames_queued_def)

text \<open>A task posts no more than one answer, and a task that is one posts nothing.\<close>

lemma free_connection_tasks [simp]: "tasks (free_connection rt p s) = tasks s"
  by (simp add: free_connection_def split_beta Let_def)

lemma register_login_tasks: "register_login eng l pw s = Inr (i, s') \<Longrightarrow> tasks s' = tasks s"
  by (auto simp: register_login_def generate_client_id_def Let_def
      split: option.splits if_splits sum.splits)

lemma run_task_posts:
  assumes "run_task rt eng fmt02 t s = Inr s'"
  shows "\<exists>new. tasks s' = tasks s @ new \<and> sum_list (map task_turns new) < task_turns t"
proof (cases t)
  case (DoAutorisation p r)
  then show ?thesis
    using assms by (auto simp: do_autorisation_def post_def Let_def split: if_splits option.splits sum.splits)
next
  case (DoRegistration p r)
  then show ?thesis
    using assms register_login_tasks
    by (fastforce simp: do_registration_def post_def Let_def split: if_splits sum.splits)
next
  case (DoJoinRoom p r)
  then show ?thesis
    using assms by (auto simp: do_join_room_def join_channel_def post_def Let_def split: if_splits sum.splits)
next
  case (DoTextMsg p r)
  then show ?thesis
    using assms by (auto simp: do_text_msg_def deliver_and_save_def Let_def split_beta split: if_splits option.splits)
qed (use assms in auto)

section \<open>Every delivery is progress\<close>

lemma hears_less:
  assumes "same_session (ns_users n p) c"
    and "cl_reading (ns_users n p) \<noteq> WaitHeader \<Longrightarrow> cl_reading c \<in> {Idle, WaitHeader}"
    and "p \<in> set (pool (ns_server n))" and "cl_reading (ns_users n p) \<noteq> Idle"
    and "ns_down n p = block @ rest" and "length block = client_wants (ns_users n p)"
  shows "(take_down p rest (client_acts p c n), n) \<in> measures work_left"
proof -
  let ?n = "take_down p rest (client_acts p c n)"
  have "reads_left (cl_reading c \<notin> {Idle, WaitHeader}) rest <
      reads_left (cl_reading (ns_users n p) \<notin> {Idle, WaitHeader}) (ns_down n p)"
    using assms(2,4-6) by (cases "cl_reading (ns_users n p) = WaitHeader")
      (auto simp: reads_left_def client_wants_def SIZE_HEADER_eq)
  then have "frames_coming ?n < frames_coming n"
    unfolding frames_coming_def using assms(3) by (intro on_pool_less [of p]) simp_all
  moreover have "ns_up ?n = ns_up n"
  proof
    show "ns_up ?n q = ns_up n q" for q
      using client_acts_up [of c n p "[]"] assms(1) by (cases "q = p") (simp_all add: same_session_def)
  qed
  ultimately show ?thesis
    using stages_same [of ?n n] assms(1) by (simp add: work_left_def same_session_def)
qed

lemma requests_less:
  assumes "pool s = pool (ns_server n)" and "p \<in> set (pool (ns_server n))"
    and "\<And>q. q \<noteq> p \<Longrightarrow> cn_reading (conns s q) = cn_reading (conns (ns_server n) q)"
    and "reads_left (is_body (cn_reading (conns s p))) rest <
      reads_left (is_body (cn_reading (conns (ns_server n) p))) (ns_up n p)"
  shows "(take_up p rest (server_acts s n), n) \<in> measures work_left"
proof -
  let ?n = "take_up p rest (server_acts s n)"
  have "requests_coming ?n < requests_coming n"
    unfolding requests_coming_def using assms by (intro on_pool_less [of p]) auto
  then show ?thesis
    using stages_same(1) [of ?n n] assms(1) by (simp add: work_left_def)
qed

lemma works_less:
  assumes "pool s = pool (ns_server n)" and "\<And>q. goes_on rt (conns (ns_server n) q) (conns s q)"
    and "tasks (ns_server n) = before @ t # after"
    and "run_task rt eng fmt02 t ((ns_server n)\<lparr>tasks := before @ after\<rparr>) = Inr s"
  shows "(server_acts s n, n) \<in> measures work_left"
proof -
  obtain new where "tasks s = (before @ after) @ new" "sum_list (map task_turns new) < task_turns t"
    using run_task_posts [OF assms(4)] by auto
  then have "turns_left (server_acts s n) < turns_left n"
    by (simp add: turns_left_def assms(3))
  then show ?thesis
    using stages_same(1,2) [of "server_acts s n" n] assms(1,2) by (simp add: work_left_def goes_on_def)
qed

lemma sent_less:
  assumes "server_ok (ns_server n)" and "p \<in> set (pool (ns_server n))" and "cn_writing (conns (ns_server n) p)"
  shows "(server_acts (queue_write_handler rt p True (ns_server n)) n, n) \<in> measures work_left"
proof -
  let ?n = "server_acts (queue_write_handler rt p True (ns_server n)) n"
  have fields: "cn_queue (queue_written c) = tl (cn_queue c)" "cn_reading (queue_written c) = cn_reading c" for c
    by (simp_all add: queue_written_def sending_msgs_to_client_def Let_def)
  have "cn_queue (conns (ns_server n) p) \<noteq> []"
    using server_okD(2) [OF assms(1), of p] assms(3) by (simp add: conn_ok_def)
  then have "frames_queued ?n < frames_queued n"
    unfolding frames_queued_def using assms(2)
    by (intro on_pool_less [of p]) (simp_all add: queue_write_handler_def fields)
  then show ?thesis
    using stages_same(1-3) [of ?n n] by (simp add: work_left_def queue_write_handler_def fields)
qed

lemma delivers_less:
  assumes "pb_runtime rt" and "sqlite_laws eng logins history intact" and "boost_format fmt02"
    and "1073741910 \<le> alloc" and "1073741910 \<le> calloc"
    and "net_ok rt logins history intact n" and "delivers rt eng fmt02 alloc calloc n n'"
  shows "(n', n) \<in> measures work_left"
  using assms(7)
proof cases
  case (dialed p)
  have "finite (ns_dialing n)"
    using net_okD(5) [OF assms(6)] by (rule finite_subset) simp
  then have "card (ns_dialing n - {p}) < card (ns_dialing n)"
    using dialed(2) by (rule card_Diff1_less)
  then show ?thesis by (simp add: dialed(1) work_left_def)
next
  case (wrote p)
  note p = net_okD(8) [OF assms(6) wrote(2)]
  have "cl_queue (msg_write_handler False c) = tl (cl_queue c)" for c
    by (simp add: msg_write_handler_def msg_written_def start_send_msgs_def Let_def)
  then have "requests_queued n' < requests_queued n"
    unfolding requests_queued_def using p by (intro on_pool_less [of p]) (simp_all add: wrote(1))
  then show ?thesis by (simp add: wrote(1) work_left_def)
next
  case (hears p block rest c)
  then show ?thesis
    using net_ok_hears [OF assms(1,5,6) hears(2-5)] by (auto intro!: hears_less)
next
  case (header_comes p block rest s)
  have "reads_left True rest < reads_left False (ns_up n p)"
    using header_comes(4,5) by (simp add: reads_left_def SIZE_HEADER_eq)
  then show ?thesis
    using net_ok_header [OF assms(1,4,6) header_comes(2-5)] header_comes(2,3,6)
    unfolding header_comes(1) by (intro requests_less) auto
next
  case (body_comes p h data rest)
  then show ?thesis
    unfolding body_comes(1) by (intro requests_less) (simp_all add: body_handler_reading reads_left_def)
next
  case (works before t after s)
  then show ?thesis
    using net_ok_works [OF assms(2,3,6) works(2)] by (auto intro: works_less)
next
  case (sent p)
  then show ?thesis
    using net_okD(1) [OF assms(6)] unfolding sent(1) by (intro sent_less) (simp_all add: sound_server_def)
qed

section \<open>Only at rest is there nothing left to deliver\<close>

lemma stream_block:
  assumes "frames_of P stream" and "stream \<noteq> []" and "\<And>f. P f \<Longrightarrow> k \<le> length f"
  shows "\<exists>block rest. stream = block @ rest \<and> length block = k"
proof -
  obtain fs where fs: "list_all P fs" "stream = concat fs"
    using assms(1) by (auto simp: frames_of_def)
  then have "k \<le> length stream"
    using assms(2,3) by (cases fs) (auto simp: trans_le_add1)
  then show ?thesis
    by (intro exI [of _ "take k stream"] exI [of _ "drop k stream"]) simp
qed

lemma server_can_read:
  assumes "pb_runtime rt" and "1073741910 \<le> alloc" and "net_ok rt logins history intact n"
    and "p \<in> set (pool (ns_server n))"
    and "cn_reading (conns (ns_server n) p) = ReadHeader \<and> ns_up n p \<noteq> [] \<or> is_body (cn_reading (conns (ns_server n) p))"
  shows "\<exists>n'. delivers rt eng fmt02 alloc calloc n n'"
  using assms(5)
proof
  assume head: "cn_reading (conns (ns_server n) p) = ReadHeader \<and> ns_up n p \<noteq> []"
  have "frames_of (asks_bytes rt (ns_spoken n) (ns_names n)) (ns_up n p)"
    using net_okD(6) [OF assms(3,4)] head by (simp add: server_link_def)
  moreover have "SIZE_HEADER \<le> length f" if "asks_bytes rt (ns_spoken n) (ns_names n) f" for f
    using that request_bytes_read(2) [OF assms(1)] by (auto simp: asks_bytes_def)
  ultimately obtain block rest where block: "ns_up n p = block @ rest" "length block = SIZE_HEADER"
    using head stream_block by blast
  obtain s where "do_parse_pb_header rt alloc p (Some block) (ns_server n) = Inr s"
    using net_ok_header [OF assms(1-4) _ block] head by blast
  then show ?thesis
    using delivers.header_comes [OF assms(4) _ block] head by blast
next
  assume "is_body (cn_reading (conns (ns_server n) p))"
  then obtain h where h: "cn_reading (conns (ns_server n) p) = ReadBody h"
    by (auto simp: is_body_def split: reading.splits)
  then have "request_link rt (ns_spoken n) (ns_names n) h (ns_up n p)"
    using net_okD(6) [OF assms(3,4)] by (simp add: server_link_def)
  then obtain data rest where "ns_up n p = data @ rest" "length data = unat (hdr_length h)"
    by cases simp
  then show ?thesis
    using delivers.body_comes [OF assms(4) h] by blast
qed

lemma client_can_read:
  assumes "pb_runtime rt" and "1073741910 \<le> calloc" and "net_ok rt logins history intact n"
    and "p \<in> set (pool (ns_server n))" and "cl_reading (ns_users n p) \<noteq> Idle"
    and "cl_reading (ns_users n p) = WaitHeader \<Longrightarrow> ns_down n p \<noteq> []"
  shows "\<exists>n'. delivers rt eng fmt02 alloc calloc n n'"
proof -
  note link = net_okD(7) [OF assms(3,4)]
  have "list_all (uttered rt (ns_spoken n) (ns_names n)) (cn_started (conns (ns_server n) p))"
    "hears_all rt (ns_spoken n) (ns_names n) (p \<in> ns_dialing n) (ns_users n p) (cn_started (conns (ns_server n) p)) (ns_down n p)"
    using link by (simp_all add: client_link_def)
  then obtain coming where coming: "list_all (uttered rt (ns_spoken n) (ns_names n)) coming"
    "awaits rt (ns_spoken n) (ns_names n) (p \<in> ns_dialing n) (ns_users n p) coming (ns_down n p)"
    by (auto elim!: hears_all.cases)
  have "\<exists>block rest. ns_down n p = block @ rest \<and> length block = client_wants (ns_users n p)"
  proof (cases "cl_reading (ns_users n p) = WaitHeader")
    case True
    have "frames_of (\<lambda>f. SIZE_HEADER \<le> length f) (concat (map sent_bytes coming))"
      using coming(1) utters_sent response_bytes_read(2) [OF assms(1) _ net_okD(4) [OF assms(3)]]
      by (intro frames_of_concat) (fastforce simp: list_all_iff uttered_def)
    then have "\<exists>block rest. ns_down n p = block @ rest \<and> length block = SIZE_HEADER"
      using True coming(2) assms(6)
      by (intro stream_block [of "\<lambda>f. SIZE_HEADER \<le> length f"]) (simp_all add: awaits_def)
    then show ?thesis using True by (simp add: client_wants_def)
  next
    case False
    then have "body_link rt (ns_spoken n) (ns_names n) (ns_users n p) coming (ns_down n p)"
      using coming(2) assms(5) by (simp add: awaits_def)
    then show ?thesis
      using False by cases (auto simp: client_wants_def)
  qed
  then obtain block rest where block: "ns_down n p = block @ rest" "length block = client_wants (ns_users n p)"
    by blast
  then obtain c where "read_completes rt calloc (Some block) (ns_users n p) = Inr c"
    using net_ok_hears [OF assms(1-5)] by blast
  then show ?thesis
    using delivers.hears [OF assms(4,5) block] by blast
qed

lemma rest_or_progress:
  assumes "pb_runtime rt" and "sqlite_laws eng logins history intact" and "boost_format fmt02"
    and "1073741910 \<le> alloc" and "1073741910 \<le> calloc" and "net_ok rt logins history intact n"
  shows "at_rest n \<or> (\<exists>n'. delivers rt eng fmt02 alloc calloc n n')"
proof (rule ccontr)
  assume "\<not> ?thesis"
  then have busy: "\<not> at_rest n" and stuck: "\<not> delivers rt eng fmt02 alloc calloc n n'" for n' by auto
  have "ns_dialing n = {}" "ns_writing n = {}"
    using stuck delivers.dialed delivers.wrote by fastforce+
  moreover have "tasks (ns_server n) = []"
  proof (rule ccontr)
    assume "tasks (ns_server n) \<noteq> []"
    then obtain t ts where t: "tasks (ns_server n) = [] @ t # ts"
      by (auto simp: neq_Nil_conv)
    then show False
      using net_ok_works [OF assms(2,3,6) t] delivers.works [OF t] stuck by blast
  qed
  ultimately obtain p where p: "p \<in> set (pool (ns_server n))"
    "cn_writing (conns (ns_server n) p) \<or>
     (cn_reading (conns (ns_server n) p) = ReadHeader \<and> ns_up n p \<noteq> [] \<or> is_body (cn_reading (conns (ns_server n) p))) \<or>
     cl_reading (ns_users n p) \<noteq> Idle \<and> (cl_reading (ns_users n p) = WaitHeader \<longrightarrow> ns_down n p \<noteq> [])"
    using busy by (auto simp: at_rest_def)
  then show False
    using stuck delivers.sent server_can_read [OF assms(1,4,6) p(1)] client_can_read [OF assms(1,5,6) p(1)] by blast
qed

lemma rest_is_final: "at_rest n \<Longrightarrow> \<not> delivers rt eng fmt02 alloc calloc n n'"
  by (auto simp: at_rest_def client_wants_def SIZE_HEADER_eq elim!: delivers.cases)

section \<open>The guarantee\<close>

lemma no_endless_delivery:
  assumes "wf R" and "\<And>n n'. P n \<Longrightarrow> d n n' \<Longrightarrow> (n', n) \<in> R \<and> P n'"
  shows "P (f 0) \<Longrightarrow> \<exists>i. \<not> d (f i) (f (Suc i))"
proof (rule ccontr)
  assume start: "P (f 0)" and "\<nexists>i. \<not> d (f i) (f (Suc i))"
  then have run: "d (f i) (f (Suc i))" for i by blast
  have "P (f i)" for i
    using start assms(2) run by (induction i) blast+
  then have "(f (Suc i), f i) \<in> R" for i
    using assms(2) run by blast
  then show False
    using assms(1) by (auto simp: wf_iff_no_infinite_down_chain)
qed

lemma delivery_reaches_rest:
  assumes "wf R" and "\<And>n n'. P n \<Longrightarrow> d n n' \<Longrightarrow> (n', n) \<in> R \<and> P n'" and "\<And>n. P n \<Longrightarrow> Q n \<or> (\<exists>n'. d n n')"
  shows "P n \<Longrightarrow> \<exists>n'. d\<^sup>*\<^sup>* n n' \<and> Q n'"
  using assms(1)
proof (induction n rule: wf_induct_rule)
  case (less n)
  show ?case
  proof (cases "Q n")
    case False
    then obtain n' where n': "d n n'"
      using assms(3) less.prems by blast
    then show ?thesis
      using less.IH [of n'] assms(2) [OF less.prems n'] converse_rtranclp_into_rtranclp [of d] by blast
  qed blast
qed

text \<open>C7: requests and messages that are in flight arrive, and the system comes to rest: from every
  state that server and clients can reach, no run of deliveries goes on for ever, whatever their
  order; as long as anything is in flight, posted or waited for, a delivery is possible; so there is
  a run of deliveries after which nothing is.
  Users type text that is not empty, is UTF-8 and needs no escaping in SQL, the database file is
  intact, and tasks and frames are whole steps (see the header of \<open>Spec2Isabelle\<close>).\<close>

theorem traffic_settles:
  assumes "pb_runtime rt" and "sqlite_laws eng logins history intact" and "boost_format fmt02"
    and "1073741910 \<le> alloc" and "1073741910 \<le> calloc" and "starts_well rt logins history intact db past"
    and "net_reach rt eng fmt02 alloc calloc db past n"
  shows "\<not> (\<exists>f. f 0 = n \<and> (\<forall>i. delivers rt eng fmt02 alloc calloc (f i) (f (Suc i)))) \<and>
    (at_rest n \<longleftrightarrow> (\<forall>n'. \<not> delivers rt eng fmt02 alloc calloc n n')) \<and>
    (\<exists>n'. (delivers rt eng fmt02 alloc calloc)\<^sup>*\<^sup>* n n' \<and> at_rest n')"
proof -
  let ?reach = "net_reach rt eng fmt02 alloc calloc db past" and ?d = "delivers rt eng fmt02 alloc calloc"
  have ok: "net_ok rt logins history intact m" if "?reach m" for m
    using net_reach_ok [OF assms(1-6) that] by blast
  have less: "(m', m) \<in> measures work_left \<and> ?reach m'" if "?reach m" "?d m m'" for m m'
    using delivers_less [OF assms(1-5) ok [OF that(1)] that(2)] net_reach.step [OF that(1) net_step.delivered [OF that(2)]]
    by blast
  have more: "at_rest m \<or> (\<exists>m'. ?d m m')" if "?reach m" for m
    using rest_or_progress [OF assms(1-5) ok [OF that]] .
  have "\<not> (\<exists>f. f 0 = n \<and> (\<forall>i. ?d (f i) (f (Suc i))))"
    using no_endless_delivery [of "measures work_left" ?reach ?d] less assms(7) by auto
  moreover have "at_rest n \<longleftrightarrow> (\<forall>n'. \<not> ?d n n')"
    using more [OF assms(7)] rest_is_final by blast
  moreover have "\<exists>n'. ?d\<^sup>*\<^sup>* n n' \<and> at_rest n'"
    using delivery_reaches_rest [of "measures work_left" ?reach ?d at_rest] less more assms(7) by auto
  ultimately show ?thesis by blast
qed

theorem traffic_settles_witness:
  "\<exists>n n'. demo_reach n \<and> \<not> at_rest n \<and>
    (delivers std_rt mini_engine std_fmt02 2000000000 2000000000)\<^sup>*\<^sup>* n n' \<and> at_rest n'"
proof -
  obtain n where n: "demo_reach n" "ns_dialing n = {0}"
    using demo_dials by blast
  have room: "(1073741910 :: nat) \<le> 2000000000" by simp
  have "\<not> at_rest n"
    using n(2) by (simp add: at_rest_def)
  with n(1) traffic_settles [OF std.pb_runtime_axioms mini.sqlite_laws_axioms std_format.boost_format_axioms
      room room demo_starts_well n(1)]
  show ?thesis by blast
qed

end
