(* ===== verification/Arrival.thy ===== *)
theory Arrival
  imports Settling
begin

text \<open>
  What arrives in the closed system: what a client shows is at every moment the messages of a part
  of its queue at the server, from its beginning and without a gap; at rest it is all of them, so a
  client that stays in a room shows everything that the room recorded.
\<close>

section \<open>Frames and messages\<close>

lemma message_frame_inj:
  assumes "pb_runtime rt" and "readable rt d" and "readable rt d'" and "message_frame rt d = message_frame rt d'"
  shows "d = d'"
proof -
  let ?m = "\<lambda>d. create_text_response (td_login d) (td_room_id d) (td_text d)"
  have read: "ParseFromArray (Response_InternalParse rt) Response_SharedCtor
      (drop SIZE_HEADER (message_frame rt d)) = (True, ?m d)" if "readable rt d" for d
  proof -
    have "sent_out rt {d} {} EchoResponse (?m d)"
      by (rule sends_text) (simp add: heard_def)
    from response_bytes_read(1) [OF assms(1) this] that show ?thesis
      by (auto simp: server_frame_bytes heard_def)
  qed
  have "?m d = ?m d'"
    using read [OF assms(2)] read [OF assms(3)] assms(4) by simp
  from arg_cong [OF this, of Response_text_response] show ?thesis
    by (simp add: response_slots)
qed

lemma map_message_frame_inj:
  assumes "pb_runtime rt" and "list_all (readable rt) ds" and "list_all (readable rt) es"
    and "map (message_frame rt) ds = map (message_frame rt) es"
  shows "ds = es"
  using assms(4) by (rule map_inj_on)
    (use assms(2,3) message_frame_inj [OF assms(1)] in \<open>auto simp: inj_on_def list_all_iff\<close>)

text \<open>A part of a list of frames, in its order, carries the same part of the messages.\<close>

lemma subseq_of_frames:
  assumes "pb_runtime rt" and "subseq ds es" and "map (message_frame rt) es = map (message_frame rt) es'"
    and "list_all (readable rt) ds" and "list_all (readable rt) es'"
  shows "subseq ds es'"
proof -
  obtain N where N: "ds = nths es N"
    using assms(2) by (auto simp: subseq_conv_nths)
  have "map (message_frame rt) ds = map (message_frame rt) (nths es' N)"
    by (simp only: N nths_map [symmetric] assms(3))
  moreover have "list_all (readable rt) (nths es' N)"
    using assms(5) notin_set_nthsI [of _ es' N] by (auto simp: list_all_iff)
  ultimately have "ds = nths es' N"
    using map_message_frame_inj [OF assms(1,4)] by blast
  then show ?thesis
    by (auto simp: subseq_conv_nths)
qed

section \<open>What a client has heard of its queue\<close>

lemma net_heard:
  assumes "pb_runtime rt" and "net_ok rt logins history intact n" and "p \<in> set (pool (ns_server n))"
  shows "\<exists>es later. frames_to (conns (ns_server n)) p = map (message_frame rt) es @ later \<and>
    list_all (readable rt) es \<and> shows_all (ns_users n p) es \<and>
    (cl_reading (ns_users n p) = WaitHeader \<and> ns_down n p = [] \<and> cn_queue (conns (ns_server n) p) = [] \<longrightarrow> later = [])"
proof -
  note ok = net_okD [OF assms(2)]
  let ?c = "conns (ns_server n) p"
  have "hears_all rt (ns_spoken n) (ns_names n) (p \<in> ns_dialing n) (ns_users n p) (cn_started ?c) (ns_down n p)"
    and uttered: "list_all (uttered rt (ns_spoken n) (ns_names n)) (cn_started ?c)"
    using ok(7) [OF assms(3)] by (simp_all add: client_link_def)
  then obtain past coming es where es: "cn_started ?c = past @ coming"
    "List.map_filter queued_of past = map (message_frame rt) es" "list_all (heard (ns_spoken n) (ns_names n)) es"
    "shows_all (ns_users n p) es" "awaits rt (ns_spoken n) (ns_names n) (p \<in> ns_dialing n) (ns_users n p) coming (ns_down n p)"
    by (elim hears_all.cases) blast
  have "coming = []" if "cl_reading (ns_users n p) = WaitHeader" "ns_down n p = []"
  proof (rule ccontr)
    assume "coming \<noteq> []"
    then obtain w a m where w: "w \<in> set coming" "utters rt (ns_spoken n) (ns_names n) w a m"
      using uttered es(1) by (cases coming) (auto simp: uttered_def)
    then have "SIZE_HEADER \<le> length (sent_bytes w)"
      using utters_sent [OF w(2)] response_bytes_read(2) [OF assms(1) _ ok(4)] by auto
    then have "sent_bytes w \<noteq> []"
      by (auto simp: SIZE_HEADER_eq)
    then show False
      using es(5) that w(1) by (simp add: awaits_def)
  qed
  moreover have "frames_to (conns (ns_server n)) p =
      map (message_frame rt) es @ (List.map_filter queued_of coming @ tl (cn_queue ?c))"
    using es(1,2) by (simp add: frames_to_def conn_queue.outbox_def queued_started_def)
  moreover have "list_all (readable rt) es"
    using es(3) ok(4) by (simp add: list_all_iff)
  ultimately show ?thesis
    using es(4) by (intro exI [of _ es] exI [of _ "List.map_filter queued_of coming @ tl (cn_queue ?c)"])
      (auto simp: List.map_filter_def)
qed

text \<open>C8: nothing is lost, doubled or put out of order on the way to a client: in every state that
  server and clients can reach, the frames that the server ever queued for a client begin with those
  of some messages, and the client shows exactly these, each in the history of its room and in the
  order of the queue. When it waits for the next frame, nothing is in flight to it and nothing is
  left in the queue, these are all. (Two threads that push at the same moment break this:
  \<open>pushes_write_twice\<close>.)
  Users type text that is not empty, is UTF-8 and needs no escaping in SQL, the database file is
  intact, and tasks and frames are whole steps (see the header of \<open>Spec2Isabelle\<close>).\<close>

theorem client_shows_its_queue:
  assumes "pb_runtime rt" and "sqlite_laws eng logins history intact" and "boost_format fmt02"
    and "1073741910 \<le> alloc" and "1073741910 \<le> calloc" and "starts_well rt logins history intact db past"
    and "net_reach rt eng fmt02 alloc calloc db past n" and "p \<in> set (pool (ns_server n))"
  shows "\<exists>es later. frames_to (conns (ns_server n)) p = map (message_frame rt) es @ later \<and>
    (\<forall>r. fst (client_get_history r (ns_users n p)) = map shown (filter (\<lambda>d. td_room_id d = r) es)) \<and>
    (cl_reading (ns_users n p) = WaitHeader \<and> ns_down n p = [] \<and> cn_queue (conns (ns_server n) p) = [] \<longrightarrow> later = [])"
  using net_heard [OF assms(1) _ assms(8)] net_reach_ok [OF assms(1-7)] unfolding shows_all_def by blast

theorem client_shows_its_queue_witness:
  "\<exists>n es later. demo_reach n \<and> es \<noteq> [] \<and> frames_to (conns (ns_server n)) 0 = map (message_frame std_rt) es @ later \<and>
    fst (client_get_history 7 (ns_users n 0)) = map shown (filter (\<lambda>d. td_room_id d = 7) es)"
proof -
  obtain n d where n: "demo_reach n" "pool (ns_server n) = [0]" "shown d \<in> set (fst (client_get_history 7 (ns_users n 0)))"
    using demo_session by blast
  have room: "(1073741910 :: nat) \<le> 2000000000" by simp
  obtain es later where es: "frames_to (conns (ns_server n)) 0 = map (message_frame std_rt) es @ later"
    "\<And>r. fst (client_get_history r (ns_users n 0)) = map shown (filter (\<lambda>d. td_room_id d = r) es)"
    using client_shows_its_queue [OF std.pb_runtime_axioms mini.sqlite_laws_axioms std_format.boost_format_axioms
        room room demo_starts_well n(1), of 0] n(2) by auto
  moreover have "es \<noteq> []"
    using n(3) es(2) by auto
  ultimately show ?thesis
    using n(1) by blast
qed

section \<open>A member of a room\<close>

text \<open>A run of the closed system throughout which the connection \<open>p\<close> is the member \<open>c\<close> of the
  room \<open>r\<close>.\<close>

inductive stays :: "pb_rt \<Rightarrow> 'h sqlite \<Rightarrow> (nat \<Rightarrow> string) \<Rightarrow> nat \<Rightarrow> nat \<Rightarrow> int32 \<Rightarrow> int32 \<Rightarrow> nat \<Rightarrow>
    'h net \<Rightarrow> 'h net \<Rightarrow> bool"
  for rt eng fmt02 alloc calloc r c p n where
  is_member: "subscribed (manager (ns_server n)) r c = Some p \<Longrightarrow> stays rt eng fmt02 alloc calloc r c p n n"
| is_still: "\<lbrakk>stays rt eng fmt02 alloc calloc r c p n n'; net_step rt eng fmt02 alloc calloc n' n'';
      subscribed (manager (ns_server n'')) r c = Some p\<rbrakk> \<Longrightarrow> stays rt eng fmt02 alloc calloc r c p n n''"

lemma stays_member:
  "stays rt eng fmt02 alloc calloc r c p n n' \<Longrightarrow>
    subscribed (manager (ns_server n)) r c = Some p \<and> subscribed (manager (ns_server n')) r c = Some p"
  by (induction rule: stays.induct) auto

lemma stays_attended:
  "stays rt eng fmt02 alloc calloc r c p n n' \<Longrightarrow> attended rt eng fmt02 alloc r c p (ns_server n) (ns_server n')"
proof (induction rule: stays.induct)
  case (is_still n' n'')
  then show ?case
    using net_step_server [OF is_still.hyps(2)] by (auto intro: attended.remains)
qed (rule attended.present)

lemma stays_reach:
  "stays rt eng fmt02 alloc calloc r c p n n' \<Longrightarrow> net_reach rt eng fmt02 alloc calloc db past n \<Longrightarrow>
    net_reach rt eng fmt02 alloc calloc db past n'"
  by (induction rule: stays.induct) (auto intro: net_reach.step)

lemma member_hears_the_room:
  assumes "pb_runtime rt" and "sqlite_laws eng logins history intact" and "boost_format fmt02"
    and "1073741910 \<le> alloc" and "1073741910 \<le> calloc" and "starts_well rt logins history intact db past"
    and "net_reach rt eng fmt02 alloc calloc db past n" and "stays rt eng fmt02 alloc calloc r c p n n'"
    and "cl_reading (ns_users n' p) = WaitHeader" and "ns_down n' p = []" and "cn_queue (conns (ns_server n') p) = []"
  shows "\<exists>ds new. room_history (manager (ns_server n')) r = room_history (manager (ns_server n)) r @ ds \<and>
    fst (client_get_history r (ns_users n' p)) = fst (client_get_history r (ns_users n p)) @ map shown new \<and>
    subseq ds new"
proof -
  have reach': "net_reach rt eng fmt02 alloc calloc db past n'"
    using stays_reach [OF assms(8,7)] .
  have ok: "net_ok rt logins history intact n" "net_ok rt logins history intact n'"
    using net_reach_ok [OF assms(1-6)] assms(7) reach' by blast+
  obtain ds es where room: "room_history (manager (ns_server n')) r = room_history (manager (ns_server n)) r @ ds"
    "\<forall>d \<in> set ds. td_room_id d = r"
    "frames_to (conns (ns_server n')) p = frames_to (conns (ns_server n)) p @ map (message_frame rt) es" "subseq ds es"
    using attended_receives [OF net_server_reach [OF assms(7)] stays_attended [OF assms(8)]] by blast
  have member: "subscribed (manager (ns_server m)) r c = Some p" if "m = n \<or> m = n'" for m
    using stays_member [OF assms(8)] that by auto
  have pool: "p \<in> set (pool (ns_server m))" if "m = n \<or> m = n'" for m
    using server_okD(5) [OF _ member [OF that]] net_okD(1) ok that unfolding sound_server_def by blast
  obtain fs later where old: "frames_to (conns (ns_server n)) p = map (message_frame rt) fs @ later"
    "list_all (readable rt) fs" "shows_all (ns_users n p) fs"
    using net_heard [OF assms(1) ok(1) pool] by blast
  obtain fs' where all: "frames_to (conns (ns_server n')) p = map (message_frame rt) fs'"
    "list_all (readable rt) fs'" "shows_all (ns_users n' p) fs'"
    using net_heard [OF assms(1) ok(2) pool] assms(9-11) by auto
  have "map (message_frame rt) fs' = map (message_frame rt) fs @ later @ map (message_frame rt) es"
    using all(1) old(1) room(3) by simp
  then obtain fs1 rest where fs1: "fs' = fs1 @ rest" "map (message_frame rt) fs = map (message_frame rt) fs1"
    "later @ map (message_frame rt) es = map (message_frame rt) rest"
    by (auto simp: map_eq_append_conv)
  from fs1(3) [symmetric] obtain seen es' where rest: "rest = seen @ es'" "map (message_frame rt) es = map (message_frame rt) es'"
    by (auto simp: map_eq_append_conv)
  note fs' = fs1(1) [unfolded rest(1)] fs1(2) [symmetric] rest(2) [symmetric]
  have "fs1 = fs"
    using map_message_frame_inj [OF assms(1) _ old(2) fs'(2)] all(2) fs'(1) by simp
  have "list_all (heard (ns_spoken n') (ns_names n')) (room_history (manager (ns_server n')) r)"
    using net_okD(1) [OF ok(2)] honest.honestD(1) [of rt _ _ "chat_of (ns_server n')" r]
    by (auto simp: sound_server_def room_history_def split: option.splits)
  then have "list_all (readable rt) ds"
    using net_okD(4) [OF ok(2)] by (auto simp: room(1) list_all_iff)
  moreover have "list_all (readable rt) es'"
    using all(2) by (simp add: fs'(1))
  ultimately have "subseq ds es'"
    using subseq_of_frames [OF assms(1) room(4) fs'(3) [symmetric]] by blast
  then have "subseq ds (seen @ es')"
    by (rule list_emb_append2)
  then have "subseq ds (filter (\<lambda>d. td_room_id d = r) (seen @ es'))"
    using subseq_filter [of ds "seen @ es'" "\<lambda>d. td_room_id d = r"] room(2) by simp
  then show ?thesis
    using room(1) all(3) old(3) fs'(1) \<open>fs1 = fs\<close>
    by (intro exI [of _ ds] exI [of _ "filter (\<lambda>d. td_room_id d = r) (seen @ es')"]) (simp add: shows_all_def)
qed

text \<open>C6: a user who stays in a room sees everything that the room records, in its order: over any run
  of the system throughout which the client is a member, its history of the room grows, by the time
  nothing is queued for it or in flight to it any more, by messages that hold all those that the room
  recorded in the meantime.
  Users type text that is not empty, is UTF-8 and needs no escaping in SQL, the database file is
  intact, and tasks and frames are whole steps (see the header of \<open>Spec2Isabelle\<close>).\<close>

theorem member_sees_the_room:
  assumes "pb_runtime rt" and "sqlite_laws eng logins history intact" and "boost_format fmt02"
    and "1073741910 \<le> alloc" and "1073741910 \<le> calloc" and "starts_well rt logins history intact db past"
    and "net_reach rt eng fmt02 alloc calloc db past n" and "stays rt eng fmt02 alloc calloc r c p n n'"
    and "cl_reading (ns_users n' p) = WaitHeader" and "ns_down n' p = []" and "cn_queue (conns (ns_server n') p) = []"
  shows "\<exists>ds new. room_history (manager (ns_server n')) r = room_history (manager (ns_server n)) r @ ds \<and>
    fst (client_get_history r (ns_users n' p)) = fst (client_get_history r (ns_users n p)) @ map shown new \<and>
    subseq ds new"
  using assms by (rule member_hears_the_room)

section \<open>A message to oneself\<close>

text \<open>A text for a room with one member, which has nothing queued.\<close>

lemma lone_text:
  assumes "map_of (channels (manager s)) r = Some ch" and "subscribers ch = [(c, p)]" and "database s = Some db"
    and "cn_queue (conns s p) = []" and "d = \<lparr>td_room_id = r, td_login = l, td_text = t\<rparr>"
  shows "\<exists>s'. do_text_msg rt eng fmt02 p (create_text_request l r t) s = Inr s' \<and> pool s' = pool s \<and>
    subscribed (manager s') r c = Some p \<and>
    room_history (manager s') r = room_history (manager s) r @ [d] \<and>
    cn_queue (conns s' p) = [message_frame rt d] \<and> cn_writing (conns s' p) \<and>
    cn_started (conns s' p) = cn_started (conns s p) @ [Queued (message_frame rt d)]"
  using assms
  by (simp add: do_text_msg_def text_data_def deliver_and_save_def Manager_send_to_channel_def Channel_notification_def
      connection_subscriber_def send_msg_to_client_def send_data_def message_frame_def add_msg_send_queue_def
      sending_msgs_to_client_def Let_def split_beta um_simps subscribed_def room_history_def)

abbreviation demo_stays :: "int32 \<Rightarrow> mini net \<Rightarrow> mini net \<Rightarrow> bool" where
  "demo_stays c \<equiv> stays std_rt mini_engine std_fmt02 2000000000 2000000000 7 c 0"

text \<open>Her first frame is written, and so is her first request.\<close>

definition quiet :: "int32 \<Rightarrow> mini net \<Rightarrow> bool" where
  "quiet c n \<longleftrightarrow> pool (ns_server n) = [0] \<and> ns_writing n = {} \<and> cl_queue (ns_users n 0) = [] \<and>
    cl_reading (ns_users n 0) = WaitHeader \<and> ns_up n 0 = [] \<and> ns_down n 0 = [] \<and>
    (\<exists>ch. map_of (channels (manager (ns_server n))) 7 = Some ch \<and> subscribers ch = [(c, 0)]) \<and>
    database (ns_server n) = Some (mini_db [] []) \<and> cn_reading (conns (ns_server n) 0) = ReadHeader \<and>
    cn_queue (conns (ns_server n) 0) = []"

lemma demo_quiet: "\<exists>n c. demo_reach n \<and> ns_spoken n = {} \<and> quiet c n"
proof -
  have room: "(1073741910 :: nat) \<le> 2000000000" by simp
  obtain n8 d ch c where n8: "demo_reach n8" "pool (ns_server n8) = [0]" "ns_writing n8 = {0}"
    "tl (cl_queue (ns_users n8 0)) = []" "cl_reading (ns_users n8 0) = WaitHeader" "ns_up n8 0 = []"
    "ns_down n8 0 = message_frame std_rt d @ []" "readable std_rt d"
    "map_of (channels (manager (ns_server n8))) 7 = Some ch" "subscribers ch = [(c, 0)]"
    "database (ns_server n8) = Some (mini_db [] [])" "cn_reading (conns (ns_server n8) 0) = ReadHeader"
    "cn_writing (conns (ns_server n8) 0)" "cn_queue (conns (ns_server n8) 0) = [message_frame std_rt d]"
    "ns_spoken n8 = {}"
    using demo_joins by auto
  obtain n9 n10 where n10: "demo_step n8 n9" "demo_step n9 n10" "ns_server n10 = ns_server n8" "ns_up n10 0 = []"
    "ns_down n10 0 = []" "ns_writing n10 = {0}" "cl_reading (ns_users n10 0) = WaitHeader" "tl (cl_queue (ns_users n10 0)) = []"
    "ns_spoken n10 = {}"
    using net_hears [OF std.pb_runtime_axioms room n8(8) _ n8(5,7), of mini_engine std_fmt02 2000000000] n8(2-4,6,15) by auto
  let ?s = "queue_write_handler std_rt 0 True (ns_server n10)"
  let ?n11 = "server_acts ?s n10"
  have s: "cn_started (conns ?s 0) = cn_started (conns (ns_server n10) 0)" "cn_queue (conns ?s 0) = []"
    "cn_reading (conns ?s 0) = ReadHeader" "pool ?s = [0]" "manager ?s = manager (ns_server n8)"
    "database ?s = Some (mini_db [] [])"
    using n8(2,11,12,14) n10(3) by (simp_all add: queue_write_handler_def queue_written_def Let_def)
  have "demo_step n10 ?n11"
    by (rule net_step.delivered [OF delivers.sent]) (simp_all add: n8(2,13) n10(3))
  moreover have "ns_down ?n11 0 = []"
    by (simp add: server_acts_def s(1) n10(5))
  let ?c = "msg_write_handler False (ns_users n10 0)"
  let ?n12 = "client_acts 0 ?c (?n11\<lparr>ns_writing := ns_writing ?n11 - {0}\<rparr>)"
  have c: "cl_queue ?c = []" "cl_started ?c = cl_started (ns_users n10 0) @ []" "cl_reading ?c = WaitHeader"
    using n10(7,8) by (simp_all add: msg_write_handler_def msg_written_def Let_def)
  have "demo_step ?n11 ?n12"
    using net_step.delivered [OF delivers.wrote [of 0 ?n11 std_rt mini_engine std_fmt02 2000000000 2000000000]] n10(6) by simp
  moreover have "ns_up ?n12 0 = []"
    using client_acts_up [of ?c "?n11\<lparr>ns_writing := ns_writing ?n11 - {0}\<rparr>" 0 "[]"] c(2) n10(4) by simp
  moreover have "demo_reach n10"
    by (rule net_reach.step [OF net_reach.step [OF n8(1) n10(1)] n10(2)])
  ultimately show ?thesis
    using s c n8(9,10) n10(6,9) \<open>ns_down ?n11 0 = []\<close> by (intro exI [of _ ?n12] exI [of _ c])
      (auto simp: quiet_def client_acts_writing intro: net_reach.step)
qed

text \<open>The user in room 7 sends a line, and the server takes it in.\<close>

abbreviation demo_delivers :: "mini net \<Rightarrow> mini net \<Rightarrow> bool" where
  "demo_delivers \<equiv> delivers std_rt mini_engine std_fmt02 2000000000 2000000000"

definition demo_line :: "mini net \<Rightarrow> TextSendData" where
  "demo_line n = \<lparr>td_room_id = 7, td_login = cl_login (ns_users n 0), td_text = ''hi''\<rparr>"

definition demo_said :: "mini net \<Rightarrow> mini net" where
  "demo_said n = client_acts 0 (send_msg_to_server std_rt ''hi'' 7 (ns_users n 0))
     (n\<lparr>ns_spoken := insert (demo_line n) (ns_spoken n)\<rparr>)"

definition posted :: "int32 \<Rightarrow> TextSendData \<Rightarrow> mini net \<Rightarrow> bool" where
  "posted c d n \<longleftrightarrow> readable std_rt d \<and> td_room_id d = 7 \<and> cl_reading (ns_users n 0) = WaitHeader \<and> ns_down n 0 = [] \<and>
     (\<exists>ts. tasks (ns_server n) = ts @ DoTextMsg 0 (create_text_request (td_login d) 7 (td_text d)) # []) \<and>
     (\<exists>ch. map_of (channels (manager (ns_server n))) 7 = Some ch \<and> subscribers ch = [(c, 0)]) \<and>
     database (ns_server n) = Some (mini_db [] []) \<and> pool (ns_server n) = [0] \<and> cn_queue (conns (ns_server n) 0) = []"

lemma quiet_member: "quiet c n \<Longrightarrow> subscribed (manager (ns_server n)) 7 c = Some 0"
  by (auto simp: quiet_def subscribed_def)

lemma demo_hi_typed: "text_typed std_rt ''hi''"
  by (simp add: text_typed_def std_str_ok [folded ascii_def])

lemma demo_says:
  assumes "demo_reach n" and "quiet c n"
  shows "\<exists>n2 n3. demo_delivers (demo_said n) n2 \<and> demo_delivers n2 n3 \<and>
    manager (ns_server n2) = manager (ns_server n) \<and> manager (ns_server n3) = manager (ns_server n) \<and>
    posted c (demo_line n) n3 \<and> ns_users n3 0 = ns_users (demo_said n) 0"
proof -
  have room: "(1073741910 :: nat) \<le> 2000000000" by simp
  let ?l = "cl_login (ns_users n 0)" and ?d = "demo_line n"
  let ?q = "create_text_request ?l 7 ''hi''"
  have "net_ok std_rt fst snd (\<lambda>_. True) n"
    using net_reach_ok [OF std.pb_runtime_axioms mini.sqlite_laws_axioms std_format.boost_format_axioms room room
        demo_starts_well assms(1)] by blast
  then have l: "plain ?l" "?l \<noteq> []" "str_ok std_rt ?l"
    using net_okD(7) [of std_rt fst snd _ n 0] assms(2) by (auto simp: client_link_def quiet_def)
  have asked: "asked std_rt {?d} {} EchoRequest ?q" and readable: "readable std_rt ?d"
    using l demo_hi_typed by (auto simp: demo_line_def text_typed_def readable_def intro: asks_text)
  let ?c1 = "send_msg_to_server std_rt ''hi'' 7 (ns_users n 0)"
  have c1: "cl_started ?c1 = cl_started (ns_users n 0) @ [QueueWrite (request_bytes std_rt (EchoRequest, ?q))]"
    "cl_reading ?c1 = WaitHeader"
    using assms(2) by (simp_all add: quiet_def send_msg_to_server_def add_msg_to_send_fields request_bytes_def Let_def)
  have up1: "ns_up (demo_said n) 0 = request_bytes std_rt (EchoRequest, ?q) @ []"
    using client_acts_up [of ?c1 "n\<lparr>ns_spoken := insert ?d (ns_spoken n)\<rparr>" 0] c1(1) assms(2)
    by (simp add: demo_said_def quiet_def)
  obtain n2 n3 where n3: "demo_delivers (demo_said n) n2" "demo_delivers n2 n3" "manager (ns_server n2) = manager (ns_server n)"
    "manager (ns_server n3) = manager (ns_server n)" "ns_users n3 = ns_users (demo_said n)" "ns_down n3 0 = []"
    "tasks (ns_server n3) = tasks (ns_server n) @ DoTextMsg 0 ?q # []" "database (ns_server n3) = Some (mini_db [] [])"
    "pool (ns_server n3) = [0]" "cn_queue (conns (ns_server n3) 0) = []"
    using takes [OF std.pb_runtime_axioms asked room _ _ up1, where eng = mini_engine and ?fmt02.0 = std_fmt02
        and calloc = 2000000000] assms(2) by (auto simp: task_for_def demo_said_def quiet_def)
  have "posted c ?d n3"
    using assms(2) readable c1(2) n3(4-10) by (simp add: posted_def quiet_def demo_line_def demo_said_def)
  with n3(1-5) show ?thesis by (intro exI [of _ n2] exI [of _ n3]) simp
qed

text \<open>The task hands it to the room's one member, she hears it, and its write completes.\<close>

lemma demo_answers:
  assumes "posted c d n3"
  shows "\<exists>n4 n5 n6 n7. demo_delivers n3 n4 \<and> demo_delivers n4 n5 \<and> demo_delivers n5 n6 \<and> demo_delivers n6 n7 \<and>
    (\<forall>m \<in> {n4, n5, n6, n7}. subscribed (manager (ns_server m)) 7 c = Some 0) \<and>
    cl_reading (ns_users n7 0) = WaitHeader \<and> ns_down n7 0 = [] \<and> cn_queue (conns (ns_server n7) 0) = [] \<and>
    room_history (manager (ns_server n7)) 7 = room_history (manager (ns_server n3)) 7 @ [d]"
proof -
  have room: "(1073741910 :: nat) \<le> 2000000000" by simp
  obtain ts ch where n: "readable std_rt d" "td_room_id d = 7" "cl_reading (ns_users n3 0) = WaitHeader" "ns_down n3 0 = []"
    "tasks (ns_server n3) = ts @ DoTextMsg 0 (create_text_request (td_login d) 7 (td_text d)) # []"
    "map_of (channels (manager (ns_server n3))) 7 = Some ch" "subscribers ch = [(c, 0)]"
    "database (ns_server n3) = Some (mini_db [] [])" "pool (ns_server n3) = [0]" "cn_queue (conns (ns_server n3) 0) = []"
    using assms by (auto simp: posted_def)
  obtain s4 where s4: "do_text_msg std_rt mini_engine std_fmt02 0 (create_text_request (td_login d) 7 (td_text d))
      ((ns_server n3)\<lparr>tasks := ts\<rparr>) = Inr s4"
    "pool s4 = [0]" "subscribed (manager s4) 7 c = Some 0" "room_history (manager s4) 7 = room_history (manager (ns_server n3)) 7 @ [d]"
    "cn_queue (conns s4 0) = [message_frame std_rt d]" "cn_writing (conns s4 0)"
    "cn_started (conns s4 0) = cn_started (conns (ns_server n3) 0) @ [Queued (message_frame std_rt d)]"
    using lone_text [of "(ns_server n3)\<lparr>tasks := ts\<rparr>" 7 ch c 0 "mini_db [] []" d "td_login d" "td_text d" std_rt
        mini_engine std_fmt02] n(2,6-10) by auto
  let ?n4 = "server_acts s4 n3"
  have step4: "demo_delivers n3 ?n4"
    using s4(1) by (intro delivers.works [OF n(5)]) simp
  have down4: "ns_down ?n4 0 = message_frame std_rt d @ []"
    by (simp add: server_acts_def s4(7) n(4))
  obtain n5 n6 where n6: "demo_delivers ?n4 n5" "demo_delivers n5 n6" "ns_server n5 = s4" "ns_server n6 = s4" "ns_down n6 0 = []"
    "cl_reading (ns_users n6 0) = WaitHeader"
    using hears [OF std.pb_runtime_axioms room n(1) _ _ down4, of mini_engine std_fmt02 2000000000] n(3) s4(2) by auto
  let ?s7 = "queue_write_handler std_rt 0 True s4" and ?n7 = "server_acts (queue_write_handler std_rt 0 True s4) n6"
  have s7: "cn_started (conns ?s7 0) = cn_started (conns s4 0)" "cn_queue (conns ?s7 0) = []" "manager ?s7 = manager s4"
    using s4(5) by (simp_all add: queue_write_handler_def queue_written_def Let_def)
  have "demo_delivers n6 ?n7"
    using delivers.sent [of 0 n6 std_rt mini_engine std_fmt02 2000000000 2000000000] s4(2,6) n6(4) by simp
  moreover have "ns_down ?n7 0 = []"
    by (simp add: server_acts_def n6(4,5) s7(1))
  ultimately show ?thesis
    using step4 n6 s7 s4(3,4) by (intro exI [of _ ?n4] exI [of _ n5] exI [of _ n6] exI [of _ ?n7]) simp
qed

lemma demo_talk:
  "\<exists>n n' c. demo_reach n \<and> demo_stays c n n' \<and> cl_reading (ns_users n' 0) = WaitHeader \<and> ns_down n' 0 = [] \<and>
    cn_queue (conns (ns_server n') 0) = [] \<and> room_history (manager (ns_server n')) 7 =
      room_history (manager (ns_server n)) 7 @ [demo_line n]"
proof -
  obtain n c where n: "demo_reach n" "quiet c n"
    using demo_quiet by blast
  note member = quiet_member [OF n(2)]
  have "demo_step n (demo_said n)"
    unfolding demo_said_def by (rule net_step.says [OF _ demo_hi_typed demo_line_def]) (use n(2) in \<open>simp add: quiet_def\<close>)
  then have start: "demo_stays c n (demo_said n)"
    by (rule is_still [OF is_member [OF member]]) (simp add: demo_said_def member)
  have on: "demo_stays c n m'" if "demo_stays c n m" "demo_delivers m m'" "subscribed (manager (ns_server m')) 7 c = Some 0" for m m'
    using that by (blast intro: is_still net_step.delivered)
  obtain n2 n3 where n3: "demo_delivers (demo_said n) n2" "demo_delivers n2 n3" "manager (ns_server n2) = manager (ns_server n)"
    "manager (ns_server n3) = manager (ns_server n)" "posted c (demo_line n) n3"
    using demo_says [OF n] by blast
  obtain n4 n5 n6 n7 where n7: "demo_delivers n3 n4" "demo_delivers n4 n5" "demo_delivers n5 n6" "demo_delivers n6 n7"
    "\<forall>m \<in> {n4, n5, n6, n7}. subscribed (manager (ns_server m)) 7 c = Some 0"
    "cl_reading (ns_users n7 0) = WaitHeader" "ns_down n7 0 = []" "cn_queue (conns (ns_server n7) 0) = []"
    "room_history (manager (ns_server n7)) 7 = room_history (manager (ns_server n3)) 7 @ [demo_line n]"
    using demo_answers [OF n3(5)] by blast
  have "demo_stays c n n3"
    using on [OF on [OF start n3(1)] n3(2)] n3(3,4) member by simp
  then have "demo_stays c n n7"
    using on [OF on [OF on [OF on [OF _ n7(1)] n7(2)] n7(3)] n7(4)] n7(5) by simp
  with n(1) n7(6-9) n3(4) show ?thesis by auto
qed

theorem member_sees_the_room_witness:
  "\<exists>n n' c new. demo_reach n \<and> demo_stays c n n' \<and>
    fst (client_get_history 7 (ns_users n' 0)) = fst (client_get_history 7 (ns_users n 0)) @ map shown new \<and>
    demo_line n \<in> set new"
proof -
  obtain n n' c where n: "demo_reach n" "demo_stays c n n'" "cl_reading (ns_users n' 0) = WaitHeader" "ns_down n' 0 = []"
    "cn_queue (conns (ns_server n') 0) = []" "room_history (manager (ns_server n')) 7 =
      room_history (manager (ns_server n)) 7 @ [demo_line n]"
    using demo_talk by blast
  have room: "(1073741910 :: nat) \<le> 2000000000" by simp
  obtain ds new where ds: "room_history (manager (ns_server n')) 7 = room_history (manager (ns_server n)) 7 @ ds"
    "fst (client_get_history 7 (ns_users n' 0)) = fst (client_get_history 7 (ns_users n 0)) @ map shown new" "subseq ds new"
    using member_sees_the_room [OF std.pb_runtime_axioms mini.sqlite_laws_axioms std_format.boost_format_axioms
        room room demo_starts_well n(1-5)] by blast
  then have "ds = [demo_line n]"
    using n(6) by simp
  then have "demo_line n \<in> set new"
    using ds(3) by (auto dest: list_emb_set)
  with n(1,2) ds(2) show ?thesis by blast
qed

end
