(* ===== verification/LiveWindows.thy ===== *)
theory LiveWindows
  imports Windows EndToEnd
begin

text \<open>
  The windows while the session runs: the client reads in a thread of its own, so that Qt queues its
  signals and the thread of the windows handles them later, between the clicks of the user. The
  state is a \<open>control\<close> and the number of signals handled so far.
\<close>

section \<open>Steps\<close>

fun pending :: "control \<times> nat \<Rightarrow> signal list" where
  "pending (w, k) = (case ct_client w of None \<Rightarrow> [] | Some c \<Rightarrow> drop k (cl_signals c))"

inductive window_step :: "pb_rt \<Rightarrow> (string \<Rightarrow> int32) \<Rightarrow> control \<times> nat \<Rightarrow> control \<times> nat \<Rightarrow> bool"
  for rt toInt where
  session_reads: "\<lbrakk>ct_client w = Some c; read_completes rt alloc outcome c = Inr c'\<rbrakk> \<Longrightarrow>
    window_step rt toInt (w, k) (w\<lparr>ct_client := Some c'\<rparr>, k)"
| login_goes_out: "ct_client w = Some c \<Longrightarrow>
    window_step rt toInt (w, k) (w\<lparr>ct_client := Some (login_written ec c)\<rparr>, k)"
| session_writes: "ct_client w = Some c \<Longrightarrow>
    window_step rt toInt (w, k) (w\<lparr>ct_client := Some (msg_write_handler ec c)\<rparr>, k)"
| handles: "\<lbrakk>pending (w, k) = sig # sigs; on_signal sig w = Inr w'\<rbrakk> \<Longrightarrow>
    window_step rt toInt (w, k) (w', Suc k)"
| opens: "OnDoubleClicked row w = Inr w' \<Longrightarrow> window_step rt toInt (w, k) (w', k)"
| goes_back: "window_step rt toInt (w, k) (on_button_back_clicked w, k)"
| asks_channel: "on_push_change_room_id_clicked rt toInt w = Inr w' \<Longrightarrow> window_step rt toInt (w, k) (w', k)"
| sends: "on_push_send_clicked rt w = Inr w' \<Longrightarrow> window_step rt toInt (w, k) (w', k)"
| types: "window_step rt toInt (w, k) (w\<lparr>room_field := s, message_field := t\<rparr>, k)"
| session_ends: "window_step rt toInt (w, k) (session_ended w, k)"

inductive window_run :: "pb_rt \<Rightarrow> (string \<Rightarrow> int32) \<Rightarrow> control \<times> nat \<Rightarrow> control \<times> nat \<Rightarrow> bool"
  for rt toInt g where
  opened: "window_run rt toInt g g"
| moves: "window_run rt toInt g g' \<Longrightarrow> window_step rt toInt g' g'' \<Longrightarrow> window_run rt toInt g g''"

section \<open>What the chat shows\<close>

definition texts_of :: "int32 \<Rightarrow> signal list \<Rightarrow> ClientTextMsg list" where
  "texts_of r sigs = concat (map (\<lambda>sig. case sig of
     SendText m \<Rightarrow> if cm_channel_id m = r then [m] else [] | _ \<Rightarrow> []) sigs)"

lemma texts_of_simps [simp]:
  "texts_of r [] = []" "texts_of r (xs @ ys) = texts_of r xs @ texts_of r ys"
  "texts_of r (SendText m # sigs) = (if cm_channel_id m = r then m # texts_of r sigs else texts_of r sigs)"
  "texts_of r (SendInputCode code # sigs) = texts_of r sigs" "texts_of r (UpdateChannels # sigs) = texts_of r sigs"
  by (simp_all add: texts_of_def)

definition recorded :: "client \<Rightarrow> int32 \<Rightarrow> ClientTextMsg list" where
  "recorded c r = fst (client_get_history r c)"

text \<open>A session is well shown when its histories hold every message whose signal is pending, and the
  lines of the chat are messages of the channel that is open, which miss at most those whose signal
  is pending and come in the order of the channel.\<close>

definition well_shown :: "control \<times> nat \<Rightarrow> bool" where
  "well_shown g \<longleftrightarrow> (\<exists>c. ct_client (fst g) = Some c \<and> snd g \<le> length (cl_signals c) \<and> histories_ok c \<and>
     (\<forall>r. set (texts_of r (pending g)) \<subseteq> set (recorded c r)) \<and>
     set (text_output (fst g)) \<subseteq> chat_entry ` set (recorded c (cl_current_room c)) \<and>
     subseq (map chat_entry (recorded c (cl_current_room c)))
       (text_output (fst g) @ map chat_entry (texts_of (cl_current_room c) (pending g))))"

lemma well_shownI:
  assumes "ct_client w = Some c" and "k \<le> length (cl_signals c)" and "histories_ok c"
    and "\<And>r. set (texts_of r (drop k (cl_signals c))) \<subseteq> set (recorded c r)"
    and "set (text_output w) \<subseteq> chat_entry ` set (recorded c (cl_current_room c))"
    and "subseq (map chat_entry (recorded c (cl_current_room c)))
      (text_output w @ map chat_entry (texts_of (cl_current_room c) (drop k (cl_signals c))))"
  shows "well_shown (w, k)"
  using assms by (simp add: well_shown_def)

lemma well_shownE:
  assumes "well_shown (w, k)"
  obtains c where "ct_client w = Some c" and "k \<le> length (cl_signals c)" and "histories_ok c"
    and "\<And>r. set (texts_of r (drop k (cl_signals c))) \<subseteq> set (recorded c r)"
    and "set (text_output w) \<subseteq> chat_entry ` set (recorded c (cl_current_room c))"
    and "subseq (map chat_entry (recorded c (cl_current_room c)))
      (text_output w @ map chat_entry (texts_of (cl_current_room c) (drop k (cl_signals c))))"
  using assms by (auto simp: well_shown_def)

text \<open>What the handlers of the session do: they add a message and its signal, or another signal.\<close>

lemma read_adds:
  assumes "read_completes rt alloc outcome c = Inr c'"
  shows "cl_current_room c' = cl_current_room c \<and>
    (\<exists>sigs. cl_signals c' = cl_signals c @ sigs \<and> (\<forall>r. recorded c' r = recorded c r @ texts_of r sigs))"
  using assms
  by (auto simp: read_completes_def do_read_pb_header_def client_async_read_pb_msg_def
      do_read_input_response_def do_read_reg_response_def do_read_join_room_response_def
      do_read_echo_response_def recorded_def client_get_history_eq emit_def close_connection_def
      client_async_read_pb_header_def set_login_id_def body_read_def um_simps Let_def split_beta
      split: client_reading.splits option.splits if_splits TypeCommand.splits)

section \<open>Every step keeps it\<close>

lemma read_well_shown:
  assumes "well_shown (w, k)" and "ct_client w = Some c" and "read_completes rt alloc outcome c = Inr c'"
  shows "well_shown (w\<lparr>ct_client := Some c'\<rparr>, k)"
proof -
  obtain sigs where adds: "cl_current_room c' = cl_current_room c" "cl_signals c' = cl_signals c @ sigs"
    "\<And>r. recorded c' r = recorded c r @ texts_of r sigs"
    using read_adds [OF assms(3)] by blast
  from assms(1) show ?thesis
  proof (rule well_shownE)
    fix d
    assume d: "ct_client w = Some d" "k \<le> length (cl_signals d)" "histories_ok d"
      "\<And>r. set (texts_of r (drop k (cl_signals d))) \<subseteq> set (recorded d r)"
      "set (text_output w) \<subseteq> chat_entry ` set (recorded d (cl_current_room d))"
      "subseq (map chat_entry (recorded d (cl_current_room d)))
        (text_output w @ map chat_entry (texts_of (cl_current_room d) (drop k (cl_signals d))))"
    then have c: "d = c" using assms(2) by simp
    show ?thesis
    proof (rule well_shownI [where c = c'])
      show "subseq (map chat_entry (recorded c' (cl_current_room c'))) (text_output (w\<lparr>ct_client := Some c'\<rparr>) @
          map chat_entry (texts_of (cl_current_room c') (drop k (cl_signals c'))))"
        using list_emb_append_mono [OF d(6) subseq_order.order_refl, of "map chat_entry (texts_of (cl_current_room c) sigs)"] d(2)
        by (simp add: c adds)
    qed (use d adds read_keeps_histories [OF assms(3)] in \<open>auto simp: c\<close>)
  qed
qed

text \<open>Steps that add nothing to the session and nothing to the chat.\<close>

lemma well_shown_same:
  assumes "well_shown (w, k)" and "ct_client w = Some c" and "ct_client w' = Some c'"
    and "cl_signals c' = cl_signals c" and "cl_channels_history c' = cl_channels_history c"
    and "cl_current_room c' = cl_current_room c" and "text_output w' = text_output w"
  shows "well_shown (w', k)"
proof -
  have "recorded c' = recorded c" "histories_ok c' = histories_ok c"
    by (simp_all add: recorded_def client_get_history_eq fun_eq_iff assms(5) histories_ok_def)
  then show ?thesis
    using assms by (simp add: well_shown_def)
qed

lemma handles_well_shown:
  assumes "well_shown (w, k)" and "pending (w, k) = sig # sigs" and "on_signal sig w = Inr w'"
  shows "well_shown (w', Suc k)"
  using assms(1)
proof (rule well_shownE)
  fix c
  assume c: "ct_client w = Some c" "k \<le> length (cl_signals c)" "histories_ok c"
    "\<And>r. set (texts_of r (drop k (cl_signals c))) \<subseteq> set (recorded c r)"
    "set (text_output w) \<subseteq> chat_entry ` set (recorded c (cl_current_room c))"
    "subseq (map chat_entry (recorded c (cl_current_room c)))
      (text_output w @ map chat_entry (texts_of (cl_current_room c) (drop k (cl_signals c))))"
  have front: "drop k (cl_signals c) = sig # sigs"
    using assms(2) c(1) by simp
  then have rest: "drop (Suc k) (cl_signals c) = sigs" and more: "Suc k \<le> length (cl_signals c)"
    by (simp add: drop_Suc tl_drop [symmetric], metis Suc_leI drop_eq_Nil2 leI list.distinct(1))
  have w': "ct_client w' = Some c \<and> text_output w' = text_output w @ map chat_entry (texts_of (cl_current_room c) [sig])"
    using assms(3) c(1) by (cases sig) (auto simp: on_signal_def print_text_def change_window_def handler_input_code_def
        clear_login_def update_list_channels_def populateData_def Let_def split: InputCode.splits if_splits)
  have one: "texts_of r (sig # sigs) = texts_of r [sig] @ texts_of r sigs" for r
    using texts_of_simps(2) [of r "[sig]" sigs] by simp
  show ?thesis
  proof (rule well_shownI [where c = c])
    show "set (text_output w') \<subseteq> chat_entry ` set (recorded c (cl_current_room c))"
      using c(4) [of "cl_current_room c"] c(5) w' unfolding front one by auto
    show "subseq (map chat_entry (recorded c (cl_current_room c)))
        (text_output w' @ map chat_entry (texts_of (cl_current_room c) (drop (Suc k) (cl_signals c))))"
      using c(6) w' unfolding front one rest by simp
    show "set (texts_of r (drop (Suc k) (cl_signals c))) \<subseteq> set (recorded c r)" for r
      using c(4) [of r] unfolding front one rest by simp
  qed (use w' more c(3) in simp_all)
qed

lemma opens_well_shown:
  assumes "well_shown (w, k)" and "OnDoubleClicked row w = Inr w'"
  shows "well_shown (w', k)"
  using assms(1)
proof (rule well_shownE)
  fix c
  assume c: "ct_client w = Some c" "k \<le> length (cl_signals c)" "histories_ok c"
    "\<And>r. set (texts_of r (drop k (cl_signals c))) \<subseteq> set (recorded c r)"
  obtain channel where go: "go_channel channel (w\<lparr>ct_client := Some (set_current_channel channel c)\<rparr>) = Inr w'"
    using assms(2) c(1) by (auto simp: OnDoubleClicked_def)
  let ?c = "set_current_channel channel c"
  have ok: "histories_ok ?c" and same: "recorded ?c = recorded c" "cl_signals ?c = cl_signals c"
    using c(3) by (simp_all add: histories_ok_def set_current_channel_def recorded_def client_get_history_eq fun_eq_iff)
  obtain c' where c': "ct_client w' = Some c'" "cl_signals c' = cl_signals c" "recorded c' = recorded c" "histories_ok c'"
    "cl_current_room c' = channel" "text_output w' = map chat_entry (recorded c channel)"
    using go_channel_shows [OF _ ok, of "w\<lparr>ct_client := Some ?c\<rparr>" channel] go same
    by (fastforce simp: recorded_def fun_eq_iff)
  then show ?thesis
    using c(2,4) by (intro well_shownI [where c = c']) auto
qed

text \<open>Writing, clicking and typing change neither the histories nor the chat.\<close>

lemma keeps_session [simp]:
  "cl_signals (msg_write_handler ec c) = cl_signals c"
  "cl_channels_history (msg_write_handler ec c) = cl_channels_history c"
  "cl_current_room (msg_write_handler ec c) = cl_current_room c"
  "cl_signals (login_written ec c) = cl_signals c"
  "cl_channels_history (login_written ec c) = cl_channels_history c"
  "cl_current_room (login_written ec c) = cl_current_room c"
  "cl_signals (add_msg_to_send f c) = cl_signals c"
  "cl_channels_history (add_msg_to_send f c) = cl_channels_history c"
  "cl_current_room (add_msg_to_send f c) = cl_current_room c"
  by (simp_all add: msg_write_handler_def msg_written_def start_send_msgs_def close_connection_def
      login_written_def client_async_read_pb_header_def add_msg_to_send_def Let_def)

lemma step_well_shown:
  assumes "window_step rt toInt g g'" and "well_shown g"
  shows "well_shown g'"
  using assms
proof (induction rule: window_step.induct)
  case (session_reads w c alloc outcome c' k)
  then show ?case using read_well_shown by blast
next
  case (login_goes_out w c k ec)
  then show ?case
    by (intro well_shown_same [OF login_goes_out.prems login_goes_out.hyps, where c' = "login_written ec c"]) simp_all
next
  case (session_writes w c k ec)
  then show ?case
    by (intro well_shown_same [OF session_writes.prems session_writes.hyps, where c' = "msg_write_handler ec c"]) simp_all
next
  case (handles w k sig sigs w')
  then show ?case using handles_well_shown by blast
next
  case (opens row w w' k)
  then show ?case using opens_well_shown by blast
next
  case (goes_back w k)
  then show ?case
    by (simp add: well_shown_def on_button_back_clicked_def change_room_from_chat_def)
next
  case (asks_channel w w' k)
  then obtain c where "ct_client w = Some c" by (auto elim: well_shownE)
  with asks_channel show ?case
    by (auto simp: on_push_change_room_id_clicked_def control_change_room_def client_change_room_def Let_def
        split: if_splits elim!: well_shown_same)
next
  case (sends w w' k)
  then obtain c where "ct_client w = Some c" by (auto elim: well_shownE)
  with sends show ?case
    by (auto simp: on_push_send_clicked_def get_text_from_gui_def send_msg_to_server_def Let_def
        elim!: well_shown_same)
next
  case (types w k s t)
  then show ?case
    by (simp add: well_shown_def)
next
  case (session_ends w k)
  then obtain c where "ct_client w = Some c" by (auto elim: well_shownE)
  with session_ends show ?case
    by (intro well_shown_same [OF session_ends.prems, where c' = "close_connection c"]) (simp_all add: session_ended_def close_connection_def)
qed

lemma run_well_shown: "window_run rt toInt g g' \<Longrightarrow> well_shown g \<Longrightarrow> well_shown g'"
  by (induction rule: window_run.induct) (auto intro: step_well_shown)

lemma connect_well_shown:
  assumes "connect_to_server rt garbage_id garbage_header ec login password command w = Inr w'"
    and "text_output w = []"
  shows "well_shown (w', 0)"
proof -
  define c where "c = set_login login (Client_ctor garbage_id garbage_header)"
  have fresh: "cl_signals (do_connect ec f c) = []" "cl_channels_history (do_connect ec f c) = []" for f
    by (simp_all add: do_connect_def send_login_request_def c_def set_login_def Client_ctor_def)
  from assms(1) obtain f where "w' = w\<lparr>ct_client := Some (do_connect ec f c)\<rparr>"
    by (auto simp: connect_to_server_def Let_def c_def)
  with fresh [of f] show ?thesis
    by (intro well_shownI [where c = "do_connect ec f c"])
      (simp_all add: assms(2) recorded_def client_get_history_eq histories_ok_def)
qed

section \<open>What the user sees\<close>

text \<open>From the click that logs a user in, through every interleaving of what the session reads
  and writes with the signals that the windows handle late and with everything the user clicks and
  types, the lines of the chat are messages of the channel that is open and of no other, and every
  message that the session has recorded for it is among them, in the order of arrival, unless its
  signal is still pending.\<close>

theorem chat_window_complete:
  assumes "connect_to_server rt garbage_id garbage_header ec login password command w = Inr w'"
    and "text_output w = []" and "window_run rt toInt (w', 0) (v, k)"
  shows "\<exists>c. ct_client v = Some c \<and>
    (\<forall>line \<in> set (text_output v). \<exists>m \<in> set (recorded c (cl_current_room c)).
       cm_channel_id m = cl_current_room c \<and> line = chat_entry m) \<and>
    subseq (map chat_entry (recorded c (cl_current_room c)))
      (text_output v @ map chat_entry (texts_of (cl_current_room c) (pending (v, k))))"
proof -
  have "well_shown (v, k)"
    by (rule run_well_shown [OF assms(3) connect_well_shown [OF assms(1,2)]])
  then show ?thesis
  proof (rule well_shownE)
    fix c
    assume c: "ct_client v = Some c" "histories_ok c"
      "set (text_output v) \<subseteq> chat_entry ` set (recorded c (cl_current_room c))"
      "subseq (map chat_entry (recorded c (cl_current_room c)))
        (text_output v @ map chat_entry (texts_of (cl_current_room c) (drop k (cl_signals c))))"
    have "\<forall>m \<in> set (recorded c (cl_current_room c)). cm_channel_id m = cl_current_room c"
      using client_get_history_ok(1) [OF c(2)] by (metis prod.collapse recorded_def)
    with c show ?thesis by fastforce
  qed
qed

text \<open>C34: a message of a channel whose signal is still pending when the user opens that channel is
  printed twice: the window copies it from the history, where the session has put it already, and
  appends it again when the signal is handled.\<close>

theorem late_signal_shows_twice:
  assumes "ct_client w = Some c" and "histories_ok c" and "pending (w, k) = SendText m # sigs"
    and "recorded c (cm_channel_id m) = hs @ [m]"
    and "row < length (get_channels c)" and "get_channels c ! row = cm_channel_id m"
    and "model_list w = channel_names (ct_client w)"
  shows "\<exists>w'. window_run rt toInt (w, k) (w', Suc k) \<and> chat_shown w' \<and>
    text_output w' = map chat_entry (hs @ [m]) @ [chat_entry m]"
proof -
  let ?r = "cm_channel_id m" and ?w = "w\<lparr>ct_client := Some (set_current_channel (cm_channel_id m) c)\<rparr>"
  have "histories_ok (set_current_channel ?r c)" "ct_client ?w = Some (set_current_channel ?r c)"
    using assms(2) by (simp_all add: histories_ok_def set_current_channel_def)
  from go_channel_shows [OF this(2,1), of ?r] obtain v d where v: "go_channel ?r ?w = Inr v" "chat_shown v"
    "text_output v = map chat_entry (hs @ [m])" "ct_client v = Some d" "cl_current_room d = ?r" "cl_signals d = cl_signals c"
    using assms(4) by (auto simp: recorded_def client_get_history_eq set_current_channel_def)
  have "OnDoubleClicked row w = Inr v"
    using v(1) assms(1,5-7) by (simp add: OnDoubleClicked_def get_channel_def channel_names_def)
  then have "window_run rt toInt (w, k) (v, k)"
    by (intro window_run.moves [OF window_run.opened] window_step.opens)
  moreover have "window_step rt toInt (v, k) (v\<lparr>text_output := text_output v @ [chat_entry m]\<rparr>, Suc k)"
    using assms(1,3) v(4-6) by (intro window_step.handles [where sig = "SendText m" and sigs = sigs])
      (simp_all add: on_signal_def print_text_def)
  ultimately show ?thesis
    using v(2,3) by (auto dest: window_run.moves)
qed

section \<open>Concrete sessions\<close>

definition demo_windows :: control where
  "demo_windows = \<lparr>ct_ip = ''127.0.0.1'', ct_port = 7777, ct_client = None, start_shown = True,
     channels_shown = False, chat_shown = False, view_list = [], model_list = [''7''], text_output = [],
     dialogs = [], logon_field = [], password_field = [], room_field = [], message_field = []\<rparr>"

text \<open>A frame that reaches the session.\<close>

lemma window_run_frame:
  assumes "window_run rt toInt g (w, k)" and "ct_client w = Some c" and "receive_frame rt alloc f c = Inr c'"
  shows "window_run rt toInt g (w\<lparr>ct_client := Some c'\<rparr>, k)"
proof -
  obtain c1 where c1: "read_completes rt alloc (Some (take SIZE_HEADER f)) c = Inr c1"
    "read_completes rt alloc (Some (drop SIZE_HEADER f)) c1 = Inr c'"
    using assms(3) by (auto simp: receive_frame_def)
  have "window_run rt toInt g (w\<lparr>ct_client := Some c1\<rparr>, k)"
    by (rule window_run.moves [OF assms(1) window_step.session_reads [OF assms(2) c1(1)]])
  then show ?thesis
    using window_run.moves [OF _ window_step.session_reads [OF _ c1(2), of "w\<lparr>ct_client := Some c1\<rparr>"]] by simp
qed

text \<open>A message reaches the session of a user whose chat shows its room, and the window handles it.\<close>

lemma demo_shows:
  "\<exists>w v c. connect_to_server std_rt 0 [] False ''ann'' ''pw'' AuthorisationRequest demo_windows = Inr w \<and>
    window_run std_rt (\<lambda>_. 0) (w, 0) (v, 1) \<and> ct_client v = Some c \<and> cl_current_room c = 0 \<and>
    text_output v = [\<lparr>ln_red = False, ln_text = ''bob: hi''\<rparr>]"
proof -
  let ?m = "\<lparr>cm_author = ''bob'', cm_text = ''hi'', cm_channel_id = 0, cm_dt = DateTime_default\<rparr>"
  define c where "c = do_connect False (serialize_request std_rt (create_header AuthorisationRequest
    (Request_ByteSizeLong std_rt (create_input_request ''ann'' ''pw''))) (create_input_request ''ann'' ''pw''))
    (set_login ''ann'' (Client_ctor 0 []))"
  let ?w = "demo_windows\<lparr>ct_client := Some c\<rparr>" and ?c1 = "login_written False c"
  have start: "connect_to_server std_rt 0 [] False ''ann'' ''pw'' AuthorisationRequest demo_windows = Inr ?w"
    by (simp add: connect_to_server_def login_frame_def c_def)
  have c: "cl_signals ?c1 = []" "cl_current_room ?c1 = 0" "cl_reading ?c1 = WaitHeader"
    by (simp_all add: c_def login_written_def client_async_read_pb_header_def do_connect_def send_login_request_def
        set_login_def Client_ctor_def)
  obtain d where d: "receive_frame std_rt (Response_ByteSizeLong std_rt (create_text_response ''bob'' 0 ''hi''))
      (text_frame std_rt ''bob'' ''hi'' 0) ?c1 = Inr d" "cl_signals d = [SendText ?m]"
    using text_received [OF std.pb_runtime_axioms c(3) _ _ order_refl, of "''bob''" "''hi''" 0] c(1)
    by (fastforce simp: std_str_ok)
  have room: "cl_current_room d = 0"
    using d(1) c(2) by (auto simp: receive_frame_def dest!: read_adds)
  have "window_run std_rt (\<lambda>_. 0) (?w, 0) (?w\<lparr>ct_client := Some ?c1\<rparr>, 0)"
    by (rule window_run.moves [OF window_run.opened window_step.login_goes_out]) simp
  from window_run_frame [OF this _ d(1)] have "window_run std_rt (\<lambda>_. 0) (?w, 0) (?w\<lparr>ct_client := Some d\<rparr>, 0)"
    by simp
  moreover have "window_step std_rt (\<lambda>_. 0) (?w\<lparr>ct_client := Some d\<rparr>, 0)
      (?w\<lparr>ct_client := Some d, text_output := [chat_entry ?m]\<rparr>, Suc 0)"
    by (intro window_step.handles [where sig = "SendText ?m" and sigs = "[]"])
      (simp_all add: d(2) on_signal_def print_text_def room demo_windows_def)
  ultimately have "window_run std_rt (\<lambda>_. 0) (?w, 0) (?w\<lparr>ct_client := Some d, text_output := [chat_entry ?m]\<rparr>, Suc 0)"
    by (rule window_run.moves)
  with start room show ?thesis
    by (intro exI [of _ ?w] exI [of _ "?w\<lparr>ct_client := Some d, text_output := [chat_entry ?m]\<rparr>"] exI [of _ d])
      (simp add: chat_entry_def cstr_def)
qed

theorem chat_window_complete_witness:
  "\<exists>w v c m. window_run std_rt (\<lambda>_. 0) (w, 0) (v, 1) \<and> ct_client v = Some c \<and> m \<in> set (recorded c 0) \<and>
    cm_channel_id m = 0 \<and> chat_entry m = \<lparr>ln_red = False, ln_text = ''bob: hi''\<rparr>"
proof -
  obtain w v c where w: "connect_to_server std_rt 0 [] False ''ann'' ''pw'' AuthorisationRequest demo_windows = Inr w"
    "window_run std_rt (\<lambda>_. 0) (w, 0) (v, 1)" "ct_client v = Some c" "cl_current_room c = 0"
    "text_output v = [\<lparr>ln_red = False, ln_text = ''bob: hi''\<rparr>]"
    using demo_shows by blast
  have "text_output demo_windows = []"
    by (simp add: demo_windows_def)
  from chat_window_complete [OF w(1) this w(2)] w(3-5) show ?thesis
    by (metis list.set_intros(1) option.inject w(2))
qed

theorem late_signal_shows_twice_witness:
  "\<exists>w v. window_run std_rt (\<lambda>_. 0) (w, 0) (v, 1) \<and> length (cl_signals (the (ct_client w))) = 1 \<and> text_output v =
    [\<lparr>ln_red = False, ln_text = ''bob: hi''\<rparr>, \<lparr>ln_red = False, ln_text = ''bob: hi''\<rparr>]"
proof -
  let ?m = "\<lparr>cm_author = ''bob'', cm_text = ''hi'', cm_channel_id = 7, cm_dt = DateTime_default\<rparr>"
  let ?c = "(Client_ctor 0 [])\<lparr>cl_channels_history := [(7, [?m])], cl_signals := [SendText ?m]\<rparr>"
  let ?w = "demo_windows\<lparr>ct_client := Some ?c\<rparr>"
  have seven: "to_string_int 7 = ''7''"
    by code_simp
  have "\<exists>v. window_run std_rt (\<lambda>_. 0) (?w, 0) (v, Suc 0) \<and> chat_shown v \<and>
      text_output v = map chat_entry ([] @ [?m]) @ [chat_entry ?m]"
    by (rule late_signal_shows_twice [where c = ?c and sigs = "[]" and row = 0])
      (simp_all add: histories_ok_def Client_ctor_def recorded_def client_get_history_eq get_channels_def
        demo_windows_def channel_names_def seven)
  then obtain v where "window_run std_rt (\<lambda>_. 0) (?w, 0) (v, Suc 0)"
    "text_output v = [chat_entry ?m, chat_entry ?m]"
    by auto
  then show ?thesis
    by (intro exI [of _ ?w] exI [of _ v]) (simp add: chat_entry_def cstr_def)
qed

end
