(* ===== verification/Application.thy ===== *)
theory Application
  imports Accounts Arrival LiveWindows
begin

text \<open>
  The whole application: the server, a client at the other end of each connection, and in front of
  each client the windows in which a user clicks and types. Every act of a user is the slot behind a
  button of \<open>client/gui\<close>; every signal waits until the thread of the windows handles it. The state is
  one of the closed system together with the windows of each user and the number of signals that they
  have handled; the \<open>Control\<close> of a user holds the client of the closed system.
\<close>

section \<open>Steps\<close>

type_synonym desks = "nat \<Rightarrow> control \<times> nat"

definition desk :: "'h net \<times> desks \<Rightarrow> nat \<Rightarrow> control" where
  "desk g p = (fst (snd g p))\<lparr>ct_client := Some (ns_users (fst g) p)\<rparr>"

definition handled :: "'h net \<times> desks \<Rightarrow> nat \<Rightarrow> nat" where
  "handled g p = snd (snd g p)"

text \<open>The button of the first window that belongs to a command, pressed where the server answers.\<close>

definition presses :: "pb_rt \<Rightarrow> int32 \<Rightarrow> bytes \<Rightarrow> TypeCommand \<Rightarrow> control \<Rightarrow> control result" where
  "presses rt ci cheader cmd w =
     (if cmd = RegistrationRequest then on_push_registration_clicked rt ci cheader True False w
      else on_push_autorisation_clicked rt ci cheader True False w)"

text \<open>A slot ran at the desk of a user: the client that it leaves in the \<open>Control\<close> is that of the system.\<close>

definition acts :: "nat \<Rightarrow> control \<Rightarrow> nat \<Rightarrow> 'h net \<times> desks \<Rightarrow> 'h net \<times> desks" where
  "acts p w k g = (client_acts p (the (ct_client w)) (fst g), (snd g)(p := (w, k)))"

inductive app_step ::
  "pb_rt \<Rightarrow> 'h sqlite \<Rightarrow> (nat \<Rightarrow> string) \<Rightarrow> nat \<Rightarrow> nat \<Rightarrow> (string \<Rightarrow> int32) \<Rightarrow>
    'h net \<times> desks \<Rightarrow> 'h net \<times> desks \<Rightarrow> bool"
  for rt eng fmt02 alloc calloc toInt g where
  delivered: "delivers rt eng fmt02 alloc calloc (fst g) n' \<Longrightarrow>
    app_step rt eng fmt02 alloc calloc toInt g (n', snd g)"
| broken: "breaks rt alloc calloc (fst g) n' \<Longrightarrow> app_step rt eng fmt02 alloc calloc toInt g (n', snd g)"
| logs_in: "\<lbrakk>cmd \<in> {RegistrationRequest, AuthorisationRequest}; text_output w = [];
      login_typed rt (logon_field w) (password_field w);
      presses rt ci cheader cmd w = Inr w'; login_frame rt (logon_field w) (password_field w) cmd = Inr frame;
      length header = SIZE_HEADER; p = length (pool (ns_server (fst g)))\<rbrakk> \<Longrightarrow>
    app_step rt eng fmt02 alloc calloc toInt g
      ((fst g)\<lparr>ns_server := scan_acception False i header (ns_server (fst g)),
         ns_users := (ns_users (fst g))(p := the (ct_client w')),
         ns_up := (ns_up (fst g))(p := frame), ns_down := (ns_down (fst g))(p := []),
         ns_dialing := insert p (ns_dialing (fst g)), ns_names := insert (logon_field w) (ns_names (fst g))\<rparr>,
       (snd g)(p := (w', 0)))"
| handles: "\<lbrakk>p \<in> set (pool (ns_server (fst g))); pending (desk g p, handled g p) = sig # sigs;
      on_signal sig (desk g p) = Inr w'\<rbrakk> \<Longrightarrow>
    app_step rt eng fmt02 alloc calloc toInt g (acts p w' (Suc (handled g p)) g)"
| opens: "\<lbrakk>p \<in> set (pool (ns_server (fst g))); OnDoubleClicked row (desk g p) = Inr w'\<rbrakk> \<Longrightarrow>
    app_step rt eng fmt02 alloc calloc toInt g (acts p w' (handled g p) g)"
| goes_back: "p \<in> set (pool (ns_server (fst g))) \<Longrightarrow>
    app_step rt eng fmt02 alloc calloc toInt g (acts p (on_button_back_clicked (desk g p)) (handled g p) g)"
| types: "p \<in> set (pool (ns_server (fst g))) \<Longrightarrow>
    app_step rt eng fmt02 alloc calloc toInt g
      (acts p ((desk g p)\<lparr>room_field := s, message_field := t\<rparr>) (handled g p) g)"
| joins: "\<lbrakk>p \<in> set (pool (ns_server (fst g))); on_push_change_room_id_clicked rt toInt (desk g p) = Inr w'\<rbrakk> \<Longrightarrow>
    app_step rt eng fmt02 alloc calloc toInt g (acts p w' (handled g p) g)"
| sends: "\<lbrakk>p \<in> set (pool (ns_server (fst g))); text_typed rt (message_field (desk g p));
      on_push_send_clicked rt (desk g p) = Inr w';
      d = \<lparr>td_room_id = cl_current_room (ns_users (fst g) p), td_login = cl_login (ns_users (fst g) p),
           td_text = message_field (desk g p)\<rparr>\<rbrakk> \<Longrightarrow>
    app_step rt eng fmt02 alloc calloc toInt g
      (acts p w' (handled g p) ((fst g)\<lparr>ns_spoken := insert d (ns_spoken (fst g))\<rparr>, snd g))"

text \<open>Nobody has logged in, and every window is as its constructor leaves it.\<close>

definition app_start :: "'h Database \<Rightarrow> TextSendData set \<Rightarrow> desks \<Rightarrow> 'h net \<times> desks" where
  "app_start db past ws = (net_start db past, ws)"

inductive app_reach ::
  "pb_rt \<Rightarrow> 'h sqlite \<Rightarrow> (nat \<Rightarrow> string) \<Rightarrow> nat \<Rightarrow> nat \<Rightarrow> (string \<Rightarrow> int32) \<Rightarrow> 'h Database \<Rightarrow> TextSendData set \<Rightarrow>
    'h net \<times> desks \<Rightarrow> bool"
  for rt eng fmt02 alloc calloc toInt db past where
  start: "app_reach rt eng fmt02 alloc calloc toInt db past (app_start db past ws)"
| step: "app_reach rt eng fmt02 alloc calloc toInt db past g \<Longrightarrow> app_step rt eng fmt02 alloc calloc toInt g g' \<Longrightarrow>
    app_reach rt eng fmt02 alloc calloc toInt db past g'"

section \<open>The system under the windows\<close>

text \<open>What the slots do to the client.\<close>

lemma print_text_client: "print_text m w = Inr w' \<Longrightarrow> ct_client w' = ct_client w"
  by (auto simp: print_text_def split: option.splits if_splits)

lemma print_all_client: "print_all ms w = Inr w' \<Longrightarrow> ct_client w' = ct_client w"
  by (induction ms arbitrary: w) (auto dest: print_text_client)

lemma on_signal_client: "on_signal sig w = Inr w' \<Longrightarrow> ct_client w' = ct_client w"
  by (cases sig) (auto simp: on_signal_def change_window_def handler_input_code_def clear_login_def
      update_list_channels_def populateData_def Let_def dest: print_text_client split: if_splits)

lemma OnDoubleClicked_client:
  assumes "OnDoubleClicked row w = Inr w'" and "ct_client w = Some c"
  shows "\<exists>r. ct_client w' = Some (open_channel r c)"
  using assms
  by (auto simp: OnDoubleClicked_def go_channel_def upload_history_def open_channel_def set_current_channel_def
      split_beta dest!: print_all_client)

lemma joins_client:
  assumes "on_push_change_room_id_clicked rt toInt w = Inr w'" and "ct_client w = Some c"
  shows "ct_client w' = Some c \<or> (\<exists>r. ct_client w' = Some (client_change_room rt r c))"
  using assms by (auto simp: on_push_change_room_id_clicked_def control_change_room_def Let_def split: if_splits)

lemma sends_client:
  assumes "on_push_send_clicked rt w = Inr w'" and "ct_client w = Some c"
  shows "ct_client w' = Some (send_msg_to_server rt (message_field w) (cl_current_room c) c)"
  using assms by (auto simp: on_push_send_clicked_def get_text_from_gui_def Let_def)

lemma presses_client:
  assumes "presses rt ci cheader cmd w = Inr w'" and "cmd \<in> {RegistrationRequest, AuthorisationRequest}"
    and "login_frame rt (logon_field w) (password_field w) cmd = Inr frame"
    and "logon_field w \<noteq> []" and "password_field w \<noteq> []"
  shows "ct_client w' = Some (do_connect False frame (set_login (logon_field w) (Client_ctor ci cheader)))"
    and "\<exists>v. connect_to_server rt ci cheader False (logon_field w) (password_field w) cmd w = Inr v \<and> w' = clear_login v"
  using assms
  by (auto simp: presses_def on_push_registration_clicked_def on_push_autorisation_clicked_def registration_def
      autorisation_def connect_to_server_def clear_login_def Let_def split: if_splits)

lemma desk_client [simp]: "ct_client (desk g p) = Some (ns_users (fst g) p)"
  by (simp add: desk_def)

lemma client_acts_same [simp]: "client_acts p (ns_users n p) n = n"
  by (simp add: client_acts_def)

lemma app_net_step:
  assumes "app_step rt eng fmt02 alloc calloc toInt g g'"
  shows "fst g' = fst g \<or> net_step rt eng fmt02 alloc calloc (fst g) (fst g')"
  using assms
proof cases
  case (delivered n')
  then show ?thesis by (simp add: net_step.delivered)
next
  case (broken n')
  then show ?thesis by (simp add: net_step.broken)
next
  case (logs_in cmd w ci cheader w' frame header p i)
  then have "logon_field w \<noteq> []" "password_field w \<noteq> []"
    by (auto simp: login_typed_def)
  note client = presses_client(1) [OF logs_in(5,2,6) this]
  show ?thesis
    using net_step.dial [OF logs_in(4,6,7,8)] by (simp add: logs_in(1) client)
next
  case (handles p sig sigs w')
  then show ?thesis by (simp add: acts_def on_signal_client)
next
  case (opens p row w')
  then obtain r where "ct_client w' = Some (open_channel r (ns_users (fst g) p))"
    using OnDoubleClicked_client [OF opens(3) desk_client] by blast
  then show ?thesis
    using net_step.browses [OF opens(2)] by (simp add: opens(1) acts_def)
next
  case (goes_back p)
  then show ?thesis by (simp add: acts_def on_button_back_clicked_def change_room_from_chat_def)
next
  case (types p s t)
  then show ?thesis by (simp add: acts_def)
next
  case (joins p w')
  then show ?thesis
    using joins_client [OF joins(3) desk_client] net_step.asks [OF joins(2)] by (auto simp: acts_def)
next
  case (sends p w' d)
  then show ?thesis
    using sends_client [OF sends(4) desk_client] net_step.says [OF sends(2,3,5)] by (simp add: acts_def)
qed

lemma app_net_reach:
  "app_reach rt eng fmt02 alloc calloc toInt db past g \<Longrightarrow> net_reach rt eng fmt02 alloc calloc db past (fst g)"
proof (induction rule: app_reach.induct)
  case (start ws)
  then show ?case by (simp add: app_start_def net_reach.start)
next
  case (step g g')
  then show ?case using app_net_step net_reach.step by metis
qed

section \<open>The windows above the system\<close>

text \<open>Deliveries and failures leave the pool alone and are steps of the session at each desk.\<close>

lemma calm_pool:
  "delivers rt eng fmt02 alloc calloc n n' \<Longrightarrow> pool (ns_server n') = pool (ns_server n)"
  "breaks rt alloc calloc n n' \<Longrightarrow> pool (ns_server n') = pool (ns_server n)"
proof -
  have header: "pool s' = pool s" if "do_parse_pb_header rt alloc p outcome s = Inr s'" for p outcome s'
    and s :: "'b server"
    using that by (auto simp: do_parse_pb_header_def free_connection_buffers Let_def split_beta
        async_read_pb_header_def split: option.splits if_splits)
  show "delivers rt eng fmt02 alloc calloc n n' \<Longrightarrow> pool (ns_server n') = pool (ns_server n)"
    by (induction rule: delivers.induct)
      (auto simp: header body_handler_reading(1) free_connection_buffers queue_write_handler_def dest!: run_task_buffers)
  show "breaks rt alloc calloc n n' \<Longrightarrow> pool (ns_server n') = pool (ns_server n)"
    by (induction rule: breaks.induct)
      (auto simp: header queue_write_handler_def direct_write_handler_def free_connection_buffers)
qed

definition session_moves :: "pb_rt \<Rightarrow> nat \<Rightarrow> client \<Rightarrow> client \<Rightarrow> bool" where
  "session_moves rt calloc c c' \<longleftrightarrow> c' = c \<or> (\<exists>outcome. read_completes rt calloc outcome c = Inr c') \<or>
     (\<exists>ec. c' = login_written ec c) \<or> (\<exists>ec. c' = msg_write_handler ec c)"

lemma delivers_sessions:
  assumes "delivers rt eng fmt02 alloc calloc n n'"
  shows "session_moves rt calloc (ns_users n p) (ns_users n' p)"
  using assms by cases (auto simp: client_acts_def session_moves_def)

lemma breaks_sessions:
  assumes "breaks rt alloc calloc n n'"
  shows "session_moves rt calloc (ns_users n p) (ns_users n' p)"
  using assms by cases (auto simp: client_acts_def session_moves_def)

lemma session_moves_shown:
  assumes "session_moves rt calloc c c'" and "well_shown (w\<lparr>ct_client := Some c\<rparr>, k)"
  shows "well_shown (w\<lparr>ct_client := Some c'\<rparr>, k)"
proof -
  let ?w = "w\<lparr>ct_client := Some c\<rparr>"
  have "c' = c \<or> (\<exists>toInt. window_step rt toInt (?w, k) (?w\<lparr>ct_client := Some c'\<rparr>, k))"
    using assms(1) window_step.intros(1-3) [of ?w c] unfolding session_moves_def by auto
  then show ?thesis
    using step_well_shown assms(2) by auto
qed

text \<open>What a user does is a step of the windows.\<close>

lemma acts_desk:
  assumes "ct_client w = Some c"
  shows "desk (acts p w k g) q = (if q = p then w else desk g q)" and "handled (acts p w k g) q = (if q = p then k else handled g q)"
  using assms by (auto simp: acts_def desk_def handled_def client_acts_def)

lemma acts_shown:
  assumes "\<And>q. q \<in> set (pool (ns_server (fst g))) \<Longrightarrow> well_shown (desk g q, handled g q)"
    and "window_step rt toInt (desk g p, handled g p) (w, k)" and "p \<in> set (pool (ns_server (fst g)))"
    and "ns_users (fst h) = ns_users (fst g)" and "snd h = snd g" and "pool (ns_server (fst h)) = pool (ns_server (fst g))"
    and "q \<in> set (pool (ns_server (fst (acts p w k h))))"
  shows "well_shown (desk (acts p w k h) q, handled (acts p w k h) q)"
proof -
  have "well_shown (w, k)"
    using step_well_shown [OF assms(2) assms(1) [OF assms(3)]] .
  moreover from this obtain c where "ct_client w = Some c"
    by (auto elim: well_shownE)
  moreover have "desk h q = desk g q" "handled h q = handled g q"
    by (simp_all add: desk_def handled_def assms(4,5))
  moreover have "q \<in> set (pool (ns_server (fst g)))"
    using assms(6,7) by (simp add: acts_def)
  ultimately show ?thesis
    using assms(1) by (simp add: acts_desk)
qed

lemma app_step_shown:
  assumes "app_step rt eng fmt02 alloc calloc toInt g g'"
    and "\<And>q. q \<in> set (pool (ns_server (fst g))) \<Longrightarrow> well_shown (desk g q, handled g q)"
    and "q \<in> set (pool (ns_server (fst g')))"
  shows "well_shown (desk g' q, handled g' q)"
  using assms(1)
proof cases
  case (delivered n')
  with assms(2) [of q] assms(3) show ?thesis
    using session_moves_shown [OF delivers_sessions [OF delivered(2)]] calm_pool(1) [OF delivered(2)]
    by (simp add: desk_def handled_def)
next
  case (broken n')
  with assms(2) [of q] assms(3) show ?thesis
    using session_moves_shown [OF breaks_sessions [OF broken(2)]] calm_pool(2) [OF broken(2)]
    by (simp add: desk_def handled_def)
next
  case (logs_in cmd w ci cheader w' frame header p i)
  show ?thesis
  proof (cases "q = p")
    case True
    from logs_in have typed: "logon_field w \<noteq> []" "password_field w \<noteq> []"
      by (auto simp: login_typed_def)
    note client = presses_client [OF logs_in(5,2,6) typed]
    obtain v where v: "connect_to_server rt ci cheader False (logon_field w) (password_field w) cmd w = Inr v" "w' = clear_login v"
      using client(2) by blast
    have "well_shown (w', 0)"
      using connect_well_shown [OF v(1) logs_in(3)] unfolding v(2) by (simp add: well_shown_def clear_login_def)
    moreover have "desk g' q = w'" "handled g' q = 0"
      using client(1) True by (simp_all add: logs_in(1) desk_def handled_def)
    ultimately show ?thesis by simp
  next
    case False
    with assms(3) have "q \<in> set (pool (ns_server (fst g)))"
      by (simp add: logs_in(1,8) accepted_simps)
    then show ?thesis
      using assms(2) [of q] False by (simp add: logs_in(1) desk_def handled_def)
  qed
next
  case (handles p sig sigs w')
  show ?thesis
    using assms(3) unfolding handles(1)
    by (intro acts_shown [OF assms(2) window_step.handles [OF handles(3,4)] handles(2)]) simp_all
next
  case (opens p row w')
  show ?thesis
    using assms(3) unfolding opens(1)
    by (intro acts_shown [OF assms(2) window_step.opens [OF opens(3)] opens(2)]) simp_all
next
  case (goes_back p)
  show ?thesis
    using assms(3) unfolding goes_back(1)
    by (intro acts_shown [OF assms(2) window_step.goes_back goes_back(2)]) simp_all
next
  case (types p s t)
  show ?thesis
    using assms(3) unfolding types(1)
    by (intro acts_shown [OF assms(2) window_step.types types(2)]) simp_all
next
  case (joins p w')
  show ?thesis
    using assms(3) unfolding joins(1)
    by (intro acts_shown [OF assms(2) window_step.asks_channel [OF joins(3)] joins(2)]) simp_all
next
  case (sends p w' d)
  show ?thesis
    using assms(3) unfolding sends(1)
    by (intro acts_shown [OF assms(2) window_step.sends [OF sends(4)] sends(2)]) simp_all
qed

lemma app_reach_shown:
  "app_reach rt eng fmt02 alloc calloc toInt db past g \<Longrightarrow> q \<in> set (pool (ns_server (fst g))) \<Longrightarrow>
    well_shown (desk g q, handled g q)"
proof (induction arbitrary: q rule: app_reach.induct)
  case (start ws)
  then show ?case by (simp add: app_start_def net_start_def Server_ctor_def)
next
  case (step g g')
  then show ?case using app_step_shown by blast
qed

section \<open>From window to window\<close>

lemma desk_shows:
  assumes "well_shown (desk g p, k)"
  shows "set (text_output (desk g p)) \<subseteq>
      chat_entry ` set (recorded (ns_users (fst g) p) (cl_current_room (ns_users (fst g) p)))"
    and "subseq (map chat_entry (recorded (ns_users (fst g) p) (cl_current_room (ns_users (fst g) p))))
      (text_output (desk g p) @
       map chat_entry (texts_of (cl_current_room (ns_users (fst g) p)) (pending (desk g p, k))))"
  using assms by (simp_all add: well_shown_def)

text \<open>What a history holds was heard.\<close>

lemma net_histories_heard:
  assumes "pb_runtime rt" and "sqlite_laws eng logins history intact" and "boost_format fmt02"
    and "1073741910 \<le> alloc" and "1073741910 \<le> calloc" and "starts_well rt logins history intact db past"
    and "net_reach rt eng fmt02 alloc calloc db past n" and "p \<in> set (pool (ns_server n))"
    and "m \<in> set (recorded (ns_users n p) r)"
  shows "\<exists>d. m = shown d \<and> td_room_id d = r \<and> heard (ns_spoken n) (ns_names n) d"
proof -
  have "net_ok rt logins history intact n"
    using net_reach_ok [OF assms(1-7)] by blast
  then obtain fs where "list_all (heard (ns_spoken n) (ns_names n)) fs" "shows_all (ns_users n p) fs"
    using net_okD(7) assms(8) unfolding client_link_def by (blast elim: hears_all.cases)
  then show ?thesis
    using assms(9) by (auto simp: shows_all_def recorded_def list_all_iff)
qed

text \<open>C3: from the window of the one who writes to the window of the one who reads: with any number of
  users at their windows, whatever they click and whatever the server and the sessions do
  meanwhile, a line in the chat of a user is a text that some user sent from a chat window that showed
  this very channel, under that user's login, or that the database held from the start, or the
  announcement that the user of a login typed in a first window joined or left the channel.
  Users type text that is not empty, is UTF-8 and needs no escaping in SQL, the database file is
  intact, and tasks and frames are whole steps (see the header of \<open>Spec2Isabelle\<close>).\<close>

theorem chat_lines_were_sent:
  assumes "pb_runtime rt" and "sqlite_laws eng logins history intact" and "boost_format fmt02"
    and "1073741910 \<le> alloc" and "1073741910 \<le> calloc" and "starts_well rt logins history intact db past"
    and "app_reach rt eng fmt02 alloc calloc toInt db past g" and "p \<in> set (pool (ns_server (fst g)))"
    and "line \<in> set (text_output (desk g p))"
  shows "\<exists>d. line = chat_entry (shown d) \<and> td_room_id d = cl_current_room (ns_users (fst g) p) \<and>
    (d \<in> ns_spoken (fst g) \<or>
     (\<exists>l \<in> ns_names (fst g). d = joined l (td_room_id d) \<or> d = left l (td_room_id d)))"
proof -
  let ?r = "cl_current_room (ns_users (fst g) p)"
  have "line \<in> chat_entry ` set (recorded (ns_users (fst g) p) ?r)"
    using desk_shows(1) [OF app_reach_shown [OF assms(7,8)]] assms(9) by blast
  then obtain m where m: "line = chat_entry m" "m \<in> set (recorded (ns_users (fst g) p) ?r)"
    by blast
  obtain d where "m = shown d" "td_room_id d = ?r" "heard (ns_spoken (fst g)) (ns_names (fst g)) d"
    using net_histories_heard [OF assms(1-6) app_net_reach [OF assms(7)] assms(8) m(2)] by blast
  with m(1) show ?thesis
    by (intro exI [of _ d]) (fastforce simp: heard_def joined_def left_def notice_def)
qed

text \<open>A run of the application throughout which the connection \<open>p\<close> is the member \<open>c\<close> of the room \<open>r\<close>.\<close>

inductive attends :: "pb_rt \<Rightarrow> 'h sqlite \<Rightarrow> (nat \<Rightarrow> string) \<Rightarrow> nat \<Rightarrow> nat \<Rightarrow> (string \<Rightarrow> int32) \<Rightarrow> int32 \<Rightarrow> int32 \<Rightarrow>
    nat \<Rightarrow> 'h net \<times> desks \<Rightarrow> 'h net \<times> desks \<Rightarrow> bool"
  for rt eng fmt02 alloc calloc toInt r c p g where
  comes: "subscribed (manager (ns_server (fst g))) r c = Some p \<Longrightarrow> attends rt eng fmt02 alloc calloc toInt r c p g g"
| remains: "\<lbrakk>attends rt eng fmt02 alloc calloc toInt r c p g g'; app_step rt eng fmt02 alloc calloc toInt g' g'';
      subscribed (manager (ns_server (fst g''))) r c = Some p\<rbrakk> \<Longrightarrow> attends rt eng fmt02 alloc calloc toInt r c p g g''"

lemma attends_stays:
  "attends rt eng fmt02 alloc calloc toInt r c p g g' \<Longrightarrow> stays rt eng fmt02 alloc calloc r c p (fst g) (fst g')"
proof (induction rule: attends.induct)
  case (remains g' g'')
  then show ?case
    using app_net_step [OF remains.hyps(2)] by (auto intro: is_still)
qed (rule is_member)

lemma attends_reach:
  "attends rt eng fmt02 alloc calloc toInt r c p g g' \<Longrightarrow> app_reach rt eng fmt02 alloc calloc toInt db past g \<Longrightarrow>
    app_reach rt eng fmt02 alloc calloc toInt db past g'"
  by (induction rule: attends.induct) (auto intro: app_reach.step)

lemma member_hears_on_screen:
  assumes "pb_runtime rt" and "sqlite_laws eng logins history intact" and "boost_format fmt02"
    and "1073741910 \<le> alloc" and "1073741910 \<le> calloc" and "starts_well rt logins history intact db past"
    and "app_reach rt eng fmt02 alloc calloc toInt db past g"
    and "attends rt eng fmt02 alloc calloc toInt r c p g g'"
    and "cl_reading (ns_users (fst g') p) = WaitHeader" and "ns_down (fst g') p = []"
    and "cn_queue (conns (ns_server (fst g')) p) = []"
    and "pending (desk g' p, handled g' p) = []" and "cl_current_room (ns_users (fst g') p) = r"
  shows "\<exists>ds. room_history (manager (ns_server (fst g'))) r = room_history (manager (ns_server (fst g))) r @ ds \<and>
    subseq (map (\<lambda>d. chat_entry (shown d)) ds) (text_output (desk g' p))"
proof -
  note stays = attends_stays [OF assms(8)] and reach = app_net_reach [OF assms(7)]
  obtain ds new where room: "room_history (manager (ns_server (fst g'))) r = room_history (manager (ns_server (fst g))) r @ ds"
    "recorded (ns_users (fst g') p) r = recorded (ns_users (fst g) p) r @ map shown new" "subseq ds new"
    using member_hears_the_room [OF assms(1-6) reach stays assms(9-11)] by (auto simp: recorded_def)
  have "net_ok rt logins history intact (fst g')"
    using net_reach_ok [OF assms(1-6) stays_reach [OF stays reach]] by blast
  then have "p \<in> set (pool (ns_server (fst g')))"
    using server_okD(5) stays_member [OF stays] net_okD(1) unfolding sound_server_def by blast
  then have shown: "subseq (map chat_entry (recorded (ns_users (fst g') p) r)) (text_output (desk g' p))"
    using desk_shows(2) [OF app_reach_shown [OF attends_reach [OF assms(8,7)]]] assms(12,13) by fastforce
  have "subseq (map (\<lambda>d. chat_entry (shown d)) ds) (map chat_entry (recorded (ns_users (fst g') p) r))"
    using subseq_map [OF room(3), of "\<lambda>d. chat_entry (shown d)"] by (simp add: room(2) comp_def list_emb_append2)
  then show ?thesis
    using room(1) subseq_order.order_trans [OF _ shown] by blast
qed

text \<open>C2: and nothing is missing: a user who stays in a room has, by the time nothing is queued for the
  session or in flight to it and the windows have handled its signals, every message that the room
  recorded in the meantime as a line of the chat, in the order of the room, whenever the chat shows
  this room.
  Users type text that is not empty, is UTF-8 and needs no escaping in SQL, the database file is
  intact, and tasks and frames are whole steps (see the header of \<open>Spec2Isabelle\<close>).\<close>

theorem member_reads_the_room:
  assumes "pb_runtime rt" and "sqlite_laws eng logins history intact" and "boost_format fmt02"
    and "1073741910 \<le> alloc" and "1073741910 \<le> calloc" and "starts_well rt logins history intact db past"
    and "app_reach rt eng fmt02 alloc calloc toInt db past g"
    and "attends rt eng fmt02 alloc calloc toInt r c p g g'"
    and "cl_reading (ns_users (fst g') p) = WaitHeader" and "ns_down (fst g') p = []"
    and "cn_queue (conns (ns_server (fst g')) p) = []"
    and "pending (desk g' p, handled g' p) = []" and "cl_current_room (ns_users (fst g') p) = r"
  shows "\<exists>ds. room_history (manager (ns_server (fst g'))) r = room_history (manager (ns_server (fst g))) r @ ds \<and>
    subseq (map (\<lambda>d. chat_entry (shown d)) ds) (text_output (desk g' p))"
  using assms by (rule member_hears_on_screen)

section \<open>What the users can do\<close>

text \<open>A row of the list opens the channel that it names.\<close>

lemma row_opens:
  assumes "ct_client w = Some c" and "histories_ok c" and "row < length (model_list w)"
    and "model_list w ! row = to_string_int (sint r)"
  shows "\<exists>w'. OnDoubleClicked row w = Inr w' \<and> ct_client w' = Some (open_channel r c) \<and>
    model_list w' = model_list w \<and> text_output w' = map chat_entry (recorded c r)"
proof -
  let ?c = "set_current_channel r c" and ?o = "open_channel r c"
  have hist: "client_get_history r ?c = (recorded c r, ?o)"
    by (simp add: prod_eq_iff open_channel_def recorded_def client_get_history_eq set_current_channel_def)
  have "histories_ok ?c"
    using assms(2) by (simp add: histories_ok_def set_current_channel_def)
  from client_get_history_ok(1) [OF this hist]
  have "print_all (recorded c r) (w\<lparr>text_output := [], ct_client := Some ?o\<rparr>) =
      Inr (w\<lparr>text_output := map chat_entry (recorded c r), ct_client := Some ?o\<rparr>)"
    by (subst print_all_same_channel [where c = ?o]) simp_all
  moreover have "set_current_channel r ?c = ?c" "cl_current_room ?c = r"
    by (simp_all add: set_current_channel_def)
  ultimately show ?thesis
    using assms(1,3,4) hist by (simp add: OnDoubleClicked_def get_channel_def go_channel_def upload_history_def)
qed

text \<open>The windows of a user can handle all that is pending.\<close>

lemma handles_pending:
  assumes "attends rt eng fmt02 alloc calloc toInt r c p g0 g" and "p \<in> set (pool (ns_server (fst g)))"
  shows "\<exists>g'. attends rt eng fmt02 alloc calloc toInt r c p g0 g' \<and> fst g' = fst g \<and>
    pending (desk g' p, handled g' p) = []"
  using assms
proof (induction "length (pending (desk g p, handled g p))" arbitrary: g)
  case (Suc m)
  then obtain sig sigs where sig: "pending (desk g p, handled g p) = sig # sigs"
    by (metis length_Suc_conv)
  obtain w where w: "on_signal sig (desk g p) = Inr w"
    by (cases sig) (simp_all add: on_signal_def print_text_def)
  note client = on_signal_client [OF w]
  let ?g = "acts p w (Suc (handled g p)) g"
  have same: "fst ?g = fst g"
    by (simp add: acts_def client)
  have "attends rt eng fmt02 alloc calloc toInt r c p g0 ?g"
    using attends.remains [OF Suc.prems(1) app_step.handles [OF Suc.prems(2) sig w]]
      stays_member [OF attends_stays [OF Suc.prems(1)]] by (simp add: same)
  moreover have "pending (desk ?g p, handled ?g p) = sigs"
    using sig client by (simp add: acts_desk drop_Suc tl_drop [symmetric])
  moreover have "m = length sigs"
    using Suc.hyps(2) unfolding sig by simp
  ultimately show ?case
    using Suc.hyps(1) [of ?g] Suc.prems(2) unfolding same by presburger
qed auto

section \<open>Concrete runs\<close>

definition demo_toInt :: "string \<Rightarrow> int32" where
  "demo_toInt s = (case stoi s of Inr i \<Rightarrow> i | Inl e \<Rightarrow> 0)"

abbreviation demo_app_step :: "mini net \<times> desks \<Rightarrow> mini net \<times> desks \<Rightarrow> bool" where
  "demo_app_step \<equiv> app_step std_rt mini_engine std_fmt02 2000000000 2000000000 demo_toInt"

abbreviation demo_app :: "mini net \<times> desks \<Rightarrow> bool" where
  "demo_app \<equiv> app_reach std_rt mini_engine std_fmt02 2000000000 2000000000 demo_toInt (mini_db [] []) {}"

text \<open>A run of the closed system in which nobody spoke is one of the application: what the users did
  can be done at windows whose lists show the channels that they opened.\<close>

lemma step_spoken:
  assumes "net_step rt eng fmt02 alloc calloc n n'"
  shows "ns_spoken n \<subseteq> ns_spoken n'"
  using assms
proof cases
  case delivered
  then show ?thesis by cases (simp_all add: client_acts_def server_acts_def take_up_def take_down_def)
next
  case broken
  then show ?thesis by cases (simp_all add: client_acts_def server_acts_def)
qed (auto simp: client_acts_def)

definition listed :: "int32 list \<Rightarrow> mini net \<times> desks \<Rightarrow> bool" where
  "listed rs g \<longleftrightarrow> (\<forall>p \<in> set (pool (ns_server (fst g))). \<forall>r \<in> set rs.
     to_string_int (sint r) \<in> set (model_list (desk g p)))"

lemma listed_acts:
  assumes "listed rs g" and "ct_client w = Some c" and "model_list w = model_list (desk g p)"
  shows "listed rs (acts p w k g)"
  using assms by (auto simp: listed_def acts_desk) (simp_all add: acts_def)

lemma presses_typed:
  assumes "login_frame rt (logon_field w) (password_field w) cmd = Inr frame"
    and "logon_field w \<noteq> []" and "password_field w \<noteq> []"
  shows "cmd \<in> {RegistrationRequest, AuthorisationRequest}"
    and "\<exists>w'. presses rt ci cheader cmd w = Inr w' \<and> model_list w' = model_list w"
  using assms
  by (auto simp: login_frame_def presses_def on_push_registration_clicked_def on_push_autorisation_clicked_def
      registration_def autorisation_def connect_to_server_def clear_login_def Let_def split: if_splits)

lemma lifts_dial:
  assumes "demo_app (n, ws)" and "listed rs (n, ws)" and "login_typed std_rt l pw"
    and "login_frame std_rt l pw cmd = Inr frame" and "length header = SIZE_HEADER" and "p = length (pool (ns_server n))"
  shows "\<exists>ws'. let n' = n\<lparr>ns_server := scan_acception False i header (ns_server n),
         ns_users := (ns_users n)(p := do_connect False frame (set_login l (Client_ctor ci cheader))),
         ns_up := (ns_up n)(p := frame), ns_down := (ns_down n)(p := []),
         ns_dialing := insert p (ns_dialing n), ns_names := insert l (ns_names n)\<rparr>
      in demo_app (n', ws') \<and> listed rs (n', ws')"
proof -
  let ?w = "demo_windows\<lparr>logon_field := l, password_field := pw, model_list := map (\<lambda>r. to_string_int (sint r)) rs\<rparr>"
  have typed: "login_typed std_rt (logon_field ?w) (password_field ?w)" "text_output ?w = []"
    "logon_field ?w \<noteq> []" "password_field ?w \<noteq> []"
    "login_frame std_rt (logon_field ?w) (password_field ?w) cmd = Inr frame"
    using assms(3,4) by (simp_all add: demo_windows_def login_typed_def)
  obtain w' where w': "presses std_rt ci cheader cmd ?w = Inr w'" "model_list w' = model_list ?w"
    using presses_typed(2) [OF typed(5,3,4)] by blast
  note cmd = presses_typed(1) [OF typed(5,3,4)]
  note client = presses_client(1) [OF w'(1) cmd typed(5,3,4)]
  have "demo_app_step (n, ws) (n\<lparr>ns_server := scan_acception False i header (ns_server n),
         ns_users := (ns_users n)(p := do_connect False frame (set_login l (Client_ctor ci cheader))),
         ns_up := (ns_up n)(p := frame), ns_down := (ns_down n)(p := []),
         ns_dialing := insert p (ns_dialing n), ns_names := insert l (ns_names n)\<rparr>, ws(p := (w', 0)))"
    using app_step.logs_in [OF cmd typed(2,1) w'(1) typed(5) assms(5), of p "(n, ws)"] assms(6)
    by (simp add: client)
  with assms(1) show ?thesis
    using assms(2,6) w'(2) by (intro exI [of _ "ws(p := (w', 0))"])
      (auto simp: listed_def desk_def accepted_simps intro: app_reach.step)
qed

lemma lifts_ask:
  assumes "demo_app (n, ws)" and "listed rs (n, ws)" and "p \<in> set (pool (ns_server n))"
  shows "\<exists>ws'. demo_app (client_acts p (client_change_room std_rt r (ns_users n p)) n, ws') \<and>
    listed rs (client_acts p (client_change_room std_rt r (ns_users n p)) n, ws')"
proof -
  let ?g = "(n, ws)" and ?n' = "client_acts p (client_change_room std_rt r (ns_users n p)) n"
  let ?w = "(desk ?g p)\<lparr>room_field := to_string_int (sint r), message_field := []\<rparr>"
  let ?g1 = "acts p ?w (handled ?g p) ?g"
  let ?w' = "?w\<lparr>room_field := [], ct_client := Some (client_change_room std_rt r (ns_users n p))\<rparr>"
  have g1: "demo_app ?g1" "fst ?g1 = n" "desk ?g1 p = ?w"
    using app_reach.step [OF assms(1) app_step.types [of p ?g]] assms(3) by (simp_all add: acts_def desk_def)
  have "to_string_int (sint r) \<noteq> []"
    by (simp add: to_string_int_def)
  then have "on_push_change_room_id_clicked std_rt demo_toInt (desk ?g1 p) = Inr ?w'"
    unfolding g1(3) by (simp add: on_push_change_room_id_clicked_def control_change_room_def demo_toInt_def Let_def desk_def)
  then have "demo_app (acts p ?w' (handled ?g1 p) ?g1)"
    using app_reach.step [OF g1(1) app_step.joins] assms(3) g1(2) by simp
  moreover have "listed rs ?g1"
    by (rule listed_acts [OF assms(2)]) simp_all
  then have "listed rs (acts p ?w' (handled ?g1 p) ?g1)"
    by (rule listed_acts) (simp_all add: g1(3))
  moreover have "fst (acts p ?w' (handled ?g1 p) ?g1) = ?n'"
    by (simp add: acts_def)
  ultimately show ?thesis by (metis prod.collapse)
qed

lemma opens_listed:
  assumes "demo_app g" and "listed rs g" and "p \<in> set (pool (ns_server (fst g)))" and "r \<in> set rs"
  shows "\<exists>g'. demo_app_step g g' \<and> listed rs g' \<and> fst g' = client_acts p (open_channel r (ns_users (fst g) p)) (fst g) \<and>
    text_output (desk g' p) = map chat_entry (recorded (ns_users (fst g) p) r)"
proof -
  have "to_string_int (sint r) \<in> set (model_list (desk g p))"
    using assms(2-4) by (simp add: listed_def)
  then obtain row where row: "row < length (model_list (desk g p))" "model_list (desk g p) ! row = to_string_int (sint r)"
    by (auto simp: in_set_conv_nth)
  have "histories_ok (ns_users (fst g) p)"
    using app_reach_shown [OF assms(1,3)] by (auto elim: well_shownE)
  then obtain w' where w': "OnDoubleClicked row (desk g p) = Inr w'" "ct_client w' = Some (open_channel r (ns_users (fst g) p))"
    "model_list w' = model_list (desk g p)" "text_output w' = map chat_entry (recorded (ns_users (fst g) p) r)"
    using row_opens [OF desk_client _ row] by blast
  let ?g' = "acts p w' (handled g p) g"
  have "demo_app_step g ?g'"
    by (rule app_step.opens [OF assms(3) w'(1)])
  moreover have "listed rs ?g'"
    by (rule listed_acts [OF assms(2) w'(2,3)])
  ultimately show ?thesis
    using w'(2,4) by (intro exI [of _ ?g']) (simp add: acts_desk, simp add: acts_def)
qed

lemma app_lifts:
  assumes "demo_reach n" and "ns_spoken n = {}"
  shows "\<exists>ws. demo_app (n, ws) \<and> listed rs (n, ws)"
  using assms
proof (induction arbitrary: rs)
  case start
  have "demo_app (net_start (mini_db [] []) {}, \<lambda>_. (demo_windows, 0))"
    using app_reach.start by (simp add: app_start_def)
  moreover have "listed rs (net_start (mini_db [] []) {}, \<lambda>_. (demo_windows, 0))"
    by (simp add: listed_def net_start_def Server_ctor_def)
  ultimately show ?case by blast
next
  case (step n n')
  then have "ns_spoken n = {}"
    using step_spoken by blast
  note IH = step.IH [OF this]
  from step.hyps(2) show ?case
  proof cases
    case delivered
    obtain ws where "demo_app (n, ws)" "listed rs (n, ws)"
      using IH by blast
    then show ?thesis
      using app_reach.step [OF _ app_step.delivered, of _ _ _ _ _ _ _ _ "(n, ws)"] calm_pool(1) [OF delivered] delivered
      by (intro exI [of _ ws]) (simp add: listed_def desk_def)
  next
    case broken
    obtain ws where "demo_app (n, ws)" "listed rs (n, ws)"
      using IH by blast
    then show ?thesis
      using app_reach.step [OF _ app_step.broken, of _ _ _ _ _ _ _ _ "(n, ws)"] calm_pool(2) [OF broken] broken
      by (intro exI [of _ ws]) (simp add: listed_def desk_def)
  next
    case (dial l pw cmd frame header p i ci cheader)
    then show ?thesis
      using IH [of rs] lifts_dial [OF _ _ dial(2-5)] by (auto simp: Let_def)
  next
    case (asks p r)
    then show ?thesis
      using IH [of rs] lifts_ask by blast
  next
    case (says p t d r)
    with step.prems show ?thesis by simp
  next
    case (browses p r)
    obtain ws where ws: "demo_app (n, ws)" "listed (r # rs) (n, ws)"
      using IH by blast
    obtain g where "demo_app_step (n, ws) g" "listed (r # rs) g" "fst g = n'"
      using opens_listed [OF ws, of p r] browses by auto
    then have "demo_app (n', snd g)" "listed rs (n', snd g)"
      using app_reach.step [OF ws(1), of g] by (auto simp: listed_def)
    then show ?thesis by blast
  qed
qed

text \<open>She opens the channel that she has joined: its announcement is on the screen.\<close>

theorem chat_lines_were_sent_witness:
  "\<exists>g d. demo_app g \<and> text_output (desk g 0) \<noteq> [] \<and> hd (text_output (desk g 0)) = chat_entry (shown d) \<and> td_room_id d = 7 \<and>
    (d \<in> ns_spoken (fst g) \<or> (\<exists>l \<in> ns_names (fst g). d = joined l 7 \<or> d = left l 7))"
proof -
  have room: "(1073741910 :: nat) \<le> 2000000000" by simp
  obtain n d where n: "demo_reach n" "ns_spoken n = {}" "pool (ns_server n) = [0]"
    "shown d \<in> set (fst (client_get_history 7 (ns_users n 0)))"
    using demo_session by blast
  obtain ws where ws: "demo_app (n, ws)" "listed [7] (n, ws)"
    using app_lifts [OF n(1,2)] by blast
  obtain g where g: "demo_app_step (n, ws) g" "fst g = client_acts 0 (open_channel 7 (ns_users n 0)) n"
    "text_output (desk g 0) = map chat_entry (recorded (ns_users n 0) 7)"
    using opens_listed [OF ws, of 0 7] n(3) by auto
  have reach: "demo_app g" and pool: "0 \<in> set (pool (ns_server (fst g)))" and line: "text_output (desk g 0) \<noteq> []"
    using app_reach.step [OF ws(1) g(1)] g(2,3) n(3,4) by (auto simp: recorded_def)
  obtain d' where "hd (text_output (desk g 0)) = chat_entry (shown d')" "td_room_id d' = cl_current_room (ns_users (fst g) 0)"
    "d' \<in> ns_spoken (fst g) \<or> (\<exists>l \<in> ns_names (fst g). d' = joined l (td_room_id d') \<or> d' = left l (td_room_id d'))"
    using chat_lines_were_sent [OF std.pb_runtime_axioms mini.sqlite_laws_axioms std_format.boost_format_axioms room room
        demo_starts_well reach pool hd_in_set [OF line]] by blast
  with reach line g(2) show ?thesis
    by (intro exI [of _ g] exI [of _ d']) simp
qed

text \<open>She types a line into this chat and sends it; it travels to the server and back, and the window
  handles what is pending.\<close>

abbreviation demo_attends :: "int32 \<Rightarrow> mini net \<times> desks \<Rightarrow> mini net \<times> desks \<Rightarrow> bool" where
  "demo_attends c \<equiv> attends std_rt mini_engine std_fmt02 2000000000 2000000000 demo_toInt 7 c 0"

lemma quiet_opens:
  assumes "quiet c n"
  shows "quiet c (client_acts 0 (open_channel 7 (ns_users n 0)) n)"
proof -
  have "ns_up (client_acts 0 (open_channel 7 (ns_users n 0)) n) 0 = ns_up n 0"
    using client_acts_up [of "open_channel 7 (ns_users n 0)" n 0 "[]"] by simp
  then show ?thesis
    using assms by (simp add: quiet_def client_acts_writing)
qed

lemma session_moves_room: "session_moves rt calloc c c' \<Longrightarrow> cl_current_room c' = cl_current_room c"
  unfolding session_moves_def by (auto dest: read_adds)

lemma demo_opens:
  "\<exists>g c. demo_app g \<and> quiet c (fst g) \<and> cl_current_room (ns_users (fst g) 0) = 7"
proof -
  obtain n c where n: "demo_reach n" "ns_spoken n = {}" "quiet c n"
    using demo_quiet by blast
  obtain ws where ws: "demo_app (n, ws)" "listed [7] (n, ws)"
    using app_lifts [OF n(1,2)] by blast
  obtain g where g: "demo_app_step (n, ws) g" "fst g = client_acts 0 (open_channel 7 (ns_users n 0)) n"
    using opens_listed [OF ws, of 0 7] n(3) by (auto simp: quiet_def)
  then show ?thesis
    using app_reach.step [OF ws(1) g(1)] quiet_opens [OF n(3)] by (intro exI [of _ g] exI [of _ c]) simp
qed

lemma demo_sends:
  assumes "demo_app g" and "quiet c (fst g)" and "cl_current_room (ns_users (fst g) 0) = 7"
  shows "\<exists>g'. demo_attends c g g' \<and> fst g' = demo_said (fst g)"
proof -
  let ?w = "(desk g 0)\<lparr>room_field := [], message_field := ''hi''\<rparr>"
  let ?g1 = "acts 0 ?w (handled g 0) g"
  let ?c = "send_msg_to_server std_rt ''hi'' 7 (ns_users (fst g) 0)"
  let ?w' = "?w\<lparr>ct_client := Some ?c, message_field := []\<rparr>"
  let ?g2 = "acts 0 ?w' (handled ?g1 0) ((fst ?g1)\<lparr>ns_spoken := insert (demo_line (fst ?g1)) (ns_spoken (fst ?g1))\<rparr>, snd ?g1)"
  have pool: "0 \<in> set (pool (ns_server (fst g)))"
    using assms(2) by (simp add: quiet_def)
  have g1: "demo_app_step g ?g1" "fst ?g1 = fst g" "desk ?g1 0 = ?w"
    using app_step.types [OF pool] by (simp_all add: acts_def desk_def)
  have "on_push_send_clicked std_rt (desk ?g1 0) = Inr ?w'"
    unfolding g1(3) using assms(3) by (simp add: on_push_send_clicked_def get_text_from_gui_def Let_def)
  then have step: "demo_app_step ?g1 ?g2"
    using demo_hi_typed pool assms(3) g1(2,3) by (intro app_step.sends) (simp_all add: demo_line_def)
  have said: "fst ?g2 = demo_said (fst g)"
    by (simp add: acts_def demo_said_def)
  note member = quiet_member [OF assms(2)]
  have "demo_attends c g ?g1"
    by (rule attends.remains [OF attends.comes g1(1)]) (simp_all only: g1(2) member)
  moreover have "subscribed (manager (ns_server (fst ?g2))) 7 c = Some 0"
    unfolding said using member by (simp add: demo_said_def)
  ultimately have "demo_attends c g ?g2"
    by (rule attends.remains [OF _ step])
  with said show ?thesis by blast
qed

lemma demo_reads:
  "\<exists>g g' c. demo_app g \<and> demo_attends c g g' \<and> cl_reading (ns_users (fst g') 0) = WaitHeader \<and> ns_down (fst g') 0 = [] \<and>
    cn_queue (conns (ns_server (fst g')) 0) = [] \<and> pending (desk g' 0, handled g' 0) = [] \<and>
    cl_current_room (ns_users (fst g') 0) = 7 \<and>
    room_history (manager (ns_server (fst g'))) 7 = room_history (manager (ns_server (fst g))) 7 @ [demo_line (fst g)]"
proof -
  obtain g c where g: "demo_app g" "quiet c (fst g)" "cl_current_room (ns_users (fst g) 0) = 7"
    using demo_opens by blast
  obtain g1 where g1: "demo_attends c g g1" "fst g1 = demo_said (fst g)"
    using demo_sends [OF g] by blast
  note member = quiet_member [OF g(2)]
  have on: "demo_attends c g (m', snd g1) \<and> cl_current_room (ns_users m' 0) = 7 \<and> pool (ns_server m') = [0]"
    if "demo_attends c g (m, snd g1) \<and> cl_current_room (ns_users m 0) = 7 \<and> pool (ns_server m) = [0]"
      "demo_delivers m m'" "subscribed (manager (ns_server m')) 7 c = Some 0" for m m'
    using that app_step.delivered [of _ _ _ _ _ "(m, snd g1)" m'] calm_pool(1) [OF that(2)]
      session_moves_room [OF delivers_sessions [OF that(2)], of 0] by (auto intro: attends.remains)
  obtain n2 n3 where n3: "demo_delivers (demo_said (fst g)) n2" "demo_delivers n2 n3"
    "manager (ns_server n2) = manager (ns_server (fst g))" "manager (ns_server n3) = manager (ns_server (fst g))"
    "posted c (demo_line (fst g)) n3"
    using demo_says [OF app_net_reach [OF g(1)] g(2)] by blast
  obtain n4 n5 n6 n7 where n7: "demo_delivers n3 n4" "demo_delivers n4 n5" "demo_delivers n5 n6" "demo_delivers n6 n7"
    "\<forall>m \<in> {n4, n5, n6, n7}. subscribed (manager (ns_server m)) 7 c = Some 0"
    "cl_reading (ns_users n7 0) = WaitHeader" "ns_down n7 0 = []" "cn_queue (conns (ns_server n7) 0) = []"
    "room_history (manager (ns_server n7)) 7 = room_history (manager (ns_server n3)) 7 @ [demo_line (fst g)]"
    using demo_answers [OF n3(5)] by blast
  have "cl_current_room (ns_users (demo_said (fst g)) 0) = 7"
    using g(3) by (simp add: demo_said_def send_msg_to_server_def add_msg_to_send_def start_send_msgs_def Let_def)
  moreover have "pool (ns_server (demo_said (fst g))) = [0]"
    using g(2) by (simp add: demo_said_def quiet_def)
  ultimately have "demo_attends c g (demo_said (fst g), snd g1) \<and> cl_current_room (ns_users (demo_said (fst g)) 0) = 7 \<and>
      pool (ns_server (demo_said (fst g))) = [0]"
    using g1 by (metis prod.collapse)
  from on [OF on [OF this n3(1)] n3(2)] have "demo_attends c g (n3, snd g1) \<and> cl_current_room (ns_users n3 0) = 7 \<and>
      pool (ns_server n3) = [0]"
    using n3(3,4) member by simp
  from on [OF on [OF on [OF on [OF this n7(1)] n7(2)] n7(3)] n7(4)]
  have n7': "demo_attends c g (n7, snd g1)" "cl_current_room (ns_users n7 0) = 7" "pool (ns_server n7) = [0]"
    using n7(5) by simp_all
  obtain g' where g': "demo_attends c g g'" "fst g' = n7" "pending (desk g' 0, handled g' 0) = []"
    using handles_pending [OF n7'(1)] n7'(3) by auto
  with g(1) n7(6-9) n7'(2) n3(4) show ?thesis
    by (intro exI [of _ g] exI [of _ g'] exI [of _ c]) simp
qed

theorem member_reads_the_room_witness:
  "\<exists>g g' c. demo_app g \<and> demo_attends c g g' \<and>
    chat_entry (shown (demo_line (fst g))) \<in> set (text_output (desk g' 0))"
proof -
  have room: "(1073741910 :: nat) \<le> 2000000000" by simp
  obtain g g' c where g: "demo_app g" "demo_attends c g g'" "cl_reading (ns_users (fst g') 0) = WaitHeader" "ns_down (fst g') 0 = []"
    "cn_queue (conns (ns_server (fst g')) 0) = []" "pending (desk g' 0, handled g' 0) = []"
    "cl_current_room (ns_users (fst g') 0) = 7"
    "room_history (manager (ns_server (fst g'))) 7 = room_history (manager (ns_server (fst g))) 7 @ [demo_line (fst g)]"
    using demo_reads by blast
  obtain ds where "room_history (manager (ns_server (fst g'))) 7 = room_history (manager (ns_server (fst g))) 7 @ ds"
    "subseq (map (\<lambda>d. chat_entry (shown d)) ds) (text_output (desk g' 0))"
    using member_reads_the_room [OF std.pb_runtime_axioms mini.sqlite_laws_axioms std_format.boost_format_axioms
        room room demo_starts_well g(1-7)] by blast
  with g(8) have "chat_entry (shown (demo_line (fst g))) \<in> set (text_output (desk g' 0))"
    by (auto dest: list_emb_set)
  with g(1,2) show ?thesis by blast
qed

end
