(* ===== verification/Calm.thy ===== *)
theory Calm
  imports Application
begin

text \<open>
  The application left alone: nobody clicks or types and nothing fails, but requests, answers and
  messages that are under way are delivered and the windows handle their signals. It comes to rest
  whatever the order of these steps, no member loses a room on the way, no session ends but by a
  refusal, and what the rooms recorded is then on the screens.
\<close>

section \<open>Steps\<close>

inductive calm_step ::
  "pb_rt \<Rightarrow> 'h sqlite \<Rightarrow> (nat \<Rightarrow> string) \<Rightarrow> nat \<Rightarrow> nat \<Rightarrow> 'h net \<times> desks \<Rightarrow> 'h net \<times> desks \<Rightarrow> bool"
  for rt eng fmt02 alloc calloc g where
  arrives: "delivers rt eng fmt02 alloc calloc (fst g) n' \<Longrightarrow> calm_step rt eng fmt02 alloc calloc g (n', snd g)"
| prints: "\<lbrakk>p \<in> set (pool (ns_server (fst g))); pending (desk g p, handled g p) = sig # sigs;
      on_signal sig (desk g p) = Inr w'\<rbrakk> \<Longrightarrow>
    calm_step rt eng fmt02 alloc calloc g (acts p w' (Suc (handled g p)) g)"

definition app_at_rest :: "'h net \<times> desks \<Rightarrow> bool" where
  "app_at_rest g \<longleftrightarrow> at_rest (fst g) \<and>
     list_all (\<lambda>p. pending (desk g p, handled g p) = []) (pool (ns_server (fst g)))"

lemma calm_app_step:
  "calm_step rt eng fmt02 alloc calloc g g' \<Longrightarrow> app_step rt eng fmt02 alloc calloc toInt g g'"
  by (induction rule: calm_step.induct) (auto intro: app_step.delivered app_step.handles)

text \<open>Handling a signal never fails and leaves the system below alone.\<close>

lemma signal_handled: "\<exists>w'. on_signal sig w = Inr w'" if "ct_client w = Some c"
  using that by (cases sig) (simp_all add: on_signal_def print_text_def)

lemma handling:
  assumes "pending (desk g p, handled g p) = sig # sigs" and "on_signal sig (desk g p) = Inr w"
  defines "g' \<equiv> acts p w (Suc (handled g p)) g"
  shows "fst g' = fst g" and "pending (desk g' p, handled g' p) = sigs"
    and "q \<noteq> p \<Longrightarrow> pending (desk g' q, handled g' q) = pending (desk g q, handled g q)"
  using assms(1) on_signal_client [OF assms(2)]
  unfolding g'_def by (simp_all add: acts_def desk_def handled_def drop_Suc tl_drop [symmetric])

section \<open>Rest\<close>

definition signals_left :: "'h net \<times> desks \<Rightarrow> nat" where
  "signals_left g = on_pool (\<lambda>p. length (pending (desk g p, handled g p))) (fst g)"

definition calm_order :: "(('h net \<times> desks) \<times> ('h net \<times> desks)) set" where
  "calm_order = inv_image (measures work_left <*lex*> less_than) (\<lambda>g. (fst g, signals_left g))"

lemma calm_order_wf: "wf calm_order"
  by (auto simp: calm_order_def intro!: wf_inv_image wf_lex_prod)

lemma calm_less:
  assumes "pb_runtime rt" and "sqlite_laws eng logins history intact" and "boost_format fmt02"
    and "1073741910 \<le> alloc" and "1073741910 \<le> calloc" and "net_ok rt logins history intact (fst g)"
    and "calm_step rt eng fmt02 alloc calloc g g'"
  shows "(g', g) \<in> calm_order"
  using assms(7)
proof cases
  case (arrives n')
  then show ?thesis
    using delivers_less [OF assms(1-6)] by (simp add: calm_order_def)
next
  case (prints p sig sigs w')
  note g' = handling [OF prints(3,4)]
  have "signals_left g' < signals_left g"
    unfolding signals_left_def prints(1)
    by (rule on_pool_less [OF prints(2)]) (use g' prints(3) in auto)
  then show ?thesis
    using g'(1) by (simp add: calm_order_def prints(1))
qed

lemma app_rest_or_progress:
  assumes "pb_runtime rt" and "sqlite_laws eng logins history intact" and "boost_format fmt02"
    and "1073741910 \<le> alloc" and "1073741910 \<le> calloc" and "net_ok rt logins history intact (fst g)"
  shows "app_at_rest g \<or> (\<exists>g'. calm_step rt eng fmt02 alloc calloc g g')"
proof (cases "at_rest (fst g)")
  case True
  show ?thesis
  proof (cases "app_at_rest g")
    case False
    then obtain p where p: "p \<in> set (pool (ns_server (fst g)))" "pending (desk g p, handled g p) \<noteq> []"
      using True by (auto simp: app_at_rest_def list_all_iff)
    then obtain sig sigs where sig: "pending (desk g p, handled g p) = sig # sigs"
      by (meson neq_Nil_conv)
    obtain w' where "on_signal sig (desk g p) = Inr w'"
      using signal_handled [OF desk_client] by blast
    then show ?thesis
      using calm_step.prints [OF p(1) sig] by blast
  qed simp
next
  case False
  then show ?thesis
    using rest_or_progress [OF assms] calm_step.arrives by blast
qed

lemma app_rest_final:
  assumes "app_at_rest g"
  shows "\<not> calm_step rt eng fmt02 alloc calloc g g'"
proof
  assume "calm_step rt eng fmt02 alloc calloc g g'"
  then show False
    using assms rest_is_final [of "fst g" rt eng fmt02 alloc calloc] by cases (auto simp: app_at_rest_def list_all_iff)
qed

section \<open>Members stay\<close>

lemma task_keeps_member:
  assumes "sound_task rt S N t" and "manager_ok (manager s)" and "run_task rt eng fmt02 t s = Inr s'"
    and "subscribed (manager s) r c = Some p"
  shows "subscribed (manager s') r c = Some p"
proof (cases t)
  case (DoAutorisation q req)
  then show ?thesis
    using assms by (auto simp: do_autorisation_def post_def Let_def elim!: asked_inputE split: option.splits)
next
  case (DoRegistration q req)
  then show ?thesis
    using assms by (auto simp: do_registration_def register_login_def generate_client_id_def post_def Let_def
        elim!: asked_regE split: option.splits if_splits)
next
  case (DoJoinRoom q req)
  then obtain room where req: "req = join_room_request room"
    using assms(1) by (auto elim: asked_joinE)
  then obtain b db m w where j: "Manager_join (connection_subscriber rt) eng q room (database s) (manager s, conns s) = Inr (b, db, m, w)"
    and s': "manager s' = m"
    using assms(3) DoJoinRoom by (auto simp: do_join_room_def join_channel_def post_def Let_def)
  show ?thesis
    using conn.join_membership(2) [OF assms(2) j] assms(4) by (simp add: s')
next
  case (DoTextMsg q req)
  then show ?thesis
    using assms by (auto simp: do_text_msg_def deliver_and_save_def split_beta Let_def conn.send_simps
        elim!: asked_textE split: option.splits)
qed (use assms in auto)

lemma delivery_keeps_member:
  assumes "net_ok rt logins history intact n" and "delivers rt eng fmt02 alloc calloc n n'"
    and "subscribed (manager (ns_server n)) r c = Some p"
  shows "subscribed (manager (ns_server n')) r c = Some p"
  using assms(2)
proof cases
  case (header_comes q block rest s)
  then have "manager s = manager (ns_server n)"
    by (auto simp: do_parse_pb_header_def Let_def split_beta split: if_splits)
  then show ?thesis
    using assms(3) by (simp add: header_comes(1))
next
  case (body_comes q h data rest)
  then show ?thesis
    using assms(3) by (simp add: body_handler_untouched)
next
  case (works before t after s)
  have "sound_task rt (ns_spoken n) (ns_names n) t" "manager_ok (manager (ns_server n))"
    using net_okD(1) [OF assms(1)] works(2) by (auto simp: sound_server_def server_ok_def)
  then show ?thesis
    using task_keeps_member [OF _ _ works(3)] assms(3) by (simp add: works(1))
qed (use assms(3) in \<open>auto simp: queue_write_handler_def\<close>)

text \<open>No write of this connection has failed with frames left in its queue: deliveries keep that so.\<close>

definition flows :: "connection \<Rightarrow> bool" where
  "flows c \<longleftrightarrow> (cn_queue c \<noteq> [] \<longrightarrow> cn_writing c)"

lemma flows_simps [simp]:
  "flows (add_msg_send_queue f c) \<longleftrightarrow> flows c \<or> cn_queue c = []" "flows (queue_written c)"
  "flows (start_direct f c) \<longleftrightarrow> flows c"
  by (auto simp: flows_def add_msg_send_queue_def queue_written_def sending_msgs_to_client_def start_direct_def Let_def)

lemma flows_update [simp]:
  "flows (c\<lparr>cn_client_id := i\<rparr>) = flows c" "flows (c\<lparr>cn_login := l\<rparr>) = flows c" "flows (c\<lparr>cn_password := l\<rparr>) = flows c"
  "flows (c\<lparr>cn_buffer_header := b\<rparr>) = flows c" "flows (c\<lparr>cn_buffer_msg := b\<rparr>) = flows c"
  "flows (c\<lparr>cn_reading := rd\<rparr>) = flows c" "flows (async_read_pb_header c) = flows c"
  by (simp_all add: flows_def async_read_pb_header_def)

lemma flows_kept: "kept_by_calls (connection_subscriber rt) (\<lambda>w. flows (w p))"
  by (auto simp: kept_by_calls_def connection_subscriber_def send_msg_to_client_def) (auto simp: flows_def)

lemma task_keeps_flow:
  assumes "sound_task rt S N t" and "run_task rt eng fmt02 t s = Inr s'" and "flows (conns s p)"
  shows "flows (conns s' p)"
proof (cases t)
  case (DoAutorisation q req)
  then show ?thesis
    using assms by (auto simp: do_autorisation_def post_def Let_def elim!: asked_inputE split: option.splits)
next
  case (DoRegistration q req)
  then show ?thesis
    using assms by (auto simp: do_registration_def register_login_def generate_client_id_def post_def Let_def
        elim!: asked_regE split: option.splits if_splits)
next
  case (DoJoinRoom q req)
  then obtain room where req: "req = join_room_request room"
    using assms(1) by (auto elim: asked_joinE)
  then obtain b db m w where j: "Manager_join (connection_subscriber rt) eng q room (database s) (manager s, conns s) = Inr (b, db, m, w)"
    and s': "conns s' = w"
    using assms(2) DoJoinRoom by (auto simp: do_join_room_def join_channel_def post_def Let_def)
  show ?thesis
    using kept_join [OF flows_kept [of rt p] _ j] assms(3) by (simp add: s')
next
  case (DoTextMsg q req)
  then show ?thesis
    using assms kept_send [OF flows_kept [of rt p], of "conns s"] by (auto simp: do_text_msg_def deliver_and_save_def split_beta Let_def
        elim!: asked_textE split: option.splits)
qed (use assms in \<open>auto simp: send_auto_response_def send_reg_response_def send_join_room_response_def\<close>)

lemma delivery_keeps_flow:
  assumes "net_ok rt logins history intact n" and "delivers rt eng fmt02 alloc calloc n n'"
    and "flows (conns (ns_server n) p)"
  shows "flows (conns (ns_server n') p)"
  using assms(2)
proof cases
  case (header_comes q block rest s)
  then have "flows (conns s p)"
    using assms(3) by (auto simp: do_parse_pb_header_def Let_def split_beta split: if_splits)
  then show ?thesis by (simp add: header_comes(1))
next
  case (body_comes q h data rest)
  have "flows (conns (body_handler rt h q data s) p) = flows (conns s p)" for s :: "'a server"
    by (auto simp: body_handler_def process_msg_def post_def Let_def split_beta split: TypeCommand.split)
  then show ?thesis
    using assms(3) by (simp add: body_comes(1))
next
  case (works before t after s)
  have "sound_task rt (ns_spoken n) (ns_names n) t"
    using net_okD(1) [OF assms(1)] works(2) by (auto simp: sound_server_def)
  then show ?thesis
    using task_keeps_flow [OF _ works(3)] assms(3) by (simp add: works(1))
qed (use assms(3) in \<open>auto simp: queue_write_handler_def\<close>)

section \<open>Sessions that end\<close>

text \<open>The answers after which a client closes its session.\<close>

inductive refusal :: "pb_rt \<Rightarrow> sent \<Rightarrow> bool" for rt where
  "refusal rt (Direct (input_frame rt (-1)))"
| "refusal rt (Direct (reg_frame rt (-1)))"
| "refusal rt (Direct (join_room_frame rt r False))"

lemma body_closes:
  assumes "pb_runtime rt" and "utters rt S N w a m" and "\<And>d. heard S N d \<Longrightarrow> readable rt d"
    and "reading_for a = cl_reading c"
    and "read_completes rt calloc (Some (drop SIZE_HEADER (sent_bytes w))) c = Inr c'" and "cl_reading c' = Idle"
  shows "refusal rt w"
proof -
  have w: "sent_out rt S N a m" "sent_bytes w = response_bytes rt (a, m)"
    using utters_sent [OF assms(2)] by auto
  have parse: "parse_response rt (body_read (drop SIZE_HEADER (sent_bytes w)) c) = (True, m)"
    using response_bytes_read(1) [OF assms(1) w(1) assms(3)] by (auto simp: parse_response_def body_read_def w(2))
  note read = read_completes_def reading_for_def client_handlers
  show ?thesis
    using assms(2)
  proof cases
    case (utters_text d)
    then show ?thesis
      using assms(4-6) parse by (auto simp: read)
  next
    case utters_answer
    show ?thesis
      using utters_answer(2)
    proof cases
      case (1 i)
      then have "i = -1"
        using assms(4-6) parse by (auto simp: read split: if_splits)
      then show ?thesis
        using utters_answer(1) 1 refusal.intros(1) by (simp add: server_frame_bytes)
    next
      case (2 i)
      then have "i = -1"
        using assms(4-6) parse by (auto simp: read split: if_splits)
      then show ?thesis
        using utters_answer(1) 2 refusal.intros(2) by (simp add: server_frame_bytes)
    next
      case (3 r flag)
      then have "\<not> flag"
        using assms(4-6) parse by (auto simp: read split: if_splits)
      then show ?thesis
        using utters_answer(1) 3 refusal.intros(3) by (simp add: server_frame_bytes)
    qed
  qed
qed

lemma hears_closes:
  assumes "pb_runtime rt" and "1073741910 \<le> calloc"
    and "net_ok rt logins history intact n" and "p \<in> set (pool (ns_server n))"
    and "cl_reading (ns_users n p) \<noteq> Idle" and "ns_down n p = block @ rest"
    and "length block = client_wants (ns_users n p)"
    and "read_completes rt calloc (Some block) (ns_users n p) = Inr c" and "cl_reading c = Idle"
  shows "\<exists>w \<in> set (cn_started (conns (ns_server n) p)). refusal rt w"
proof -
  let ?S = "ns_spoken n" and ?N = "ns_names n" and ?c = "ns_users n p"
  note ok = net_okD [OF assms(3)]
  have link: "list_all (uttered rt ?S ?N) (cn_started (conns (ns_server n) p))"
    "hears_all rt ?S ?N (p \<in> ns_dialing n) ?c (cn_started (conns (ns_server n) p)) (block @ rest)"
    using ok(7) [OF assms(4)] assms(6) by (auto simp: client_link_def)
  from link(2) show ?thesis
  proof cases
    case (hears_allI past es coming)
    have uttered: "\<exists>a m. utters rt ?S ?N w a m" if "w \<in> set coming" for w
      using link(1) hears_allI(1) that by (auto simp: list_all_iff uttered_def)
    show ?thesis
    proof (cases "cl_reading ?c = WaitHeader")
      case True
      have coming: "concat (map sent_bytes coming) = block @ rest"
        using hears_allI(5) True by (simp add: awaits_def)
      have "\<forall>f \<in> set (map sent_bytes coming). SIZE_HEADER \<le> length f"
        using uttered utters_sent response_bytes_read(2) [OF assms(1) _ ok(4)] by fastforce
      then obtain w coming' where w: "coming = w # coming'" "block = take SIZE_HEADER (sent_bytes w)"
        using head_of_stream [OF coming] assms(7) True by (auto simp: SIZE_HEADER_eq client_wants_def)
      obtain a m where m: "utters rt ?S ?N w a m"
        using uttered [of w] w(1) by auto
      have "cl_reading c = reading_for a"
        using client_head [OF assms(1) _ ok(4) assms(2) True] utters_sent [OF m] w(2) assms(8) by fastforce
      moreover have "reading_for a \<noteq> Idle"
        using m by cases (auto simp: reading_for_def elim: answered.cases)
      ultimately show ?thesis
        using assms(9) by simp
    next
      case False
      then have "body_link rt ?S ?N ?c coming (block @ rest)"
        using assms(5) hears_allI(5) by (simp add: awaits_def)
      then show ?thesis
      proof cases
        case (body_linkI w a m body coming')
        then have "block = drop SIZE_HEADER (sent_bytes w)"
          using assms(7) False by (simp add: client_wants_def)
        then show ?thesis
          using body_closes [OF assms(1) body_linkI(3) ok(4) body_linkI(4)] assms(8,9) hears_allI(1) body_linkI(1) by auto
      qed
    qed
  qed
qed

lemma deliveries_add_writes:
  assumes "sqlite_laws eng logins history intact" and "boost_format fmt02"
    and "net_ok rt logins history intact n" and "delivers rt eng fmt02 alloc calloc n n'"
  shows "set (cn_started (conns (ns_server n) p)) \<subseteq> set (cn_started (conns (ns_server n') p))"
  using assms(4)
proof cases
  case (header_comes q block rest s)
  then have "cn_started (conns s p) = cn_started (conns (ns_server n) p)"
    by (auto simp: do_parse_pb_header_def Let_def split_beta async_read_pb_header_def split: if_splits)
  then show ?thesis by (simp add: header_comes(1))
next
  case (body_comes q h data rest)
  have "cn_started (conns (body_handler rt h q data s) p) = cn_started (conns s p)" for s :: "'a server"
    by (auto simp: body_handler_def process_msg_def post_def async_read_pb_header_def Let_def split_beta
        split: TypeCommand.split)
  then show ?thesis by (simp add: body_comes(1))
next
  case (works before t after s)
  then have "goes_on rt (conns (ns_server n) p) (conns s p)"
    using net_ok_works [OF assms(1-3) works(2)] by auto
  then show ?thesis
    by (auto simp: works(1) goes_on_def)
qed (auto simp: queue_write_handler_def queue_written_def sending_msgs_to_client_def Let_def)

text \<open>The session of a client listens unless the client was refused.\<close>

definition listens :: "pb_rt \<Rightarrow> nat \<Rightarrow> 'h net \<Rightarrow> bool" where
  "listens rt p n \<longleftrightarrow> cl_reading (ns_users n p) \<noteq> Idle \<or>
     list_ex (refusal rt) (cn_started (conns (ns_server n) p))"

lemma delivery_listens:
  assumes "pb_runtime rt" and "sqlite_laws eng logins history intact" and "boost_format fmt02"
    and "1073741910 \<le> calloc" and "net_ok rt logins history intact n"
    and "delivers rt eng fmt02 alloc calloc n n'" and "listens rt p n"
  shows "listens rt p n'"
proof -
  note grows = deliveries_add_writes [OF assms(2,3,5,6), of p]
  have "cl_reading (ns_users n' p) \<noteq> Idle \<or> list_ex (refusal rt) (cn_started (conns (ns_server n) p))"
    using assms(6)
  proof cases
    case (dialed q)
    then show ?thesis
      using assms(7) by (auto simp: listens_def client_acts_def login_written_def client_async_read_pb_header_def)
  next
    case (wrote q)
    then show ?thesis
      using assms(7) by (auto simp: listens_def client_acts_def msg_write_handler_def msg_written_def start_send_msgs_def Let_def)
  next
    case (hears q block rest c)
    show ?thesis
    proof (cases "q = p \<and> cl_reading c = Idle")
      case True
      then show ?thesis
        using hears_closes [OF assms(1,4,5) hears(2-6)] by (auto simp: list_ex_iff)
    next
      case False
      then show ?thesis
        using assms(7) by (auto simp: hears(1) listens_def client_acts_def take_down_def)
    qed
  qed (use assms(7) in \<open>auto simp: listens_def server_acts_def take_up_def\<close>)
  then show ?thesis
    using grows by (auto simp: listens_def list_ex_iff)
qed

section \<open>The guarantee\<close>

lemma calm_comes_to_rest:
  assumes "pb_runtime rt" and "sqlite_laws eng logins history intact" and "boost_format fmt02"
    and "1073741910 \<le> alloc" and "1073741910 \<le> calloc" and "starts_well rt logins history intact db past"
    and "app_reach rt eng fmt02 alloc calloc toInt db past g"
  shows "\<not> (\<exists>f. f 0 = g \<and> (\<forall>i. calm_step rt eng fmt02 alloc calloc (f i) (f (Suc i)))) \<and>
    (app_at_rest g \<longleftrightarrow> (\<forall>g'. \<not> calm_step rt eng fmt02 alloc calloc g g')) \<and>
    (\<exists>g'. (calm_step rt eng fmt02 alloc calloc)\<^sup>*\<^sup>* g g' \<and> app_at_rest g')"
proof -
  let ?reach = "app_reach rt eng fmt02 alloc calloc toInt db past" and ?d = "calm_step rt eng fmt02 alloc calloc"
  have ok: "net_ok rt logins history intact (fst h)" if "?reach h" for h
    using net_reach_ok [OF assms(1-6) app_net_reach [OF that]] by blast
  have less: "(h', h) \<in> calm_order \<and> ?reach h'" if "?reach h" "?d h h'" for h h'
    using calm_less [OF assms(1-5) ok [OF that(1)] that(2)] app_reach.step [OF that(1) calm_app_step [OF that(2)]]
    by blast
  have more: "app_at_rest h \<or> (\<exists>h'. ?d h h')" if "?reach h" for h
    using app_rest_or_progress [OF assms(1-5) ok [OF that]] .
  have "\<not> (\<exists>f. f 0 = g \<and> (\<forall>i. ?d (f i) (f (Suc i))))"
    using no_endless_delivery [of calm_order ?reach ?d] less assms(7) calm_order_wf by blast
  moreover have "app_at_rest g \<longleftrightarrow> (\<forall>g'. \<not> ?d g g')"
    using more [OF assms(7)] app_rest_final by blast
  moreover have "\<exists>g'. ?d\<^sup>*\<^sup>* g g' \<and> app_at_rest g'"
    using delivery_reaches_rest [of calm_order ?reach ?d app_at_rest] less more assms(7) calm_order_wf by blast
  ultimately show ?thesis by blast
qed

text \<open>C4: users who lean back get to see everything: from every state that the application reaches with
  its users, no run of deliveries and signals goes on for ever; as long as anything is under
  way or a window has a signal to handle, such a step is possible; so there is a run after which
  nothing is under way and every window is up to date.
  Users type text that is not empty, is UTF-8 and needs no escaping in SQL, the database file is
  intact, and tasks and frames are whole steps (see the header of \<open>Spec2Isabelle\<close>).\<close>

theorem app_settles:
  assumes "pb_runtime rt" and "sqlite_laws eng logins history intact" and "boost_format fmt02"
    and "1073741910 \<le> alloc" and "1073741910 \<le> calloc" and "starts_well rt logins history intact db past"
    and "app_reach rt eng fmt02 alloc calloc toInt db past g"
  shows "\<not> (\<exists>f. f 0 = g \<and> (\<forall>i. calm_step rt eng fmt02 alloc calloc (f i) (f (Suc i)))) \<and>
    (app_at_rest g \<longleftrightarrow> (\<forall>g'. \<not> calm_step rt eng fmt02 alloc calloc g g')) \<and>
    (\<exists>g'. (calm_step rt eng fmt02 alloc calloc)\<^sup>*\<^sup>* g g' \<and> app_at_rest g')"
  by (rule calm_comes_to_rest [OF assms])

lemma calm_attends:
  assumes "pb_runtime rt" and "sqlite_laws eng logins history intact" and "boost_format fmt02"
    and "1073741910 \<le> alloc" and "1073741910 \<le> calloc" and "starts_well rt logins history intact db past"
    and "app_reach rt eng fmt02 alloc calloc toInt db past g"
    and "subscribed (manager (ns_server (fst g))) r c = Some p"
    and "(calm_step rt eng fmt02 alloc calloc)\<^sup>*\<^sup>* g g'"
    and "flows (conns (ns_server (fst g)) p)" and "listens rt p (fst g)"
  shows "attends rt eng fmt02 alloc calloc toInt r c p g g' \<and> listens rt p (fst g') \<and>
    cl_current_room (ns_users (fst g') p) = cl_current_room (ns_users (fst g) p) \<and> flows (conns (ns_server (fst g')) p)"
  using assms(9)
proof induction
  case base
  then show ?case using assms(8,10,11) by (simp add: attends.comes)
next
  case (step h h')
  then have h: "attends rt eng fmt02 alloc calloc toInt r c p g h" "app_reach rt eng fmt02 alloc calloc toInt db past h"
    using attends_reach [OF _ assms(7)] by blast+
  then have ok: "net_ok rt logins history intact (fst h)"
    using net_reach_ok [OF assms(1-6) app_net_reach] by blast
  have member: "subscribed (manager (ns_server (fst h))) r c = Some p"
    using stays_member [OF attends_stays [OF h(1)]] by blast
  from step.hyps(2) have "subscribed (manager (ns_server (fst h'))) r c = Some p \<and> listens rt p (fst h') \<and>
      cl_current_room (ns_users (fst h') p) = cl_current_room (ns_users (fst h) p) \<and> flows (conns (ns_server (fst h')) p)"
  proof cases
    case (arrives n')
    then show ?thesis
      using delivery_keeps_member [OF ok arrives(2) member] session_moves_room [OF delivers_sessions [OF arrives(2)]]
        delivery_keeps_flow [OF ok arrives(2)] delivery_listens [OF assms(1-3,5) ok arrives(2)] step.IH by simp
  next
    case (prints p' sig sigs w')
    then show ?thesis
      using handling(1) [OF prints(3,4)] member step.IH by simp
  qed
  then show ?case
    using step.IH attends.remains [OF h(1) calm_app_step [OF step.hyps(2)]] by simp
qed

text \<open>C5: and what they get to see is everything: a member of a room whose chat shows the room, to whom
  no write has failed, and whose session listens, is still a member when the application has come to
  rest, and unless the server has refused a request of this client, upon which it closes its session,
  every message that the room recorded on the way is a line of the chat, in the order of the room.
  Users type text that is not empty, is UTF-8 and needs no escaping in SQL, the database file is
  intact, and tasks and frames are whole steps (see the header of \<open>Spec2Isabelle\<close>).\<close>

theorem rooms_reach_screens:
  assumes "pb_runtime rt" and "sqlite_laws eng logins history intact" and "boost_format fmt02"
    and "1073741910 \<le> alloc" and "1073741910 \<le> calloc" and "starts_well rt logins history intact db past"
    and "app_reach rt eng fmt02 alloc calloc toInt db past g"
    and "subscribed (manager (ns_server (fst g))) r c = Some p" and "cl_current_room (ns_users (fst g) p) = r"
    and "flows (conns (ns_server (fst g)) p)" and "cl_reading (ns_users (fst g) p) \<noteq> Idle"
    and "(calm_step rt eng fmt02 alloc calloc)\<^sup>*\<^sup>* g g'" and "app_at_rest g'"
  shows "subscribed (manager (ns_server (fst g'))) r c = Some p \<and>
    (list_ex (refusal rt) (cn_started (conns (ns_server (fst g')) p)) \<or>
     (\<exists>ds. room_history (manager (ns_server (fst g'))) r = room_history (manager (ns_server (fst g))) r @ ds \<and>
        subseq (map (\<lambda>d. chat_entry (shown d)) ds) (text_output (desk g' p))))"
proof -
  have "listens rt p (fst g)"
    using assms(11) by (simp add: listens_def)
  note stays = calm_attends [OF assms(1-8,12,10) this]
  then have attends: "attends rt eng fmt02 alloc calloc toInt r c p g g'"
    by blast
  have member: "subscribed (manager (ns_server (fst g'))) r c = Some p"
    using stays_member [OF attends_stays [OF attends]] by blast
  have ok: "server_ok (ns_server (fst g'))"
    using net_reach_ok [OF assms(1-6) app_net_reach [OF attends_reach [OF attends assms(7)]]] net_okD(1)
    unfolding sound_server_def by blast
  have pool: "p \<in> set (pool (ns_server (fst g')))"
    using server_okD(5) [OF ok member] .
  have rest: "\<not> cn_writing (conns (ns_server (fst g')) p)" "pending (desk g' p, handled g' p) = []"
    "cl_reading (ns_users (fst g') p) = Idle \<or> cl_reading (ns_users (fst g') p) = WaitHeader \<and> ns_down (fst g') p = []"
    using assms(13) pool by (simp_all add: app_at_rest_def at_rest_def list_all_iff)
  have "cn_queue (conns (ns_server (fst g')) p) = []"
    using stays rest(1) by (auto simp: flows_def)
  then show ?thesis
    using member_hears_on_screen [OF assms(1-7) attends] rest(2,3) stays assms(9) member by (auto simp: listens_def)
qed

section \<open>Concrete runs\<close>

text \<open>Her login is on its way: something is left to do, and it gets done.\<close>

theorem app_settles_witness:
  "\<exists>g g'. demo_app g \<and> \<not> app_at_rest g \<and>
    (calm_step std_rt mini_engine std_fmt02 2000000000 2000000000)\<^sup>*\<^sup>* g g' \<and> app_at_rest g'"
proof -
  obtain n where n: "demo_reach n" "ns_spoken n = {}" "ns_dialing n = {0}"
    using demo_dials by blast
  obtain ws where ws: "demo_app (n, ws)"
    using app_lifts [OF n(1,2)] by blast
  have room: "(1073741910 :: nat) \<le> 2000000000" by simp
  have "\<not> app_at_rest (n, ws)"
    using n(3) by (simp add: app_at_rest_def at_rest_def)
  with ws app_settles [OF std.pb_runtime_axioms mini.sqlite_laws_axioms std_format.boost_format_axioms
      room room demo_starts_well ws]
  show ?thesis by blast
qed

text \<open>She looks at the room that she has joined, and leans back.\<close>

theorem rooms_reach_screens_witness:
  "\<exists>g g' c. demo_app g \<and> (calm_step std_rt mini_engine std_fmt02 2000000000 2000000000)\<^sup>*\<^sup>* g g' \<and> app_at_rest g' \<and>
    subscribed (manager (ns_server (fst g'))) 7 c = Some 0 \<and>
    (list_ex (refusal std_rt) (cn_started (conns (ns_server (fst g')) 0)) \<or>
     (\<exists>ds. room_history (manager (ns_server (fst g'))) 7 = room_history (manager (ns_server (fst g))) 7 @ ds \<and>
        subseq (map (\<lambda>d. chat_entry (shown d)) ds) (text_output (desk g' 0))))"
proof -
  obtain g c where g: "demo_app g" "quiet c (fst g)" "cl_current_room (ns_users (fst g) 0) = 7"
    using demo_opens by blast
  have room: "(1073741910 :: nat) \<le> 2000000000" by simp
  have flows: "flows (conns (ns_server (fst g)) 0)" "cl_reading (ns_users (fst g) 0) \<noteq> Idle"
    using g(2) by (simp_all add: quiet_def flows_def)
  obtain g' where g': "(calm_step std_rt mini_engine std_fmt02 2000000000 2000000000)\<^sup>*\<^sup>* g g'" "app_at_rest g'"
    using calm_comes_to_rest [OF std.pb_runtime_axioms mini.sqlite_laws_axioms std_format.boost_format_axioms
        room room demo_starts_well g(1)] by blast
  show ?thesis
    using rooms_reach_screens [OF std.pb_runtime_axioms mini.sqlite_laws_axioms std_format.boost_format_axioms
        room room demo_starts_well g(1) quiet_member [OF g(2)] g(3) flows g'] g(1) g' by blast
qed

end
