(* ===== verification/Threads.thy ===== *)
theory Threads
  imports Delivery
begin

text \<open>
  The four threads of the pool (\<open>server/server.h\<close>). Elsewhere in the development a task runs whole;
  here a registration is cut into the parts between which another thread can run, since nothing
  locks it. A part is what \<open>connection.cpp\<close> does between two accesses to shared objects. The parts of
  a task run one after the other are the task; run between those of another task they keep neither the
  identifiers nor the logins apart: the last sections show what gets doubled and lost.
\<close>

section \<open>Parts of a registration\<close>

text \<open>The parts work on the fields \<open>login\<close>, \<open>password\<close> and \<open>client_id\<close> of the connection, as the
  code does, so that they see what another task of the same connection wrote there. The increment of
  the static counter in \<open>generate_client_id\<close> has no lock and is not atomic: one part reads it, the
  next writes the sum back. (For C++ two such increments at once are a data race, which is undefined;
  the model has the outcomes of a load, an addition and a store.)\<close>

definition reg_look_up :: "'h sqlite \<Rightarrow> nat \<Rightarrow> Request \<Rightarrow> 'h server \<Rightarrow> 'h server result" where
  "reg_look_up eng p new_request s =
     (let login = reg_login (Request_register_request new_request);
          password = reg_password (Request_register_request new_request);
          s = on_conn p (\<lambda>c. c\<lparr>cn_login := login, cn_password := password\<rparr>) s
      in case database s of
           None \<Rightarrow> Inl NullDeref
         | Some db \<Rightarrow> Inr (on_conn p (\<lambda>c. c\<lparr>cn_client_id := get_loginid eng login db\<rparr>) s))"

definition reg_count :: "nat \<Rightarrow> int32 \<Rightarrow> 'h server \<Rightarrow> 'h server" where
  "reg_count p i s = on_conn p (\<lambda>c. c\<lparr>cn_client_id := i + 1\<rparr>) (s\<lparr>next_id := i + 1\<rparr>)"

definition reg_refuse :: "nat \<Rightarrow> 'h server \<Rightarrow> 'h server" where
  "reg_refuse p s = on_conn p (\<lambda>c. c\<lparr>cn_client_id := -1\<rparr>) s"

definition reg_store :: "'h sqlite \<Rightarrow> nat \<Rightarrow> 'h server \<Rightarrow> 'h server result" where
  "reg_store eng p s =
     (let c = conns s p
      in case database s of
           None \<Rightarrow> Inl NullDeref
         | Some db \<Rightarrow> and_then (add_logins eng (cn_login c) (cn_client_id c) (cn_password c) db)
             (\<lambda>db. Inr (s\<lparr>database := Some db\<rparr>)))"

definition reg_answer :: "nat \<Rightarrow> 'h server \<Rightarrow> 'h server" where
  "reg_answer p s = post (SendRegResponse p (cn_client_id (conns s p))) s"

section \<open>The pool\<close>

text \<open>Where a thread stands: before a task it took, before the test of line 159, with the counter
  read, before the insert, before the response. Tasks other than registrations are one part.\<close>

datatype part = Begin task | Number nat | Count nat int32 | Store nat | Answer nat

fun run_part :: "pb_rt \<Rightarrow> 'h sqlite \<Rightarrow> (nat \<Rightarrow> string) \<Rightarrow> part \<Rightarrow> 'h server \<Rightarrow>
    (part option \<times> 'h server) result" where
  "run_part rt eng fmt02 (Begin (DoRegistration p q)) s =
     (if Request_has_register_request q
      then and_then (reg_look_up eng p q s) (\<lambda>s. Inr (Some (Number p), s))
      else Inr (None, free_connection rt p s))"
| "run_part rt eng fmt02 (Begin t) s = and_then (run_task rt eng fmt02 t s) (\<lambda>s. Inr (None, s))"
| "run_part rt eng fmt02 (Number p) s =
     (if cn_client_id (conns s p) = -1 then Inr (Some (Count p (next_id s)), s)
      else Inr (Some (Answer p), reg_refuse p s))"
| "run_part rt eng fmt02 (Count p i) s = Inr (Some (Store p), reg_count p i s)"
| "run_part rt eng fmt02 (Store p) s = and_then (reg_store eng p s) (\<lambda>s. Inr (Some (Answer p), s))"
| "run_part rt eng fmt02 (Answer p) s = Inr (None, reg_answer p s)"

type_synonym 'h threads = "'h server \<times> part option list"

text \<open>A free thread takes the first task of the queue, a thread runs its next part, the reading side
  posts a task.\<close>

inductive pool_step :: "pb_rt \<Rightarrow> 'h sqlite \<Rightarrow> (nat \<Rightarrow> string) \<Rightarrow> 'h threads \<Rightarrow> 'h threads \<Rightarrow> bool"
  for rt eng fmt02
where
  takes: "tasks s = t # rest \<Longrightarrow>
    pool_step rt eng fmt02 (s, us @ None # vs) (s\<lparr>tasks := rest\<rparr>, us @ Some (Begin t) # vs)"
| runs: "run_part rt eng fmt02 x s = Inr (next, s') \<Longrightarrow>
    pool_step rt eng fmt02 (s, us @ Some x # vs) (s', us @ next # vs)"
| posts: "pool_step rt eng fmt02 (s, ws) (post t s, ws)"

section \<open>One thread alone\<close>

text \<open>A thread that runs a part and what follows it, without interruption; \<open>None\<close> when the fuel ends.\<close>

fun run_alone :: "nat \<Rightarrow> pb_rt \<Rightarrow> 'h sqlite \<Rightarrow> (nat \<Rightarrow> string) \<Rightarrow> part \<Rightarrow> 'h server \<Rightarrow> 'h server result option" where
  "run_alone 0 rt eng fmt02 x s = None"
| "run_alone (Suc n) rt eng fmt02 x s =
     (case run_part rt eng fmt02 x s of
        Inl e \<Rightarrow> Some (Inl e)
      | Inr (None, s) \<Rightarrow> Some (Inr s)
      | Inr (Some y, s) \<Rightarrow> run_alone n rt eng fmt02 y s)"

lemma one_part:
  "run_part rt eng fmt02 (Begin t) s = and_then (run_task rt eng fmt02 t s) (\<lambda>s. Inr (None, s)) \<Longrightarrow>
    run_alone (Suc n) rt eng fmt02 (Begin t) s = Some (run_task rt eng fmt02 t s)"
  by (cases "run_task rt eng fmt02 t s") simp_all

lemma registration_parts:
  "run_alone 5 rt eng fmt02 (Begin (DoRegistration p q)) s = Some (do_registration rt eng p q s)"
proof (cases "database s")
  case (Some db)
  then show ?thesis
    by (cases "add_logins eng (reg_login (Request_register_request q)) (next_id s + 1)
          (reg_password (Request_register_request q)) db")
      (auto simp: numeral_eq_Suc do_registration_def register_login_def reg_look_up_def reg_count_def
        reg_store_def reg_refuse_def reg_answer_def generate_client_id_def post_def on_conn_def Let_def)
qed (simp add: numeral_eq_Suc do_registration_def register_login_def reg_look_up_def Let_def)

text \<open>A task that a thread runs without interruption, part by part, does what \<open>run_task\<close> does, failures
  included; five parts are enough for every task.\<close>

lemma parts_make_the_task:
  "run_alone 5 rt eng fmt02 (Begin t) s = Some (run_task rt eng fmt02 t s)"
proof (cases t)
  case (DoRegistration p q)
  then show ?thesis by (simp add: registration_parts)
qed (simp_all only: numeral_eq_Suc one_part run_part.simps)

section \<open>Two registrations of one login\<close>

lemma mset_map_pair:
  assumes "mset (map f xs) = mset [a, b]"
  shows "\<exists>x y. xs = [x, y] \<and> (f x = a \<and> f y = b \<or> f x = b \<and> f y = a)"
proof -
  have "length xs = 2"
    using arg_cong [OF assms, of size] by simp
  then obtain x y where xs: "xs = [x, y]"
    by (auto simp: length_Suc_conv numeral_2_eq_2)
  show ?thesis
    using assms unfolding xs by (auto simp: add_eq_conv_ex)
qed

context sqlite_laws
begin

text \<open>With two accounts of one login, the password tells which one a client gets.\<close>

lemma two_accounts_checked:
  assumes "db_ptr db = Some h" and "intact h" and "plain l" and "plain pw" and "plain pw'" and "pw \<noteq> []" and "pw' \<noteq> []" and "pw \<noteq> pw'"
    and "filter (\<lambda>e. fst e = l) (logins h) = [(l, i, pw), (l, j, pw')]"
  shows "check_client eng l pw db = Inr i \<and> check_client eng l pw' db = Inr j"
proof -
  obtain rows where rows: "sq_query eng (Some h) (sql_select_login l) = Some (rows, SQLITE_DONE)"
    "mset (map login_view rows) = mset [stored (l, i, pw), stored (l, j, pw')]"
    using select_login [OF assms(2,3)] assms(9) by auto
  obtain x y where "rows = [x, y]"
    "login_view x = stored (l, i, pw) \<and> login_view y = stored (l, j, pw') \<or>
     login_view x = stored (l, j, pw') \<and> login_view y = stored (l, i, pw)"
    using mset_map_pair [OF rows(2)] by blast
  then have "check_rows pw (-1) rows = Inr i \<and> check_rows pw' (-1) rows = Inr j"
    using assms(4-8) by (elim disjE) (simp_all add: login_view_def stored_def std_string_blob)
  then show ?thesis
    using rows(1) assms(1,3) by (simp add: check_client_def)
qed

end

text \<open>A schedule names the thread that moves next. \<open>None\<close> when that thread has nothing to do or its
  part fails.\<close>

fun moves :: "pb_rt \<Rightarrow> 'h sqlite \<Rightarrow> (nat \<Rightarrow> string) \<Rightarrow> nat \<Rightarrow> 'h threads \<Rightarrow> 'h threads option" where
  "moves rt eng fmt02 i (s, ws) =
     (if length ws \<le> i then None
      else case ws ! i of
        None \<Rightarrow> (case tasks s of [] \<Rightarrow> None | t # rest \<Rightarrow> Some (s\<lparr>tasks := rest\<rparr>, ws[i := Some (Begin t)]))
      | Some x \<Rightarrow> (case run_part rt eng fmt02 x s of
            Inl e \<Rightarrow> None
          | Inr (w, s') \<Rightarrow> Some (s', ws[i := w])))"

fun schedule :: "pb_rt \<Rightarrow> 'h sqlite \<Rightarrow> (nat \<Rightarrow> string) \<Rightarrow> nat list \<Rightarrow> 'h threads \<Rightarrow> 'h threads option" where
  "schedule rt eng fmt02 [] c = Some c"
| "schedule rt eng fmt02 (i # is) c = Option.bind (moves rt eng fmt02 i c) (schedule rt eng fmt02 is)"

lemma moves_step:
  assumes "moves rt eng fmt02 i c = Some c'"
  shows "pool_step rt eng fmt02 c c'"
proof -
  obtain s ws where c: "c = (s, ws)" by (cases c)
  have i: "i < length ws"
    using assms by (simp add: c split: if_splits)
  have ws: "ws = take i ws @ ws ! i # drop (Suc i) ws" "ws[i := w] = take i ws @ w # drop (Suc i) ws" for w
    using i by (simp_all add: id_take_nth_drop [symmetric] upd_conv_take_nth_drop)
  show ?thesis
  proof (cases "ws ! i")
    case None
    then obtain t rest where "tasks s = t # rest" "c' = (s\<lparr>tasks := rest\<rparr>, ws[i := Some (Begin t)])"
      using assms i by (auto simp: c split: list.splits)
    then show ?thesis
      using pool_step.takes [of s t rest rt eng fmt02 "take i ws" "drop (Suc i) ws"] ws None by (simp add: c)
  next
    case (Some x)
    then obtain w s' where "run_part rt eng fmt02 x s = Inr (w, s')" "c' = (s', ws[i := w])"
      using assms i by (auto simp: c split: sum.splits)
    then show ?thesis
      using pool_step.runs [of rt eng fmt02 x s w s' "take i ws" "drop (Suc i) ws"] ws Some by (simp add: c)
  qed
qed

lemma run_longer: "P x y \<Longrightarrow> (P ^^ m) y z \<Longrightarrow> n = Suc m \<Longrightarrow> (P ^^ n) x z"
  by (simp only: relpowp_Suc_I2)

lemma schedule_run:
  "schedule rt eng fmt02 is c = Some c' \<Longrightarrow> length is = n \<Longrightarrow> (pool_step rt eng fmt02 ^^ n) c c'"
proof (induction "is" arbitrary: c n)
  case (Cons i "is")
  then obtain c1 where c1: "moves rt eng fmt02 i c = Some c1" "schedule rt eng fmt02 is c1 = Some c'"
    by (auto simp: bind_eq_Some_conv)
  have "pool_step rt eng fmt02 c c1"
    by (rule moves_step [OF c1(1)])
  then show ?case
    by (rule run_longer [OF _ Cons.IH [OF c1(2) refl]]) (use Cons.prems(2) in simp)
qed simp

text \<open>Both look the login up, then one takes a number and stores, then the other.\<close>

abbreviation both_look_first :: "nat list" where
  "both_look_first \<equiv> [0, 1, 0, 1, 0, 0, 0, 1, 1, 1, 0, 1]"

text \<open>C30: two connections register one new login at the same time. There is an order of the parts in
  which both are accepted: the second looks the login up before the first has stored it. The login
  then has two accounts with two identifiers, and each client logs in with its own password.\<close>

theorem one_login_two_accounts:
  assumes "sqlite_laws eng logins history intact" and "open_db s h db" and "accounts_ok (logins h)"
    and "plain l" and "plain pw" and "plain pw'" and "pw \<noteq> []" and "pw' \<noteq> []" and "pw \<noteq> pw'"
    and "account (logins h) l = None" and "p \<noteq> q" and "intact h"
    and "0 \<le> sint (next_id s)" and "sint (next_id s) < 2147483646"
    and "tasks s = [DoRegistration p (create_reg_request l pw), DoRegistration q (create_reg_request l pw')]"
  shows "\<exists>s' h' db'. (pool_step rt eng fmt02 ^^ 12) (s, replicate 4 None) (s', replicate 4 None) \<and>
    open_db s' h' db' \<and>
    logins h' = logins h @ [(l, next_id s + 1, pw), (l, next_id s + 2, pw')] \<and>
    tasks s' = [SendRegResponse p (next_id s + 1), SendRegResponse q (next_id s + 2)] \<and>
    check_client eng l pw db' = Inr (next_id s + 1) \<and> check_client eng l pw' db' = Inr (next_id s + 2)"
proof -
  let ?i = "next_id s + 1" and ?j = "next_id s + 2"
  have new: "get_loginid eng l db = -1"
    using sqlite_laws.get_loginid_open [OF assms(1) _ assms(12,4,3), of db] assms(2,10) by simp
  obtain h1 where h1: "add_logins eng l ?i pw db = Inr (db\<lparr>db_ptr := Some h1\<rparr>)" "logins h1 = logins h @ [(l, ?i, pw)]"
    "intact h1"
    using sqlite_laws.add_logins_open [OF assms(1) _ assms(12,4,5), of db ?i] assms(2) by blast
  obtain h2 where h2: "add_logins eng l ?j pw' (db\<lparr>db_ptr := Some h1\<rparr>) = Inr (db\<lparr>db_ptr := Some h2\<rparr>)"
    "logins h2 = logins h @ [(l, ?i, pw), (l, ?j, pw')]" "intact h2"
    using sqlite_laws.add_logins_open [OF assms(1) _ h1(3) assms(4,6), of "db\<lparr>db_ptr := Some h1\<rparr>" ?j] h1(2) by auto
  obtain s' where s': "schedule rt eng fmt02 both_look_first (s, replicate 4 None) = Some (s', replicate 4 None)"
    "database s' = Some (db\<lparr>db_ptr := Some h2\<rparr>)" "tasks s' = [SendRegResponse p ?i, SendRegResponse q ?j]"
    using assms(2,11,15) new h1(1) h2(1)
    by (simp add: eval_nat_numeral reg_look_up_def reg_count_def reg_store_def reg_answer_def post_def Let_def add.assoc)
  have "filter (\<lambda>e. fst e = l) (logins h) = []"
    using assms(10) by (auto simp: account_def map_of_eq_None_iff filter_empty_conv)
  then have "filter (\<lambda>e. fst e = l) (logins h2) = [(l, ?i, pw), (l, ?j, pw')]"
    by (simp add: h2(2))
  then have "check_client eng l pw (db\<lparr>db_ptr := Some h2\<rparr>) = Inr ?i \<and> check_client eng l pw' (db\<lparr>db_ptr := Some h2\<rparr>) = Inr ?j"
    using sqlite_laws.two_accounts_checked [OF assms(1) _ h2(3) assms(4-9)] by simp
  with schedule_run [OF s'(1), of 12] s'(2,3) h2(2) show ?thesis
    by (intro exI [of _ s'] exI [of _ h2] exI [of _ "db\<lparr>db_ptr := Some h2\<rparr>"]) (simp del: relpowp.simps)
qed

text \<open>The four threads, two registrations of \<open>ann\<close> waiting.\<close>

definition two_anns :: "mini server" where
  "two_anns = (demo_server [] [])\<lparr>tasks :=
     [DoRegistration 0 (create_reg_request ''ann'' ''pw''), DoRegistration 1 (create_reg_request ''ann'' ''x'')]\<rparr>"

lemma two_anns_simps:
  "open_db two_anns ([], []) (mini_db [] [])" "next_id two_anns = 0"
  "tasks two_anns = [DoRegistration 0 (create_reg_request ''ann'' ''pw''), DoRegistration 1 (create_reg_request ''ann'' ''x'')]"
  by (simp_all add: two_anns_def demo_server_def Server_ctor_def mini_db_def)

lemma ann_new:
  "accounts_ok (fst ([] :: entry list, [] :: entry list))" "plain ''ann''" "plain ''pw''" "plain ''x''"
  "''pw'' \<noteq> []" "''x'' \<noteq> []" "''pw'' \<noteq> ''x''" "account (fst ([], [] :: entry list)) ''ann'' = None" "(0 :: nat) \<noteq> 1"
  by (simp_all add: accounts_ok_def account_def)

theorem one_login_two_accounts_witness:
  "\<exists>s' h' db'. (pool_step std_rt mini_engine std_fmt02 ^^ 12) (two_anns, replicate 4 None) (s', replicate 4 None) \<and>
    open_db s' h' db' \<and> fst h' = [(''ann'', 1, ''pw''), (''ann'', 2, ''x'')] \<and>
    check_client mini_engine ''ann'' ''pw'' db' = Inr 1 \<and> check_client mini_engine ''ann'' ''x'' db' = Inr 2"
proof -
  obtain s' h' db' where "(pool_step std_rt mini_engine std_fmt02 ^^ 12) (two_anns, replicate 4 None) (s', replicate 4 None)"
    "open_db s' h' db'" "fst h' = fst ([], [] :: entry list) @ [(''ann'', next_id two_anns + 1, ''pw''), (''ann'', next_id two_anns + 2, ''x'')]"
    "check_client mini_engine ''ann'' ''pw'' db' = Inr (next_id two_anns + 1)" "check_client mini_engine ''ann'' ''x'' db' = Inr (next_id two_anns + 2)"
    using one_login_two_accounts [OF mini.sqlite_laws_axioms two_anns_simps(1) ann_new TrueI _ _ two_anns_simps(3), of std_rt std_fmt02]
    by (auto simp: two_anns_simps(2))
  then show ?thesis
    by (intro exI [of _ s'] exI [of _ h'] exI [of _ db']) (simp add: two_anns_simps(2) del: relpowp.simps)
qed

section \<open>One identifier for two logins\<close>

text \<open>C12: two connections register two new logins at the same time. There is an order of the parts in
  which both get the same identifier: both threads read the counter before one of them writes it back.
  Both registrations are answered with that number, and both accounts keep it: each client then logs
  in under the number of the other.\<close>

theorem two_logins_one_identifier:
  assumes "sqlite_laws eng logins history intact" and "open_db s h db" and "accounts_ok (logins h)"
    and "plain l" and "plain l'" and "plain pw" and "plain pw'" and "pw \<noteq> []" and "pw' \<noteq> []" and "l \<noteq> l'"
    and "account (logins h) l = None" and "account (logins h) l' = None" and "p \<noteq> q" and "intact h"
    and "0 \<le> sint (next_id s)" and "sint (next_id s) < 2147483647"
    and "tasks s = [DoRegistration p (create_reg_request l pw), DoRegistration q (create_reg_request l' pw')]"
  shows "\<exists>s' h' db'. (pool_step rt eng fmt02 ^^ 12) (s, replicate 4 None) (s', replicate 4 None) \<and>
    open_db s' h' db' \<and> next_id s' = next_id s + 1 \<and>
    logins h' = logins h @ [(l, next_id s + 1, pw), (l', next_id s + 1, pw')] \<and>
    tasks s' = [SendRegResponse p (next_id s + 1), SendRegResponse q (next_id s + 1)] \<and>
    check_client eng l pw db' = Inr (next_id s + 1) \<and> check_client eng l' pw' db' = Inr (next_id s + 1)"
proof -
  let ?i = "next_id s + 1"
  have new: "get_loginid eng l db = -1" "get_loginid eng l' db = -1"
    using sqlite_laws.get_loginid_open [OF assms(1) _ assms(14,4,3), of db]
      sqlite_laws.get_loginid_open [OF assms(1) _ assms(14,5,3), of db] assms(2,11,12) by simp_all
  obtain h1 where h1: "add_logins eng l ?i pw db = Inr (db\<lparr>db_ptr := Some h1\<rparr>)" "logins h1 = logins h @ [(l, ?i, pw)]"
    "intact h1"
    using sqlite_laws.add_logins_open [OF assms(1) _ assms(14,4,6), of db ?i] assms(2) by blast
  obtain h2 where h2: "add_logins eng l' ?i pw' (db\<lparr>db_ptr := Some h1\<rparr>) = Inr (db\<lparr>db_ptr := Some h2\<rparr>)"
    "logins h2 = logins h @ [(l, ?i, pw), (l', ?i, pw')]" "intact h2"
    using sqlite_laws.add_logins_open [OF assms(1) _ h1(3) assms(5,7), of "db\<lparr>db_ptr := Some h1\<rparr>" ?i] h1(2) by auto
  obtain s' where s': "schedule rt eng fmt02 [0, 1, 0, 1, 0, 1, 0, 1, 0, 1, 0, 1] (s, replicate 4 None) = Some (s', replicate 4 None)"
    "database s' = Some (db\<lparr>db_ptr := Some h2\<rparr>)" "next_id s' = ?i" "tasks s' = [SendRegResponse p ?i, SendRegResponse q ?i]"
    using assms(2,13,17) new h1(1) h2(1)
    by (simp add: eval_nat_numeral reg_look_up_def reg_count_def reg_store_def reg_answer_def post_def Let_def)
  have ok: "accounts_ok (logins h2)"
    using assms(3-12) by (auto simp: h2(2) accounts_ok_def account_def map_of_eq_None_iff)
  have acc: "account (logins h2) l = Some (?i, pw)" "account (logins h2) l' = Some (?i, pw')"
    using assms(10-12) by (auto simp: h2(2) account_def map_add_def split: option.splits)
  have "check_client eng l pw (db\<lparr>db_ptr := Some h2\<rparr>) = Inr ?i" "check_client eng l' pw' (db\<lparr>db_ptr := Some h2\<rparr>) = Inr ?i"
    using sqlite_laws.check_client_open [OF assms(1) _ h2(3) assms(4) ok, of "db\<lparr>db_ptr := Some h2\<rparr>" pw]
      sqlite_laws.check_client_open [OF assms(1) _ h2(3) assms(5) ok, of "db\<lparr>db_ptr := Some h2\<rparr>" pw'] acc by simp_all
  with schedule_run [OF s'(1), of 12] s'(2-4) h2(2) show ?thesis
    by (intro exI [of _ s'] exI [of _ h2] exI [of _ "db\<lparr>db_ptr := Some h2\<rparr>"]) (simp del: relpowp.simps)
qed

definition ann_or_bob :: "mini server" where
  "ann_or_bob = (demo_server [] [])\<lparr>tasks :=
     [DoRegistration 0 (create_reg_request ''ann'' ''pw''), DoRegistration 1 (create_reg_request ''bob'' ''x'')]\<rparr>"

lemma ann_or_bob_simps:
  "open_db ann_or_bob ([], []) (mini_db [] [])" "next_id ann_or_bob = 0"
  "tasks ann_or_bob = [DoRegistration 0 (create_reg_request ''ann'' ''pw''), DoRegistration 1 (create_reg_request ''bob'' ''x'')]"
  by (simp_all add: ann_or_bob_def demo_server_def Server_ctor_def mini_db_def)

lemma bob_new: "plain ''bob''" "''ann'' \<noteq> ''bob''" "account (fst ([], [] :: entry list)) ''bob'' = None"
  by (simp_all add: account_def)

theorem two_logins_one_identifier_witness:
  "\<exists>s' h' db'. (pool_step std_rt mini_engine std_fmt02 ^^ 12) (ann_or_bob, replicate 4 None) (s', replicate 4 None) \<and>
    open_db s' h' db' \<and> fst h' = [(''ann'', 1, ''pw''), (''bob'', 1, ''x'')] \<and>
    tasks s' = [SendRegResponse 0 1, SendRegResponse 1 1]"
proof -
  obtain s' h' db' where "(pool_step std_rt mini_engine std_fmt02 ^^ 12) (ann_or_bob, replicate 4 None) (s', replicate 4 None)"
    "open_db s' h' db'"
    "fst h' = fst ([], [] :: entry list) @ [(''ann'', next_id ann_or_bob + 1, ''pw''), (''bob'', next_id ann_or_bob + 1, ''x'')]"
    "tasks s' = [SendRegResponse 0 (next_id ann_or_bob + 1), SendRegResponse 1 (next_id ann_or_bob + 1)]"
    using two_logins_one_identifier [OF mini.sqlite_laws_axioms ann_or_bob_simps(1) ann_new(1,2) bob_new(1) ann_new(3-6)
        bob_new(2) ann_new(8) bob_new(3) ann_new(9) TrueI _ _ ann_or_bob_simps(3), of std_rt std_fmt02]
    by (auto simp: ann_or_bob_simps(2))
  then show ?thesis
    by (intro exI [of _ s'] exI [of _ h'] exI [of _ db']) (simp add: ann_or_bob_simps(2) del: relpowp.simps)
qed

section \<open>Two registrations of one connection\<close>

text \<open>C32: a client sends a second registration before the first is answered, both of new logins: both
  tasks work on the same fields \<open>login\<close>, \<open>password\<close> and \<open>client_id\<close>. There is an order of their parts
  in which the first login gets no account although its registration is answered with an identifier,
  and the second login gets two, one of them under -1, the number that means that there is no account.\<close>

theorem own_registrations_mix:
  assumes "sqlite_laws eng logins history intact" and "open_db s h db" and "accounts_ok (logins h)"
    and "plain l" and "plain l'" and "plain pw" and "plain pw'" and "l \<noteq> l'"
    and "account (logins h) l = None" and "account (logins h) l' = None" and "intact h"
    and "0 \<le> sint (next_id s)" and "sint (next_id s) < 2147483646"
    and "tasks s = [DoRegistration p (create_reg_request l pw), DoRegistration p (create_reg_request l' pw')]"
  shows "\<exists>s' h' db'. (pool_step rt eng fmt02 ^^ 12) (s, replicate 4 None) (s', replicate 4 None) \<and>
    open_db s' h' db' \<and> logins h' = logins h @ [(l', -1, pw'), (l', next_id s + 2, pw')] \<and>
    account (logins h') l = None \<and> next_id s + 2 \<noteq> -1 \<and>
    tasks s' = [SendRegResponse p (next_id s + 2), SendRegResponse p (next_id s + 2)]"
proof -
  let ?j = "next_id s + 2"
  have new: "get_loginid eng l db = -1" "get_loginid eng l' db = -1"
    using sqlite_laws.get_loginid_open [OF assms(1) _ assms(11,4,3), of db]
      sqlite_laws.get_loginid_open [OF assms(1) _ assms(11,5,3), of db] assms(2,9,10) by simp_all
  obtain h1 where h1: "add_logins eng l' (-1) pw' db = Inr (db\<lparr>db_ptr := Some h1\<rparr>)" "logins h1 = logins h @ [(l', -1, pw')]"
    "intact h1"
    using sqlite_laws.add_logins_open [OF assms(1) _ assms(11,5,7), of db "-1"] assms(2) by blast
  obtain h2 where h2: "add_logins eng l' ?j pw' (db\<lparr>db_ptr := Some h1\<rparr>) = Inr (db\<lparr>db_ptr := Some h2\<rparr>)"
    "logins h2 = logins h @ [(l', -1, pw'), (l', ?j, pw')]"
    using sqlite_laws.add_logins_open [OF assms(1) _ h1(3) assms(5,7), of "db\<lparr>db_ptr := Some h1\<rparr>" ?j] h1(2) by auto
  have "\<exists>s'. schedule rt eng fmt02 [0, 1, 0, 0, 0, 1, 0, 1, 1, 0, 1, 1] (s, replicate 4 None) = Some (s', replicate 4 None) \<and>
      database s' = Some (db\<lparr>db_ptr := Some h2\<rparr>) \<and> tasks s' = [SendRegResponse p ?j, SendRegResponse p ?j]"
    using assms(2,14) new h1(1) h2(1)
    by (simp add: eval_nat_numeral reg_look_up_def reg_count_def reg_store_def reg_answer_def
        post_def Let_def add.assoc)
  then obtain s' where s': "schedule rt eng fmt02 [0, 1, 0, 0, 0, 1, 0, 1, 1, 0, 1, 1] (s, replicate 4 None) = Some (s', replicate 4 None)"
    "database s' = Some (db\<lparr>db_ptr := Some h2\<rparr>)" "tasks s' = [SendRegResponse p ?j, SendRegResponse p ?j]"
    by blast
  have "account (logins h2) l = None"
    using assms(8,9) by (auto simp: h2(2) account_def map_of_eq_None_iff)
  moreover have "?j \<noteq> -1"
  proof -
    have "sint (next_id s + 1) = sint (next_id s) + 1"
      using assms(12,13) by (intro sint_succ) simp_all
    moreover from this have "sint (next_id s + 1 + 1) = sint (next_id s + 1) + 1"
      using assms(12,13) by (intro sint_succ) simp_all
    moreover have "next_id s + 1 + 1 = ?j"
      by (simp add: add.assoc)
    ultimately have "sint ?j = sint (next_id s) + 2"
      by simp
    then have "sint ?j \<noteq> sint (-1 :: int32)"
      using assms(12) by simp
    then show ?thesis by metis
  qed
  ultimately show ?thesis using schedule_run [OF s'(1), of 12] s'(2,3) h2(2)
    by (intro exI [of _ s'] exI [of _ h2] exI [of _ "db\<lparr>db_ptr := Some h2\<rparr>"]) (simp del: relpowp.simps)
qed

definition ann_and_bob :: "mini server" where
  "ann_and_bob = (demo_server [] [])\<lparr>tasks :=
     [DoRegistration 0 (create_reg_request ''ann'' ''pw''), DoRegistration 0 (create_reg_request ''bob'' ''x'')]\<rparr>"

lemma ann_and_bob_simps:
  "open_db ann_and_bob ([], []) (mini_db [] [])" "next_id ann_and_bob = 0"
  "tasks ann_and_bob = [DoRegistration 0 (create_reg_request ''ann'' ''pw''), DoRegistration 0 (create_reg_request ''bob'' ''x'')]"
  by (simp_all add: ann_and_bob_def demo_server_def Server_ctor_def mini_db_def)

theorem own_registrations_mix_witness:
  "\<exists>s' h' db'. (pool_step std_rt mini_engine std_fmt02 ^^ 12) (ann_and_bob, replicate 4 None) (s', replicate 4 None) \<and>
    open_db s' h' db' \<and> fst h' = [(''bob'', -1, ''x''), (''bob'', 2, ''x'')] \<and>
    tasks s' = [SendRegResponse 0 2, SendRegResponse 0 2]"
proof -
  obtain s' h' db' where "(pool_step std_rt mini_engine std_fmt02 ^^ 12) (ann_and_bob, replicate 4 None) (s', replicate 4 None)"
    "open_db s' h' db'" "fst h' = fst ([], [] :: entry list) @ [(''bob'', -1, ''x''), (''bob'', next_id ann_and_bob + 2, ''x'')]"
    "tasks s' = [SendRegResponse 0 (next_id ann_and_bob + 2), SendRegResponse 0 (next_id ann_and_bob + 2)]"
    using own_registrations_mix [OF mini.sqlite_laws_axioms ann_and_bob_simps(1) ann_new(1,2) bob_new(1) ann_new(3,4) bob_new(2)
        ann_new(8) bob_new(3) TrueI _ _ ann_and_bob_simps(3), of std_rt std_fmt02] by (auto simp: ann_and_bob_simps(2))
  then show ?thesis
    by (intro exI [of _ s'] exI [of _ h'] exI [of _ db']) (simp add: ann_and_bob_simps(2) del: relpowp.simps)
qed

end
