(* ===== verification/Unlocked.thy ===== *)
theory Unlocked
  imports Delivery
begin

text \<open>
  \<open>Channel::join\<close> (\<open>server/channel/channel.cpp\<close>) and \<open>Connection::add_msg_send_queue\<close>
  (\<open>server/connection/connection.cpp\<close>) in the parts between which another thread of the pool can run:
  the mutex of the room covers only the entry into the map of subscribers, and the queue has none.
  Undisturbed, the parts are the operations of \<open>Channel\<close> and \<open>Connection\<close>; the properties say what
  happens when they are disturbed.
\<close>

section \<open>A join in parts\<close>

text \<open>\<open>Channel::join\<close> replays the history, enters the subscriber into the map under the room's mutex
  and announces it. \<open>message\<close> is its local variable.\<close>

definition join_replay :: "('p, 'w) isubscriber \<Rightarrow> 'p \<Rightarrow> 'p channel \<times> 'w \<Rightarrow> string \<times> 'p channel \<times> 'w" where
  "join_replay sub p = (\<lambda>(ch, w).
     let w = sub_set_busy sub p True w;
         message = join_message (sub_login sub w p) (channel_id ch);
         w = fold (send_data sub p) (history_room ch) w
     in (message, ch, w))"

definition join_enter :: "('p, 'w) isubscriber \<Rightarrow> 'p \<Rightarrow> 'p channel \<times> 'w \<Rightarrow> 'p channel \<times> 'w" where
  "join_enter sub p = (\<lambda>(ch, w).
     (ch\<lparr>subscribers := um_try_emplace (sub_client_id sub w p) p (subscribers ch)\<rparr>, w))"

definition join_announce :: "('p, 'w) isubscriber \<Rightarrow> 'p \<Rightarrow> string \<Rightarrow> 'p channel \<times> 'w \<Rightarrow> 'p channel \<times> 'w" where
  "join_announce sub p message = (\<lambda>(ch, w).
     Channel_notification sub (notice (channel_id ch) (sub_login sub w p) message) (ch, w))"

text \<open>The join of one thread while other threads deliver messages of the room: \<open>before\<close> the entry,
  and \<open>after\<close> it.\<close>

definition join_among :: "('p, 'w) isubscriber \<Rightarrow> 'p \<Rightarrow> TextSendData list \<Rightarrow> TextSendData list \<Rightarrow>
    'p channel \<times> 'w \<Rightarrow> 'p channel \<times> 'w" where
  "join_among sub p before after s =
     (let (message, s) = join_replay sub p s;
          s = fold (Channel_notification sub) before s;
          s = join_enter sub p s;
          s = fold (Channel_notification sub) after s
      in join_announce sub p message s)"

lemma join_undisturbed: "join_among sub p [] [] s = Channel_join sub p s"
  by (cases s) (simp add: join_among_def join_replay_def join_enter_def join_announce_def Channel_join_def Let_def)

context subscriber_laws
begin

lemma notifications [chan_simps]:
  "subscribers (fst (fold (Channel_notification sub) ds s)) = subscribers (fst s)"
  "channel_id (fst (fold (Channel_notification sub) ds s)) = channel_id (fst s)"
  "history_room (fst (fold (Channel_notification sub) ds s)) = history_room (fst s) @ ds"
  "count_list (map snd (subscribers (fst s))) q = k \<Longrightarrow> inbox (snd (fold (Channel_notification sub) ds s)) q =
     inbox (snd s) q @ concat (map (\<lambda>d. replicate k (data_frame d)) ds)"
  "sub_client_id sub (snd (fold (Channel_notification sub) ds s)) = sub_client_id sub (snd s)"
  "sub_login sub (snd (fold (Channel_notification sub) ds s)) = sub_login sub (snd s)"
  by (induction ds arbitrary: s) (auto simp: notification_simps)

lemma join_parts [chan_simps]:
  "fst (join_replay sub p (ch, w)) = join_message (sub_login sub w p) (channel_id ch)"
  "fst (snd (join_replay sub p (ch, w))) = ch"
  "inbox (snd (snd (join_replay sub p (ch, w)))) q = inbox w q @ (if q = p then map data_frame (history_room ch) else [])"
  "sub_client_id sub (snd (snd (join_replay sub p (ch, w)))) = sub_client_id sub w"
  "sub_login sub (snd (snd (join_replay sub p (ch, w)))) = sub_login sub w"
  "snd (join_enter sub p s) = snd s"
  "fst (join_enter sub p s) = (fst s)\<lparr>subscribers := um_try_emplace (sub_client_id sub (snd s) p) p (subscribers (fst s))\<rparr>"
  by (simp_all add: join_replay_def join_enter_def Let_def split: prod.splits)

lemma join_announce_split:
  "join_announce sub p m s = Channel_notification sub (notice (channel_id (fst s)) (sub_login sub (snd s) p) m) s"
  by (simp add: join_announce_def split: prod.splits)

lemma join_among_split:
  "join_among sub p before after s = join_announce sub p (fst (join_replay sub p s))
     (fold (Channel_notification sub) after
       (join_enter sub p (fold (Channel_notification sub) before (snd (join_replay sub p s)))))"
  by (simp add: join_among_def split_beta Let_def)

lemma once: "concat (map (\<lambda>d. replicate (Suc 0) (f d)) ds) = map f ds" "concat (map (\<lambda>d. replicate 0 (f d)) ds) = []"
  by (induction ds) auto

lemma join_among_gives:
  assumes "sub_client_id sub w p \<notin> fst ` set (subscribers ch)" and "p \<notin> snd ` set (subscribers ch)"
    and "count_list (map snd (subscribers ch)) q = 1"
    and "join_among sub p before after (ch, w) = (ch', w')"
    and "d = notice (channel_id ch) (sub_login sub w p) (join_message (sub_login sub w p) (channel_id ch))"
  shows "history_room ch' = history_room ch @ before @ after @ [d]"
    and "map_of (subscribers ch') (sub_client_id sub w p) = Some p"
    and "inbox w' q = inbox w q @ map data_frame (before @ after @ [d])"
    and "inbox w' p = inbox w p @ map data_frame (history_room ch @ after @ [d])"
proof -
  have new: "map_of (subscribers ch) (sub_client_id sub w p) = None"
    using assms(1) by (simp add: map_of_eq_None_iff)
  have none: "count_list (map snd (subscribers ch)) p = 0"
    using assms(2) by (simp add: count_list_0_iff)
  then have "q \<noteq> p"
    using assms(3) by auto
  have ch': "ch' = fst (join_among sub p before after (ch, w))" "w' = snd (join_among sub p before after (ch, w))"
    by (simp_all add: assms(4))
  note parts = join_among_split join_announce_split chan_simps um_try_emplace_def new none assms(3) once
  show "history_room ch' = history_room ch @ before @ after @ [d]"
    unfolding ch' assms(5) by (simp add: parts)
  show "map_of (subscribers ch') (sub_client_id sub w p) = Some p"
    unfolding ch' by (simp add: parts map_add_def)
  show "inbox w' q = inbox w q @ map data_frame (before @ after @ [d])"
    unfolding ch' assms(5) using \<open>q \<noteq> p\<close> by (simp add: parts)
  show "inbox w' p = inbox w p @ map data_frame (history_room ch @ after @ [d])"
    unfolding ch' assms(5) by (simp add: parts)
qed

end

lemma conn_data_frames: "conn.data_frame rt = message_frame rt"
  by (simp add: conn.data_frame_def message_frame_def fun_eq_iff)

text \<open>C31: a join while other threads deliver messages of the room, with the unlocked parts of
  \<open>Channel::join\<close> taken one after the other: all messages are in the history of the room and reach
  every earlier member, but the new member gets the old history, then only what was delivered after
  its entry, then the notice of its join. What was delivered between the replay and the entry it
  never gets.\<close>

theorem join_misses_messages:
  assumes "cn_client_id (w p) \<notin> fst ` set (subscribers ch)" and "p \<notin> snd ` set (subscribers ch)"
    and "count_list (map snd (subscribers ch)) q = 1"
    and "join_among (connection_subscriber rt) p before after (ch, w) = (ch', w')"
    and "d = notice (channel_id ch) (cn_login (w p)) (join_message (cn_login (w p)) (channel_id ch))"
  shows "history_room ch' = history_room ch @ before @ after @ [d] \<and>
    map_of (subscribers ch') (cn_client_id (w p)) = Some p \<and>
    frames_to w' q = frames_to w q @ map (message_frame rt) (before @ after @ [d]) \<and>
    frames_to w' p = frames_to w p @ map (message_frame rt) (history_room ch @ after @ [d])"
  using conn.join_among_gives [of rt w p ch q before after ch' w' d] assms
  by (simp add: conn_data_frames connection_subscriber_def del: conn_data_frame)

theorem join_misses_messages_witness:
  "let bob = (Connection_ctor 5 [])\<lparr>cn_login := ''bob''\<rparr>; ann = (Connection_ctor 7 [])\<lparr>cn_login := ''ann''\<rparr>;
       w = (\<lambda>_. Connection_ctor 0 [])(0 := ann, 1 := bob);
       hello = \<lparr>td_room_id = 1, td_login = ''bob'', td_text = ''hello''\<rparr>;
       d = notice 1 ''ann'' (join_message ''ann'' 1);
       (ch', w') = join_among (connection_subscriber std_rt) 0 [hello] []
         (\<lparr>subscribers = [(5, 1)], channel_id = 1, history_room = []\<rparr>, w)
   in history_room ch' = [hello, d] \<and> frames_to w' 1 = frames_to w 1 @ [message_frame std_rt hello, message_frame std_rt d] \<and>
     frames_to w' 0 = frames_to w 0 @ [message_frame std_rt d]"
proof -
  let ?bob = "(Connection_ctor 5 [])\<lparr>cn_login := ''bob''\<rparr>" and ?ann = "(Connection_ctor 7 [])\<lparr>cn_login := ''ann''\<rparr>"
  let ?w = "(\<lambda>_ :: nat. Connection_ctor 0 [])(0 := ?ann, 1 := ?bob)"
  let ?ch = "\<lparr>subscribers = [(5 :: int32, 1 :: nat)], channel_id = 1, history_room = []\<rparr>"
  let ?hello = "\<lparr>td_room_id = 1, td_login = ''bob'', td_text = ''hello''\<rparr>" and ?d = "notice 1 ''ann'' (join_message ''ann'' 1)"
  obtain ch' w' where j: "join_among (connection_subscriber std_rt) 0 [?hello] [] (?ch, ?w) = (ch', w')"
    by fastforce
  have "history_room ch' = history_room ?ch @ [?hello] @ [] @ [?d] \<and>
      map_of (subscribers ch') (cn_client_id (?w 0)) = Some 0 \<and>
      frames_to w' 1 = frames_to ?w 1 @ map (message_frame std_rt) ([?hello] @ [] @ [?d]) \<and>
      frames_to w' 0 = frames_to ?w 0 @ map (message_frame std_rt) (history_room ?ch @ [] @ [?d])"
    using join_misses_messages [of ?w 0 ?ch 1 std_rt "[?hello]" "[]" ch' w' ?d] j by (simp add: Connection_ctor_def)
  then show ?thesis
    using j by (simp add: Let_def)
qed

section \<open>A push in parts\<close>

text \<open>\<open>add_msg_send_queue\<close> reads whether the queue is empty, pushes, and starts the write.\<close>

definition queue_look :: "connection \<Rightarrow> bool" where
  "queue_look c \<longleftrightarrow> cn_queue c \<noteq> []"

definition queue_push :: "bytes \<Rightarrow> connection \<Rightarrow> connection" where
  "queue_push bin_buffer c = c\<lparr>cn_queue := cn_queue c @ [bin_buffer]\<rparr>"

definition queue_start :: "bool \<Rightarrow> connection \<Rightarrow> connection" where
  "queue_start process_write c = (if \<not> process_write then sending_msgs_to_client c else c)"

lemma push_undisturbed: "queue_start (queue_look c) (queue_push f c) = add_msg_send_queue f c"
  by (simp add: queue_start_def queue_look_def queue_push_def add_msg_send_queue_def Let_def)

text \<open>Two threads push a frame on the queue of one idle connection (two messages of a room reach a
  member at once): alone, one after the other, the first frame is in flight and the second waits. When
  the second looks at the queue before the first has pushed, both start a write, and both writes are
  of the first frame: the peer gets it twice, and after their completions the queue is empty while
  the second frame is in flight, so that its own completion pops an empty queue.\<close>

theorem pushes_write_twice:
  assumes "cn_queue c = []"
  shows "let alone = add_msg_send_queue g (add_msg_send_queue f c);
      c1 = queue_start (queue_look c) (queue_push g (queue_start (queue_look c) (queue_push f c)));
      c2 = queue_written (queue_written c1)
    in queued_started alone = queued_started c @ [f] \<and> cn_queue alone = [f, g] \<and>
      queued_started c1 = queued_started c @ [f, f] \<and> cn_queue c1 = [f, g] \<and>
      queued_started c2 = queued_started c @ [f, f, g] \<and> cn_queue c2 = []"
  using assms
  by (simp add: Let_def queue_start_def queue_look_def queue_push_def add_msg_send_queue_def queue_written_def)

theorem pushes_write_twice_witness:
  "let c1 = queue_start (queue_look (Connection_ctor 5 [])) (queue_push [2] (queue_start (queue_look (Connection_ctor 5 []))
      (queue_push [1] (Connection_ctor 5 []))))
   in queued_started c1 = [[1], [1]] \<and> cn_queue c1 = [[1], [2]]"
  using pushes_write_twice [of "Connection_ctor 5 []" "[2]" "[1]"]
  by (simp add: Let_def Connection_ctor_def queued_started_def List.map_filter_def)

end
