(* ===== verification/RepoTests.thy ===== *)
theory RepoTests
  imports MsgFactory DateTime
begin

text \<open>
  The cases of the repository's unit tests \<open>tests/protocol/test_request.cpp\<close> and
  \<open>tests/protocol/test_datetime.cpp\<close>, stated for the definitions that model the code under test. Where
  a case runs on sample strings, it is stated for all strings.
\<close>

section \<open>\<open>test_request.cpp\<close>\<close>

lemma request_reg:
  "Request_has_register_request (create_reg_request login password)"
  "\<not> Request_has_input_request (create_reg_request login password)"
  "\<not> Request_has_text_request (create_reg_request login password)"
  "\<not> Request_has_join_room_request (create_reg_request login password)"
  by (simp_all add: request_factory_defs)

lemma registration_request:
  "reg_login (Request_register_request (create_reg_request login password)) = login"
  "reg_password (Request_register_request (create_reg_request login password)) = password"
  by (simp_all add: request_factory_defs)

lemma request_auto:
  "\<not> Request_has_register_request (create_input_request login password)"
  "Request_has_input_request (create_input_request login password)"
  "\<not> Request_has_text_request (create_input_request login password)"
  "\<not> Request_has_join_room_request (create_input_request login password)"
  by (simp_all add: request_factory_defs)

lemma auto_request:
  "inp_login (Request_input_request (create_input_request login password)) = login"
  "inp_password (Request_input_request (create_input_request login password)) = password"
  by (simp_all add: request_factory_defs)

section \<open>\<open>test_datetime.cpp\<close>\<close>

lemma construction_by_default:
  "hours DateTime_default = 0 \<and> minutes DateTime_default = 0 \<and> seconds DateTime_default = 0 \<and>
   day DateTime_default = 0 \<and> month DateTime_default = 0 \<and> year DateTime_default = 0"
  by (simp add: DateTime_default_def)

lemma byte_of_int: "0 \<le> i \<Longrightarrow> i < 256 \<Longrightarrow> uint (word_of_int i :: byte) = i"
  by (simp add: unsigned_of_int take_bit_int_eq_self)

text \<open>A \<open>ptime\<close> of the years that the type can hold.\<close>

lemma construction_from_ptime:
  assumes "pt_hours p \<in> {0..<24}" and "pt_minutes p \<in> {0..<60}" and "pt_seconds p \<in> {0..<60}"
    and "pt_day p \<in> {1..31}" and "pt_month p \<in> {1..12}" and "pt_year p \<in> {2000..2255}"
  shows "uint (hours (DateTime_of_ptime p)) = pt_hours p" "uint (minutes (DateTime_of_ptime p)) = pt_minutes p"
    "uint (seconds (DateTime_of_ptime p)) = pt_seconds p" "uint (day (DateTime_of_ptime p)) = pt_day p"
    "uint (month (DateTime_of_ptime p)) = pt_month p" "uint (year (DateTime_of_ptime p)) + 2000 = pt_year p"
  using assms byte_of_int [of "pt_year p - 2000"]
  by (simp_all add: DateTime_of_ptime_def byte_of_int del: of_int_diff)

lemma simple_date_string:
  "to_simple_date std_fmt02 (DateTime 0 0 0 22 7 20) = ''22.07.2020''"
  "to_simple_date std_fmt02 (DateTime 0 0 0 0 0 0) = ''00.00.2000''"
  "to_simple_date std_fmt02 (DateTime 0 0 0 31 12 255) = ''31.12.2255''"
  by (simp_all add: to_simple_date_def to_simple_time_def std_fmt02_def to_string_nat.simps digit_def char_of_def bit_0)

lemma simple_time_string:
  "to_simple_time std_fmt02 (DateTime 16 5 50 0 0 0) = ''16:05:50''"
  "to_simple_time std_fmt02 (DateTime 0 0 0 0 0 0) = ''00:00:00''"
  "to_simple_time std_fmt02 (DateTime 23 59 59 0 0 0) = ''23:59:59''"
  by (simp_all add: to_simple_date_def to_simple_time_def std_fmt02_def to_string_nat.simps digit_def char_of_def bit_0)

lemma operator_equal:
  "DateTime_eq (DateTime 1 2 3 4 5 6) (DateTime 1 2 3 4 5 6)"
  "\<not> DateTime_eq (DateTime 1 2 3 4 5 6) (DateTime 1 2 3 4 5 7)"
  "\<not> DateTime_eq (DateTime 1 2 3 4 5 6) (DateTime 1 2 3 4 5 5)"
  by simp_all

text \<open>The test changes one field at a time, which is why it does not notice what
  \<open>DateTime_less_not_asymmetric\<close> shows.\<close>

lemma operator_less:
  "list_all (\<lambda>d. \<not> DateTime_less d (DateTime 3 2 1 4 5 6))
     [DateTime 3 2 1 4 5 6, DateTime 3 2 1 4 5 7, DateTime 3 2 1 4 6 6, DateTime 3 2 1 5 5 6,
      DateTime 4 2 1 4 5 6, DateTime 3 3 1 4 5 6, DateTime 3 2 2 4 5 6]"
  "list_all (\<lambda>d. DateTime_less d (DateTime 3 2 1 4 5 6))
     [DateTime 3 2 0 4 5 6, DateTime 3 1 1 4 5 6, DateTime 2 2 1 4 5 6, DateTime 3 2 1 3 5 6,
      DateTime 3 2 1 4 4 6, DateTime 3 2 1 4 5 5]"
  by (simp_all add: DateTime_less_def)

end
