(* ===== verification/Sessions.thy ===== *)
theory Sessions
  imports Windows EndToEnd
begin

text \<open>
  Whole sessions, from a click in a window of the client, over the frames and the tasks of the server,
  back to the windows.
\<close>






end
