(* ===== verification/SingleThread.thy ===== *)
theory SingleThread
  imports ServerProps
begin

text \<open>
  The single-threaded handlers of \<open>connection.cpp\<close> (\<open>async_read_pb_msg\<close> and \<open>do_read_pb_*\<close>), which the
  interface \<open>ISubscriber\<close> still names although the reading loop does not call them: they answer in
  the handler itself, through the queue, where the tasks of the pool answer by a direct write.
\<close>

section \<open>Handlers\<close>

text \<open>An unknown command starts no read.\<close>

definition async_read_pb_msg :: "nat \<Rightarrow> Header \<Rightarrow> nat \<Rightarrow> 'h server \<Rightarrow> 'h server result" where
  "async_read_pb_msg alloc header p s =
     (let n = unat (hdr_length header)
      in if alloc < n then Inl LengthError
         else Inr (on_conn p (\<lambda>c.
           let c = c\<lparr>cn_buffer_msg := resize n (cn_buffer_msg c)\<rparr>
           in case TypeCommand_cast (hdr_command header) of
                AuthorisationRequest \<Rightarrow> c\<lparr>cn_reading := ReadInput\<rparr>
              | RegistrationRequest \<Rightarrow> c\<lparr>cn_reading := ReadRegister\<rparr>
              | JoinRoomRequestCmd \<Rightarrow> c\<lparr>cn_reading := ReadJoinRoom\<rparr>
              | EchoRequest \<Rightarrow> c\<lparr>cn_reading := ReadText\<rparr>
              | _ \<Rightarrow> c) s))"

definition body_arrived :: "bytes \<Rightarrow> connection \<Rightarrow> connection" where
  "body_arrived data c = c\<lparr>cn_buffer_msg := data, cn_reading := NoRead\<rparr>"

definition read_failed :: "connection \<Rightarrow> connection" where
  "read_failed c = c\<lparr>cn_reading := NoRead\<rparr>"

definition do_read_pb_input_req ::
  "pb_rt \<Rightarrow> 'h sqlite \<Rightarrow> nat \<Rightarrow> bytes option \<Rightarrow> 'h server \<Rightarrow> 'h server result" where
  "do_read_pb_input_req rt eng p outcome s =
     (case outcome of
        None \<Rightarrow> Inr (on_conn p read_failed s)
      | Some data \<Rightarrow>
          let s = on_conn p (body_arrived data) s; (parse, new_request) = parse_request rt data
          in if Request_has_input_request new_request then
               let login = inp_login (Request_input_request new_request);
                   password = inp_password (Request_input_request new_request);
                   s = on_conn p (\<lambda>c. c\<lparr>cn_login := login, cn_password := password\<rparr>) s
               in case database s of
                    None \<Rightarrow> Inl NullDeref
                  | Some db \<Rightarrow> and_then (check_client eng login password db) (\<lambda>client_id.
                      Inr (on_conn p (\<lambda>c. async_read_pb_header
                        (add_msg_send_queue (input_frame rt client_id) (c\<lparr>cn_client_id := client_id\<rparr>))) s))
             else Inr s)"

text \<open>The request is read without asking whether its slot is filled; a refused client is freed.\<close>

definition do_read_pb_reg_req ::
  "pb_rt \<Rightarrow> 'h sqlite \<Rightarrow> nat \<Rightarrow> bytes option \<Rightarrow> 'h server \<Rightarrow> 'h server result" where
  "do_read_pb_reg_req rt eng p outcome s =
     (case outcome of
        None \<Rightarrow> Inr (free_connection rt p (on_conn p read_failed s))
      | Some data \<Rightarrow>
          let s = on_conn p (body_arrived data) s
          in if database s = None then Inr (free_connection rt p s)
             else let (parse, new_request) = parse_request rt data;
                      login = reg_login (Request_register_request new_request);
                      password = reg_password (Request_register_request new_request);
                      s = on_conn p (\<lambda>c. c\<lparr>cn_login := login, cn_password := password\<rparr>) s
                  in and_then (register_login eng login password s) (\<lambda>(client_id, s).
                       let s = on_conn p (\<lambda>c. add_msg_send_queue (reg_frame rt client_id)
                             (c\<lparr>cn_client_id := client_id\<rparr>)) s
                       in Inr (if client_id \<noteq> -1 then on_conn p async_read_pb_header s
                               else free_connection rt p s)))"

definition do_read_pb_join_room_req ::
  "pb_rt \<Rightarrow> 'h sqlite \<Rightarrow> nat \<Rightarrow> bytes option \<Rightarrow> 'h server \<Rightarrow> 'h server result" where
  "do_read_pb_join_room_req rt eng p outcome s =
     (case outcome of
        None \<Rightarrow> Inr (free_connection rt p (on_conn p read_failed s))
      | Some data \<Rightarrow>
          let s = on_conn p (body_arrived data) s; (flag_parse, new_request) = parse_request rt data
          in and_then
               (if Request_has_join_room_request new_request then
                  and_then (join_channel rt eng p (jrq_room_id (Request_join_room_request new_request)) s)
                    (\<lambda>(flag, s). Inr (on_conn p (\<lambda>c.
                       add_msg_send_queue (join_room_frame rt (cn_room_id c) flag) c) s))
                else Inr s)
               (\<lambda>s. Inr (on_conn p async_read_pb_header s)))"

definition do_read_pb_text_req ::
  "pb_rt \<Rightarrow> 'h sqlite \<Rightarrow> (nat \<Rightarrow> string) \<Rightarrow> nat \<Rightarrow> bytes option \<Rightarrow> 'h server \<Rightarrow> 'h server result" where
  "do_read_pb_text_req rt eng fmt02 p outcome s =
     (case outcome of
        None \<Rightarrow> Inr (free_connection rt p (on_conn p read_failed s))
      | Some data \<Rightarrow>
          let s = on_conn p (body_arrived data) s
          in if database s = None then Inr (free_connection rt p s)
             else let (parse, new_request) = parse_request rt data
                  in and_then (deliver_and_save rt eng fmt02
                       (text_data (Request_text_request new_request)) s)
                       (\<lambda>s. Inr (on_conn p async_read_pb_header s)))"

section \<open>Agreement with the tasks of the pool\<close>

text \<open>On a login request the single-threaded handler and the task of the pool give every
  connection the same identity and leave the database and the rooms alike; they answer with the
  same frame, one through the queue and one by the posted task.\<close>

theorem single_threaded_login_agrees:
  assumes "Request_has_input_request (snd (parse_request rt data))"
    and "do_read_pb_input_req rt eng p (Some data) s = Inr s1"
    and "do_autorisation rt eng p (snd (parse_request rt data)) s = Inr s2"
  shows "(\<forall>q. cn_client_id (conns s1 q) = cn_client_id (conns s2 q) \<and>
      cn_login (conns s1 q) = cn_login (conns s2 q) \<and> cn_password (conns s1 q) = cn_password (conns s2 q)) \<and>
    database s1 = database s2 \<and> manager s1 = manager s2 \<and>
    (\<exists>i. frames_to (conns s1) p = frames_to (conns s) p @ [input_frame rt i] \<and>
      tasks s2 = tasks s @ [SendAutoResponse p i])"
proof -
  let ?r = "Request_input_request (snd (parse_request rt data))"
  obtain db i where i: "database s = Some db" "check_client eng (inp_login ?r) (inp_password ?r) db = Inr i"
    and s2: "s2 = post (SendAutoResponse p i) (on_conn p (\<lambda>c. c\<lparr>cn_client_id := i\<rparr>)
      (on_conn p (\<lambda>c. c\<lparr>cn_login := inp_login ?r, cn_password := inp_password ?r\<rparr>) s))"
    using assms(1,3) by (auto simp: do_autorisation_def Let_def split: option.splits)
  have s1: "s1 = on_conn p (\<lambda>c. async_read_pb_header (add_msg_send_queue (input_frame rt i)
      (c\<lparr>cn_client_id := i\<rparr>))) (on_conn p (\<lambda>c. c\<lparr>cn_login := inp_login ?r, cn_password := inp_password ?r\<rparr>)
      (on_conn p (body_arrived data) s))"
    using assms(1,2) i by (auto simp: do_read_pb_input_req_def Let_def split_beta)
  have out: "conn_queue.outbox (async_read_pb_header c) = conn_queue.outbox c"
    "conn_queue.outbox (c\<lparr>cn_client_id := j\<rparr>) = conn_queue.outbox c"
    "conn_queue.outbox (c\<lparr>cn_login := l, cn_password := w\<rparr>) = conn_queue.outbox c"
    "conn_queue.outbox (body_arrived data c) = conn_queue.outbox c" for c j l w
    by (simp_all add: conn_queue.outbox_def queued_started_def async_read_pb_header_def body_arrived_def)
  have pw: "cn_password (add_msg_send_queue f c) = cn_password c" for f c
    by (simp add: add_msg_send_queue_def sending_msgs_to_client_def Let_def)
  have "frames_to (conns s1) p = frames_to (conns s) p @ [input_frame rt i]"
    by (simp add: s1 frames_to_def out conn_queue.outbox_push)
  then show ?thesis
    by (simp add: s1 s2 async_read_pb_header_def pw body_arrived_def)
qed

theorem single_threaded_login_agrees_witness:
  "\<exists>data s1 s2. do_read_pb_input_req std_rt mini_engine 0 (Some data) (demo_server [(''ann'', 5, ''pw'')] []) = Inr s1 \<and>
    do_autorisation std_rt mini_engine 0 (create_input_request ''ann'' ''pw'') (demo_server [(''ann'', 5, ''pw'')] []) = Inr s2 \<and>
    cn_client_id (conns s1 0) = cn_client_id (conns s2 0)"
proof -
  let ?r = "create_input_request ''ann'' ''pw''"
  let ?data = "Request_InternalSerialize std_rt ?r"
  have "Request_wf std_rt ?r"
    by (simp add: wire_simps std_str_ok)
  then have parse: "parse_request std_rt ?data = (True, ?r)"
    by (simp add: parse_request_def ParseFromArray_def pb_runtime.Request_roundtrip [OF std.pb_runtime_axioms])
  have ok: "accounts_ok (fst ([(''ann'', 5 :: int32, ''pw'')], [] :: entry list))"
    by (simp add: accounts_ok_def)
  note check = mini.check_client_open [of "mini_db [(''ann'', 5, ''pw'')] []" "([(''ann'', 5, ''pw'')], [])" "''ann''" "''pw''"]
  have "\<exists>s1. do_read_pb_input_req std_rt mini_engine 0 (Some ?data) (demo_server [(''ann'', 5, ''pw'')] []) = Inr s1"
    "\<exists>s2. do_autorisation std_rt mini_engine 0 ?r (demo_server [(''ann'', 5, ''pw'')] []) = Inr s2"
    using check ok demo_open [of "[(''ann'', 5, ''pw'')]" "[]"]
    by (simp_all add: do_read_pb_input_req_def do_autorisation_def parse Let_def)
  then obtain s1 s2 where
    "do_read_pb_input_req std_rt mini_engine 0 (Some ?data) (demo_server [(''ann'', 5, ''pw'')] []) = Inr s1"
    "do_autorisation std_rt mini_engine 0 ?r (demo_server [(''ann'', 5, ''pw'')] []) = Inr s2"
    by blast
  then show ?thesis
    using single_threaded_login_agrees [of std_rt ?data mini_engine 0 "demo_server [(''ann'', 5, ''pw'')] []" s1 s2]
    by (auto simp: parse)
qed

end
