(* ===== verification/Startup.thy ===== *)
theory Startup
  imports Delivery Reading
begin

text \<open>
  From the command line to a serving process and back: \<open>startup_server.cpp\<close> and the constructor of
  \<open>Database\<close> at the start, the handler of SIGINT and the destructors at the end. What the process
  leaves behind is the database file; the section on restarts shows what the next process makes of
  it.
\<close>

section \<open>The start\<close>

definition db_path :: "string \<Rightarrow> string" where
  "db_path dir = ''file://'' @ cstr dir @ ''/Appchat/history.db''"

lemma db_path_eq: "''file://'' @ (cstr dir @ ''/Appchat/'') @ ''history.db'' = db_path dir"
  by (simp add: db_path_def)

lemma db_path_cstr: "cstr (db_path dir) = db_path dir"
  by (rule cstr_id) (auto simp: db_path_def no_nul_def cstr_def dest: set_takeWhileD)

lemma database_opens:
  assumes "sqlite_laws eng logins history intact" and "sq_open eng (db_path dir) = (SQLITE_OK, h)" and "intact h"
  shows "\<exists>h'. Database_ctor eng (Some dir) = Inr \<lparr>db_name = db_path dir, db_ptr = Some h'\<rparr> \<and>
    logins h' = logins h \<and> history h' = history h \<and> intact h'"
proof -
  obtain h1 where h1: "sq_exec eng (Some h) create_table_history = (SQLITE_OK, None, Some h1)"
    "logins h1 = logins h" "history h1 = history h" "intact h1"
    using sqlite_laws.create_tables [OF assms(1,3)] by blast
  obtain h2 where h2: "sq_exec eng (Some h1) create_table_logins = (SQLITE_OK, None, Some h2)"
    "logins h2 = logins h1" "history h2 = history h1" "intact h2"
    using sqlite_laws.create_tables [OF assms(1) h1(4)] by blast
  have "Database_ctor eng (Some dir) = Inr \<lparr>db_name = db_path dir, db_ptr = Some h2\<rparr>"
    using db_path_eq [of dir] db_path_cstr [of dir] assms(2) h1(1) h2(1)
    by (simp add: Database_ctor_def Let_def)
  with h1 h2 show ?thesis by auto
qed

lemma server_main_starts:
  assumes "sqlite_laws eng logins history intact" and "sq_open eng (db_path dir) = (SQLITE_OK, h)" and "intact h"
  shows "\<exists>h'. server_main eng (Some dir) (Some (wants_help, port_arg)) =
      Inr (Some (if wants_help then SERVER_DEFAULT_PORT else word_of_int port_arg,
        Server_ctor (Some \<lparr>db_name = db_path dir, db_ptr = Some h'\<rparr>))) \<and>
    logins h' = logins h \<and> history h' = history h \<and> intact h'"
  using database_opens [OF assms] by (auto simp: server_main_def set_parametrs_def)

text \<open>C28: every outcome of opening the database. When the file does not open, or one of the two tables
  cannot be created, the server starts all the same with a closed database, so that by
  \<open>closed_database_inert\<close> it serves without storing anything; on an intact file it starts on the tables
  that the file holds, unchanged. It listens on the port of the command line reduced to 16 bits, and
  on the default port when help was asked for, for it starts then too. Without a home directory it
  ends before it listens, and on a bad command line it does nothing.\<close>

theorem server_starts:
  assumes "sqlite_laws eng logins history intact"
    and "port = (if wants_help then SERVER_DEFAULT_PORT else word_of_int port_arg)"
  shows "(sq_open eng (db_path dir) = (rc, h) \<and>
        (rc \<noteq> SQLITE_OK \<or> fst (sq_exec eng (Some h) create_table_history) \<noteq> SQLITE_OK \<or>
          (\<exists>err h1. sq_exec eng (Some h) create_table_history = (SQLITE_OK, err, h1) \<and>
            fst (sq_exec eng h1 create_table_logins) \<noteq> SQLITE_OK)) \<longrightarrow>
      server_main eng (Some dir) (Some (wants_help, port_arg)) =
        Inr (Some (port, Server_ctor (Some \<lparr>db_name = db_path dir, db_ptr = None\<rparr>)))) \<and>
    (sq_open eng (db_path dir) = (SQLITE_OK, h) \<and> intact h \<longrightarrow>
      (\<exists>h'. server_main eng (Some dir) (Some (wants_help, port_arg)) =
          Inr (Some (port, Server_ctor (Some \<lparr>db_name = db_path dir, db_ptr = Some h'\<rparr>))) \<and>
        logins h' = logins h \<and> history h' = history h \<and> intact h')) \<and>
    server_main eng None (Some (wants_help, port_arg)) = Inl NullString \<and>
    server_main eng home None = Inr None"
proof (intro conjI impI)
  assume "sq_open eng (db_path dir) = (SQLITE_OK, h) \<and> intact h"
  then show "\<exists>h'. server_main eng (Some dir) (Some (wants_help, port_arg)) =
      Inr (Some (port, Server_ctor (Some \<lparr>db_name = db_path dir, db_ptr = Some h'\<rparr>))) \<and>
    logins h' = logins h \<and> history h' = history h \<and> intact h'"
    using server_main_starts [OF assms(1), of dir h wants_help port_arg] assms(2) by blast
next
  assume "sq_open eng (db_path dir) = (rc, h) \<and>
        (rc \<noteq> SQLITE_OK \<or> fst (sq_exec eng (Some h) create_table_history) \<noteq> SQLITE_OK \<or>
          (\<exists>err h1. sq_exec eng (Some h) create_table_history = (SQLITE_OK, err, h1) \<and>
            fst (sq_exec eng h1 create_table_logins) \<noteq> SQLITE_OK))"
  then have "Database_ctor eng (Some dir) = Inr \<lparr>db_name = db_path dir, db_ptr = None\<rparr>"
    using db_path_cstr [of dir] db_path_eq [of dir]
    by (auto simp: Database_ctor_def Let_def split: prod.splits)
  then show "server_main eng (Some dir) (Some (wants_help, port_arg)) =
      Inr (Some (port, Server_ctor (Some \<lparr>db_name = db_path dir, db_ptr = None\<rparr>)))"
    using assms(2) by (simp add: server_main_def set_parametrs_def)
qed (simp_all add: server_main_def set_parametrs_def Database_ctor_def)

text \<open>An engine that opens the file but cannot write to it.\<close>

definition readonly_exec :: "mini option \<Rightarrow> string \<Rightarrow> int \<times> string option \<times> mini option" where
  "readonly_exec ptr q = (if ptr = None then (SQLITE_MISUSE, None, None) else (8, Some ''readonly'', ptr))"

definition readonly_engine :: "mini sqlite" where
  "readonly_engine = mini_engine\<lparr>sq_exec := readonly_exec\<rparr>"

lemma readonly_laws: "sqlite_laws readonly_engine fst snd (\<lambda>_. False)"
  by unfold_locales (simp_all add: readonly_engine_def readonly_exec_def mini_engine_def mini_query_def)

theorem server_starts_witness:
  "(\<exists>h'. server_main mini_engine (Some ''/home/ann'') (Some (False, 70000)) =
      Inr (Some (4464, Server_ctor (Some \<lparr>db_name = ''file:///home/ann/Appchat/history.db'', db_ptr = Some h'\<rparr>))) \<and>
    snd h' = []) \<and>
   server_main readonly_engine (Some ''/home/ann'') (Some (True, 5)) =
      Inr (Some (SERVER_DEFAULT_PORT, Server_ctor (Some \<lparr>db_name = ''file:///home/ann/Appchat/history.db'', db_ptr = None\<rparr>)))"
proof -
  have path: "db_path ''/home/ann'' = ''file:///home/ann/Appchat/history.db''"
    by (simp add: db_path_def cstr_def)
  have opened: "sq_open mini_engine (db_path ''/home/ann'') = (SQLITE_OK, ([], []))"
    "sq_open readonly_engine (db_path ''/home/ann'') = (SQLITE_OK, ([], []))"
    "sq_exec readonly_engine (Some ([], [])) q = (8, Some ''readonly'', Some ([], []))" for q
    by (simp_all add: mini_engine_def readonly_engine_def readonly_exec_def)
  show ?thesis
    using server_starts [OF mini.sqlite_laws_axioms, of 4464 False 70000 "''/home/ann''" 0 "([], [])"]
      server_starts [OF readonly_laws, of SERVER_DEFAULT_PORT True 5 "''/home/ann''" 0 "([], [])"] opened
    by (auto simp: path)
qed

section \<open>Restarts\<close>





section \<open>The end\<close>

text \<open>A process: the server, whether its acceptor is open and whether its event loop runs.\<close>

record 'h process =
  srv :: "'h server"
  accepting :: bool
  running :: bool

definition run :: "'h server \<Rightarrow> 'h process" where
  "run s = \<lparr>srv = s, accepting = True, running = True\<rparr>"

text \<open>A handler of an accepted socket or of a read, run by the event loop: one that returns leaves the loop running;
  an exception leaves \<open>io_service::run\<close>, and \<open>main\<close> logs it, destroys the server and ends.\<close>

definition run_handler :: "'h server result \<Rightarrow> 'h process \<Rightarrow> 'h process" where
  "run_handler r pr =
     (case r of
        Inr s \<Rightarrow> pr\<lparr>srv := s\<rparr>
      | Inl e \<Rightarrow> pr\<lparr>accepting := False, running := False\<rparr>)"

text \<open>The handler of an accepted socket, with the exception of \<open>remote_endpoint\<close> in the constructor of
  the connection.\<close>

definition accept_handler :: "bool \<Rightarrow> bool \<Rightarrow> int32 \<Rightarrow> bytes \<Rightarrow> 'h server \<Rightarrow> 'h server result" where
  "accept_handler error peer_gone garbage_id garbage_header s =
     (if \<not> error \<and> peer_gone then Inl NotConnected else Inr (scan_acception error garbage_id garbage_header s))"

definition signal_handler :: "'h process \<Rightarrow> 'h process" where
  "signal_handler p = p\<lparr>running := False, accepting := False, srv := close_all (srv p)\<rparr>"

text \<open>The destructors of a connection, of the connection manager and of the database.\<close>

definition Connection_dtor :: "pb_rt \<Rightarrow> nat \<Rightarrow> 'h server \<Rightarrow> 'h server" where
  "Connection_dtor rt p s = free_connection rt p s"

definition ConnectionManager_dtor :: "'h server \<Rightarrow> 'h server" where
  "ConnectionManager_dtor s = close_all s"

definition Database_dtor :: "'h Database \<Rightarrow> 'h Database" where
  "Database_dtor db = db\<lparr>db_ptr := None\<rparr>"

lemma close_all_fields:
  "manager (close_all s) = manager s" "pool (close_all s) = []" "tasks (close_all s) = tasks s"
  "database (close_all s) = database s"
  "conns (close_all s) p = (if p \<in> set (pool s) then (conns s p)\<lparr>cn_busy := False\<rparr> else conns s p)"
proof -
  have *: "manager (fold (\<lambda>p. on_conn p (\<lambda>c. c\<lparr>cn_busy := False\<rparr>)) ps s) = manager s \<and>
      tasks (fold (\<lambda>p. on_conn p (\<lambda>c. c\<lparr>cn_busy := False\<rparr>)) ps s) = tasks s \<and>
      database (fold (\<lambda>p. on_conn p (\<lambda>c. c\<lparr>cn_busy := False\<rparr>)) ps s) = database s \<and>
      conns (fold (\<lambda>p. on_conn p (\<lambda>c. c\<lparr>cn_busy := False\<rparr>)) ps s) p =
        (if p \<in> set ps then (conns s p)\<lparr>cn_busy := False\<rparr> else conns s p)" for ps
    by (induction ps arbitrary: s) auto
  show "manager (close_all s) = manager s" "pool (close_all s) = []" "tasks (close_all s) = tasks s"
    "database (close_all s) = database s"
    "conns (close_all s) p = (if p \<in> set (pool s) then (conns s p)\<lparr>cn_busy := False\<rparr> else conns s p)"
    using * [of "pool s"] by (simp_all add: close_all_def)
qed

text \<open>A client that connects and resets its connection before the server has accepted it ends the
  service in the same way.\<close>

lemma vanished_peer_ends_server:
  "\<not> running (run_handler (accept_handler False True garbage_id garbage_header (srv pr)) pr)"
  "accept_handler error False garbage_id garbage_header s = Inr (scan_acception error garbage_id garbage_header s)"
  by (simp_all add: accept_handler_def run_handler_def)

text \<open>C36: the length of a header is the client's to choose: on any connection of any running server, one
  block of 19 bytes with a length beyond what can be allocated makes \<open>vector::resize\<close> throw out of the
  handler, and the exception ends the service for every client.\<close>

theorem oversized_length_ends_server:
  assumes "pb_runtime rt" and "alloc < 2 ^ 64 - 1" and "running pr" and "accepting pr"
  shows "\<exists>block. length block = SIZE_HEADER \<and>
    do_parse_pb_header rt alloc p (Some block) (srv pr) = Inl LengthError \<and>
    \<not> running (run_handler (do_parse_pb_header rt alloc p (Some block) (srv pr)) pr) \<and>
    \<not> accepting (run_handler (do_parse_pb_header rt alloc p (Some block) (srv pr)) pr)"
proof -
  have "enumerator EchoRequest" and "alloc < Suc alloc" and "Suc alloc < 18446744073709551616"
    using assms(2) by simp_all
  from oversized_length [OF assms(1) this, of p "srv pr"] show ?thesis
    by (auto simp: run_handler_def)
qed

theorem oversized_length_ends_server_witness:
  "\<exists>block. length block = SIZE_HEADER \<and>
    \<not> running (run_handler (do_parse_pb_header std_rt 2000000000 0 (Some block) (demo_server [] [])) (run (demo_server [] [])))"
  using oversized_length_ends_server [OF std.pb_runtime_axioms, of 2000000000 "run (demo_server [] [])" 0]
  by (auto simp: run_def)

text \<open>The handler of SIGINT stops accepting and empties the pool, but it closes no socket, leaves
  no room, drops no queued frame and no posted task: the rooms, which hold the connections by shared
  pointers, keep every one of them alive and subscribed.\<close>

theorem shutdown_leaves_rooms_populated:
  "\<not> running (signal_handler pr) \<and> \<not> accepting (signal_handler pr) \<and> pool (srv (signal_handler pr)) = [] \<and>
   (\<forall>p \<in> set (pool (srv pr)). \<not> cn_busy (conns (srv (signal_handler pr)) p)) \<and>
   (\<forall>p. cn_open (conns (srv (signal_handler pr)) p) = cn_open (conns (srv pr) p) \<and>
     frames_to (conns (srv (signal_handler pr))) p = frames_to (conns (srv pr)) p) \<and>
   (\<forall>r c. subscribed (manager (srv (signal_handler pr))) r c = subscribed (manager (srv pr)) r c) \<and>
   tasks (srv (signal_handler pr)) = tasks (srv pr)"
  by (simp add: signal_handler_def close_all_fields frames_to_def)

theorem shutdown_leaves_rooms_populated_witness:
  "subscribed (manager (srv (signal_handler (run demo_room)))) 7 1 = Some 0 \<and>
   pool (srv (signal_handler (run demo_room))) = []"
  using shutdown_leaves_rooms_populated [of "run demo_room"] demo_room_manager(2) by (simp add: run_def)

end
