(* ===== verification/Printing.thy ===== *)
theory Printing
  imports MsgFactory
begin

text \<open>
  The \<open>operator<<\<close> functions of \<open>msgfactory.h\<close>: the text that they append to a stream. The one for
  requests inserts its own argument, so it is a partial function whose value is \<open>None\<close> when it does
  not return.
\<close>

definition endl :: string where
  "endl = [char_of (10 :: nat)]"

definition print_Header :: "pb_rt \<Rightarrow> Header \<Rightarrow> string" where
  "print_Header rt msg =
     ''header size: '' @ to_string_nat (Header_ByteSizeLong rt msg) @ '' bytes'' @ endl @
     ''version:'' @ to_string_nat (unat (hdr_version msg)) @ endl @
     ''command:'' @ to_string_nat (unat (hdr_command msg)) @ endl @
     ''length:'' @ to_string_nat (unat (hdr_length msg)) @ endl"

definition print_InRequest :: "pb_rt \<Rightarrow> InRequest \<Rightarrow> string" where
  "print_InRequest rt msg =
     ''read InputRequest: '' @ to_string_nat (InRequest_ByteSizeLong rt msg) @ '' bytes'' @ endl @
     ''login:'' @ inp_login msg @ endl @
     ''password:'' @ inp_password msg @ endl"

text \<open>The argument is passed by value; the recursive call gets a copy of it.\<close>

partial_function (option) print_Request :: "Request \<Rightarrow> string option" where
  "print_Request msg =
     (if Request_has_input_request msg then print_Request (Request_copy msg) else Some [])"

text \<open>C40: printing a request that holds a login never returns: the operator calls itself with the same
  request instead of printing the login request inside. Every other request prints as nothing.\<close>

theorem print_Request_diverges:
  "print_Request msg = (if Request_has_input_request msg then None else Some [])"
proof -
  have "\<not> Request_has_input_request msg" if "print_Request msg = Some out" for out
    using that by (rule print_Request.raw_induct [rotated]) (auto split: if_splits)
  then have "print_Request msg = None" if "Request_has_input_request msg"
    using that by (cases "print_Request msg") blast+
  moreover have "print_Request msg = Some []" if "\<not> Request_has_input_request msg"
    using that by (subst print_Request.simps) simp
  ultimately show ?thesis by simp
qed

end
