(* ===== verification/Spec2Isabelle.thy ===== *)
theory Spec2Isabelle
  imports Calm Threads Unlocked RepoTests Sessions SingleThread Startup Printing
begin

text \<open>
  Verification of AppChat: a chat server, its Qt client, and the protocol between them, all under
  \<open>src/src/\<close>.

  \<^bold>\<open>The program.\<close> A client opens a TCP connection and sends frames: a header of fixed size
  (\<open>SIZE_HEADER\<close> = 19 bytes, message \<open>Header\<close>) and a protobuf \<open>Request\<close> of the length that the
  header names. The server (\<open>server/server.h\<close>) accepts connections into a pool
  (\<open>connection_manager.h\<close>); each \<open>Connection\<close> reads a header, then a body, parses it and posts the
  handler of its command as a task to a pool of threads, then reads the next header. The tasks check
  or register a login in an SQLite file (\<open>storage/database.cpp\<close>), join a room, or hand a text to
  the singleton \<open>ChannelsManager\<close>, whose \<open>Channel\<close>s call their subscribers through the interface
  \<open>ISubscriber\<close> and keep the history of the room. A subscriber queues a frame and writes its queue
  one frame at a time; answers to logins and joins are written directly. The client
  (\<open>client/client/client.cpp\<close>) runs the same two reads on \<open>Response\<close> frames, keeps a history per
  channel and emits signals; \<open>client/control\<close> connects the signals to the windows of \<open>client/gui\<close>.

  \<^bold>\<open>Theories and code.\<close>

  \<^item> \<open>Prelude\<close>: machine types (\<open>int32\<close>, \<open>uint64\<close>, ...: words), run-time failures of C++ as the
    datatype of errors and \<open>'a result\<close>, \<open>std::to_string\<close>, C strings, \<open>std::unordered_map\<close> as an
    association list with distinct keys (\<open>um_ok\<close>), and the collections of rewrite rules.
  \<^item> \<open>PbRuntime\<close>: the entry points of the protobuf runtime that the generated files call (record
    \<open>pb_rt\<close>, a parameter), their documented wire format (locale \<open>pb_runtime\<close>) and the loop of all
    generated \<open>_InternalParse\<close> functions. \<open>PbStandard\<close>: an implementation of the wire format that
    interprets the locale. \<open>RequestPb\<close>, \<open>ResponsePb\<close>, \<open>MessagesPb\<close>:
    \<open>protocol/include/protocol/proto/build/{request,response,messages}.pb.{h,cc}\<close>, one record per
    message class and one definition per member function.
  \<^item> \<open>CommandTable\<close>: \<open>command_table.h\<close>. \<open>MsgFactory\<close>: \<open>msgfactory.{h,cpp}\<close>. \<open>Printing\<close>: the stream
    operators at the end of \<open>msgfactory.h\<close>. \<open>DateTime\<close>: \<open>datetime.{h,cpp}\<close>. \<open>WireTypes\<close>: what a
    successful parse guarantees.
  \<^item> \<open>RepoTests\<close>: the cases of the repository's own unit tests, which hold of the definitions.
  \<^item> \<open>Database\<close>: \<open>storage/database.{h,cpp}\<close> over a record of SQLite calls, with the laws of SQLite on an
    intact file (\<open>sqlite_laws\<close>) and on statements that end inside a literal (\<open>sqlite_syntax\<close>);
    \<open>SqliteModel\<close>: a small SQL engine that interprets both, and the properties of the database.
  \<^item> \<open>Channel\<close>, \<open>ChannelsManager\<close>: the rooms and their registry, over a record of virtual functions
    for \<open>ISubscriber\<close>. \<open>WriteQueue\<close>: the contract of an outgoing queue.
  \<^item> \<open>Connection\<close> and \<open>Server\<close>: \<open>connection/connection.{h,cpp}\<close>, \<open>connection_manager.{h,cpp}\<close>,
    \<open>server.h\<close>, \<open>startup_server.cpp\<close>. A connection is a record in a heap (a function from pointers);
    the record \<open>server\<close> holds the heap, the pool, the registry, the database, the counter of
    identifiers and the posted tasks. \<open>SingleThread\<close>: the handlers \<open>do_read_pb_*\<close>, which the reading
    loop no longer calls. \<open>Startup\<close>: the command line, exceptions that leave a handler, the handler of SIGINT, the
    destructors.
  \<^item> \<open>ServerSystem\<close>: the server as a transition system (\<open>server_step\<close>, \<open>server_reach\<close>): an accepted
    socket, a completed or failed read, a task of the pool, a completed or failed write, in any
    order. \<open>ServerProps\<close>, \<open>Delivery\<close>, \<open>Reading\<close>, \<open>Buffers\<close>: its properties.
  \<^item> \<open>Threads\<close>: the four threads of the pool as a transition system (\<open>pool_step\<close>) in which a
    registration runs in the parts between which another thread can run (\<open>run_part\<close>), the increment of
    the counter of identifiers in two, with schedules that compute a run. \<open>Unlocked\<close>: the parts of \<open>Channel::join\<close> and of \<open>add_msg_send_queue\<close>.
  \<^item> \<open>ChatSpec\<close>: an abstract chat service (who is where, what was said, what was handed to whom), with
    what a member may rely on proved once in the locale \<open>chat_service\<close>. \<open>ChatRefinement\<close>: the
    abstraction \<open>chat_of\<close> of a server and one simulation lemma per operation. \<open>ChatService\<close>: the
    interpretation of the locale on the server, and what it gives for rooms, members and clients.
  \<^item> \<open>Client\<close>: \<open>client/client/client.{h,cpp}\<close>. \<open>Windows\<close>: \<open>client/control/control.{h,cpp}\<close> and the
    slots and list model of \<open>client/gui\<close>, with fields, lists, visibility and dialogs as state.
    \<open>LiveWindows\<close>: the windows of a running session as a transition system (\<open>window_step\<close>): reads and
    writes of the session's thread, signals that the thread of the windows handles later, and clicks.
    \<open>Application\<close>: the closed system with the windows of every user in front of it (\<open>app_step\<close>): all
    that users do are the slots of \<open>client/gui\<close>. \<open>Calm\<close>: the application left alone (\<open>calm_step\<close>).
    \<open>EndToEnd\<close>, \<open>Sessions\<close>: client and server together, with nothing between them but bytes.
  \<^item> \<open>Network\<close>: the closed system (\<open>net_step\<close>, \<open>net_reach\<close>): the server, one client at the other end
    of each connection, and two streams of bytes between them that lose, change and reorder nothing;
    a connection may be lost between two frames. \<open>Traffic\<close>: what such clients ask and such a server
    sends, by way of the locale \<open>honest_chat\<close> of \<open>ChatSpec\<close>. \<open>NetworkSafety\<close>: the invariant
    \<open>net_ok\<close>, kept by every step. \<open>ClosedSystem\<close>: what follows from it, and a run. \<open>Settling\<close>: the
    steps that happen of themselves (\<open>delivers\<close>) come to an end. \<open>Arrival\<close>: what has arrived then.
    \<open>Accounts\<close>: the numbering of the accounts over the life of a server.

  \<^bold>\<open>What is shown.\<close> The refinement: whatever interleaving of reads, writes, whole tasks and
  disconnections, the server behaves as the abstract service, so a member of a room is handed every
  message of the room, once per message, in the order of the room, and a client that reads the
  connection shows them in that order. The closed system: a client shows nothing that nobody wrote,
  and what it shows is at every moment the beginning of what was queued for it; between these clients
  and this server no task, parser or handler ever fails; deliveries end, and then a client that stays
  in a room shows everything the room recorded. The protocol: frames read back as what was serialized, sizes
  are right, parsing ends on every input and leaves valid UTF-8 only, the reading loop goes on after
  every block, queues write in order, buffers stay within bounds. The accounts: the three login
  operations implement a finite map, registration and login agree with it, over the life of a server
  that starts with none and runs its tasks whole they are numbered in the order of registration, so
  that no two of the first \<open>2 ^ 31\<close> share a login or an identifier, a message outlives the process. Whole sessions: a login from
  the click to the window that opens, a message from one client to the other; the chat window shows
  messages of the channel that is open and of no other, and misses none but those whose signal is
  pending. The whole application: what the chat of a user shows was sent from a chat window that
  showed the same channel, lay in the database, or announces a user; and a user who stays in a room
  comes to read everything that the room records; left alone, the application always comes to rest,
  with nothing under way and no signal pending, and every member of a room has then read it. These
  results hold for users who type as stated under Bounds and for a database file that stays intact.
  The threads: the parts of a task make up the task, and interleaved with those of another they do
  not. And the behaviour that a user of the code should know: one login registered twice by
  two threads, one identifier given to two logins by two threads, two registrations of one client that mix, messages missed by one who joins while they
  are delivered, a frame written twice by two pushes, header lengths that end the process, a request posted twice when a connection is lost inside a
  frame, logins with quotes, empty texts, a database that closed itself, identifiers given out again
  after a restart, subscriptions left behind by a second login, a line of the chat printed twice, a
  queue that stalls after a failed write, a printer that never returns, and an order on dates that is
  none.

  \<^bold>\<open>Parameters.\<close> \<open>rt\<close> is the protobuf runtime and \<open>eng\<close> SQLite, each with locales of documented
  laws and a concrete instance (\<open>std_rt\<close>, \<open>mini_engine\<close>) on which every witness is evaluated. The laws
  of SQLite speak of a handle that is \<open>intact\<close>: the two tables are there, and nothing outside the
  program (the medium, a lock of another process) makes a statement fail. What the code does when one
  fails is in its definitions, and stated where no law is needed: \<open>server_starts\<close> has the start on a
  file that does not open or take the tables, \<open>closed_database_inert\<close> the server after a failed save.
  \<open>fmt02\<close> is the directive of \<open>boost::format\<close>; the clock adjustor of Boost, the parsed command
  line, \<open>QString::toInt\<close>, and the values of uninitialised members and buffers are arguments.
  \<open>alloc\<close> is the greatest number of bytes that \<open>vector::resize\<close> can provide; it stands for a number
  below \<open>2 ^ 31\<close>, for which the casts of buffer sizes to \<open>int\<close> change nothing.

  \<^bold>\<open>Bounds.\<close> The parse loop has one turn of fuel per byte and one more; every field parser that
  goes on has consumed a byte, so the fuel never runs out (\<open>parsers_terminate\<close>). Sizes of messages
  are numbers, as \<open>size_t\<close>; the cast to the 32-bit header field of a nested message limits the
  round trips to messages below \<open>2 ^ 31\<close> bytes. Text that is \<open>plain\<close> has no quote and no null
  byte and is shorter than \<open>2 ^ 28\<close> bytes, so that every statement built from it is below the limits of
  SQLite. In the closed system (\<open>login_typed\<close>, \<open>text_typed\<close>) users type text that is plain, not empty and
  UTF-8, although the windows let them type quotes and send empty texts, and both sides can provide
  1073741910 bytes, more than the longest body that then can occur. Identifiers are 32-bit words that
  wrap where the overflow of the counter is undefined in C++; properties that depend on the counter
  bound it.

  \<^bold>\<open>Grain.\<close> A completion handler and a task of the pool are one step each: the interleaving of
  handlers and tasks, and of the reading thread and the windows of a client, is modelled. In \<open>Threads\<close>
  and \<open>Unlocked\<close> the grain is finer: a registration, a join and a push are cut where they go from one
  shared object to the next, which is where the missing locks show; the increment of the counter of
  identifiers is a read and a write. A single access to a container or to SQLite stays one step, and
  data races inside it are not modelled. A write puts a whole frame into the stream: the pieces of a
  direct write and of a queued one that are under way at once on one socket are not mixed.
  The results on the server and the application hold at the grain of whole tasks.

  \<^bold>\<open>Not modelled.\<close> The protobuf runtime, its arenas, descriptors and reflection tables; the set-up of
  Boost.Log and all log lines; Qt's widgets, palettes and layout beyond the values that the code
  writes into them; the creation of the directory of the database; a port that is in use; memory that
  runs out other than in \<open>resize\<close>; the exception of \<open>remote_endpoint\<close> for a peer that is gone when its
  socket is accepted, beyond \<open>accept_handler\<close>; the lifetime of the local
  buffers of direct writes and of the local \<open>io_service\<close> to which the client keeps a reference; a
  second session in the same windows, beyond what replaces the first (\<open>ended_session_closes_next\<close>);
  the stack-trace wrapper \<open>lib/traced_exception\<close>, which neither program uses.
\<close>

end
